(* ===== verification/MC_Prelude.thy ===== *)
theory MC_Prelude
  imports Main "HOL-Library.Word"
begin

text \<open>
  Shared vocabulary of the development: the machine types of the sources, the crate's error
  type and its result type, byte encodings of fixed-width integers, and the generic contract
  of a self-delimiting byte codec together with the lemmas its clients use.
\<close>

unbundle bit_operations_syntax

section \<open>Machine types\<close>

type_synonym byte = "8 word"
type_synonym u16 = "16 word"
type_synonym u32 = "32 word"
type_synonym u64 = "64 word"
type_synonym bytes = "byte list"

named_theorems mc_codec \<open>decoding undoes encoding\<close>
named_theorems mc_len \<open>lengths of encodings\<close>

section \<open>Errors\<close>

datatype RuntimeError =
    Io string
  | Syscall string string
  | Cgroup string
  | Filesystem string
  | Network string
  | Seccomp string
  | Config string
  | Json string
  | Snapshot string
  | Checkpoint string
  | Restore string
  | Migration string

type_synonym 'a result = "RuntimeError + 'a"

definition err_to_string :: "RuntimeError \<Rightarrow> string" where
  "err_to_string e = (case e of
     Io s \<Rightarrow> ''io error: '' @ s
   | Syscall n s \<Rightarrow> ''syscall '' @ n @ '' failed: '' @ s
   | Cgroup s \<Rightarrow> ''cgroup error: '' @ s
   | Filesystem s \<Rightarrow> ''filesystem error: '' @ s
   | Network s \<Rightarrow> ''network error: '' @ s
   | Seccomp s \<Rightarrow> ''seccomp error: '' @ s
   | Config s \<Rightarrow> ''config error: '' @ s
   | Json s \<Rightarrow> ''json error: '' @ s
   | Snapshot s \<Rightarrow> ''snapshot error: '' @ s
   | Checkpoint s \<Rightarrow> ''checkpoint error: '' @ s
   | Restore s \<Rightarrow> ''restore error: '' @ s
   | Migration s \<Rightarrow> ''migration error: '' @ s)"

text \<open>The question-mark operator on a pure result.\<close>

definition bind_res :: "'a result \<Rightarrow> ('a \<Rightarrow> 'b result) \<Rightarrow> 'b result" where
  "bind_res r f = (case r of Inl e \<Rightarrow> Inl e | Inr a \<Rightarrow> f a)"

lemma bind_res_simps [simp]:
  "bind_res (Inl e) f = Inl e"
  "bind_res (Inr a) f = f a"
  by (simp_all add: bind_res_def)

lemma bind_res_Inr_iff:
  "bind_res r f = Inr b \<longleftrightarrow> (\<exists>a. r = Inr a \<and> f a = Inr b)"
  by (cases r) auto

lemma bind_res_cong [fundef_cong]:
  "r = s \<Longrightarrow> (\<And>a. s = Inr a \<Longrightarrow> f a = g a) \<Longrightarrow> bind_res r f = bind_res s g"
  by (cases s) auto

section \<open>Strings are their UTF-8 bytes\<close>

definition as_bytes :: "string \<Rightarrow> bytes" where
  "as_bytes s = map (\<lambda>c. word_of_nat (of_char c)) s"

definition of_bytes :: "bytes \<Rightarrow> string" where
  "of_bytes bs = map (\<lambda>b. char_of (unat b)) bs"

lemma unat_less_exp: "unat (w :: 'a::len word) < 2 ^ LENGTH('a)"
  by (rule unsigned_less)

lemma unat_byte_less [simp]: "unat (b :: byte) < 256"
  using unat_less_exp [of b] by simp

lemma of_bytes_as_bytes [simp]: "of_bytes (as_bytes s) = s"
  by (simp add: of_bytes_def as_bytes_def comp_def unat_of_nat map_idI)

lemma length_as_bytes [simp]: "length (as_bytes s) = length s"
  by (simp add: as_bytes_def)

lemma length_of_bytes [simp]: "length (of_bytes s) = length s"
  by (simp add: of_bytes_def)

lemma as_bytes_of_bytes [simp]: "as_bytes (of_bytes bs) = bs"
  by (simp add: of_bytes_def as_bytes_def comp_def map_idI)

lemma inj_as_bytes: "as_bytes s = as_bytes t \<longleftrightarrow> s = t"
  by (metis of_bytes_as_bytes)

section \<open>Little- and big-endian integers\<close>

primrec nat_to_le :: "nat \<Rightarrow> nat \<Rightarrow> bytes" where
  "nat_to_le 0 k = []"
| "nat_to_le (Suc n) k = word_of_nat k # nat_to_le n (k div 256)"

primrec le_to_nat :: "bytes \<Rightarrow> nat" where
  "le_to_nat [] = 0"
| "le_to_nat (b # bs) = unat b + 256 * le_to_nat bs"

lemma length_nat_to_le [simp, mc_len]: "length (nat_to_le n k) = n"
  by (induction n arbitrary: k) simp_all

lemma le_to_nat_nat_to_le: "le_to_nat (nat_to_le n k) = k mod 256 ^ n"
proof (induction n arbitrary: k)
  case 0
  then show ?case by simp
next
  case (Suc n)
  then show ?case
    by (simp add: unat_of_nat mod_mult2_eq)
qed

lemma le_to_nat_bound: "le_to_nat bs < 256 ^ length bs"
proof (induction bs)
  case Nil
  then show ?case by simp
next
  case (Cons b bs)
  have "unat b < 256" by simp
  with Cons have "unat b + 256 * le_to_nat bs < 256 + 256 * (256 ^ length bs - 1)"
    by (simp add: add_less_le_mono)
  then show ?case by (simp add: diff_mult_distrib2)
qed

lemma nat_to_le_le_to_nat: "nat_to_le (length bs) (le_to_nat bs) = bs"
proof (induction bs)
  case Nil
  then show ?case by simp
next
  case (Cons b bs)
  have "(word_of_nat (unat b + 256 * le_to_nat bs) :: byte) = word_of_nat (unat b)"
    by (rule word_of_nat_eq_iff [THEN iffD2]) (simp add: take_bit_eq_mod)
  with Cons show ?case
    by simp
qed

definition u32_to_le :: "u32 \<Rightarrow> bytes" where "u32_to_le w = nat_to_le 4 (unat w)"
definition u32_from_le :: "bytes \<Rightarrow> u32" where "u32_from_le bs = word_of_nat (le_to_nat bs)"
definition u64_to_le :: "u64 \<Rightarrow> bytes" where "u64_to_le w = nat_to_le 8 (unat w)"
definition u64_from_le :: "bytes \<Rightarrow> u64" where "u64_from_le bs = word_of_nat (le_to_nat bs)"
definition u32_to_be :: "u32 \<Rightarrow> bytes" where "u32_to_be w = rev (u32_to_le w)"
definition u32_from_be :: "bytes \<Rightarrow> u32" where "u32_from_be bs = u32_from_le (rev bs)"

lemma u32_le_roundtrip [simp, mc_codec]: "u32_from_le (u32_to_le w) = w"
  using unat_less_exp [of w]
  by (simp add: u32_to_le_def u32_from_le_def le_to_nat_nat_to_le)

lemma u64_le_roundtrip [simp, mc_codec]: "u64_from_le (u64_to_le w) = w"
  using unat_less_exp [of w]
  by (simp add: u64_to_le_def u64_from_le_def le_to_nat_nat_to_le)

lemma u32_be_roundtrip [simp, mc_codec]: "u32_from_be (u32_to_be w) = w"
  by (simp add: u32_to_be_def u32_from_be_def)

lemma length_u32_to_le [simp, mc_len]: "length (u32_to_le w) = 4"
  by (simp add: u32_to_le_def)

lemma length_u64_to_le [simp, mc_len]: "length (u64_to_le w) = 8"
  by (simp add: u64_to_le_def)

lemma length_u32_to_be [simp, mc_len]: "length (u32_to_be w) = 4"
  by (simp add: u32_to_be_def)

lemma u32_to_le_from_le: "length bs = 4 \<Longrightarrow> u32_to_le (u32_from_le bs) = bs"
  using le_to_nat_bound [of bs] nat_to_le_le_to_nat [of bs]
  by (simp add: u32_to_le_def u32_from_le_def unat_of_nat)

lemma u64_to_le_from_le: "length bs = 8 \<Longrightarrow> u64_to_le (u64_from_le bs) = bs"
  using le_to_nat_bound [of bs] nat_to_le_le_to_nat [of bs]
  by (simp add: u64_to_le_def u64_from_le_def unat_of_nat)

lemma u32_to_be_from_be: "length bs = 4 \<Longrightarrow> u32_to_be (u32_from_be bs) = bs"
  using u32_to_le_from_le [of "rev bs"] by (simp add: u32_to_be_def u32_from_be_def)

section \<open>Self-delimiting codecs\<close>

text \<open>
  The contract of an encoding that can be followed by anything: decoding peels the encoded
  value off the front and hands the rest back. The frames of the wire protocol and the entry
  headers of a snapshot both provide it.
\<close>

locale prefix_codec =
  fixes enc :: "'a \<Rightarrow> bytes"
    and dec :: "bytes \<Rightarrow> 'e + 'a \<times> bytes"
    and wf :: "'a \<Rightarrow> bool"
  assumes dec_enc: "wf x \<Longrightarrow> dec (enc x @ rest) = Inr (x, rest)"
begin

lemma enc_unique:
  assumes "wf x" and "wf y" and "enc x @ r = enc y @ s"
  shows "x = y \<and> r = s"
proof -
  have "Inr (x, r) = dec (enc x @ r)"
    by (simp add: dec_enc assms(1))
  also have "\<dots> = dec (enc y @ s)"
    by (simp only: assms(3))
  also have "\<dots> = Inr (y, s)"
    by (simp add: dec_enc assms(2))
  finally show ?thesis by simp
qed

lemma stream_unique:
  assumes "list_all wf xs" and "list_all wf ys" and "length xs = length ys"
    and "concat (map enc xs) @ r = concat (map enc ys) @ s"
  shows "xs = ys \<and> r = s"
  using assms(3,1,2,4)
proof (induction xs ys rule: list_induct2)
  case (Cons x xs y ys)
  then have "x = y \<and> concat (map enc xs) @ r = concat (map enc ys) @ s"
    by (intro enc_unique) simp_all
  with Cons show ?case by simp
qed simp

lemma no_proper_prefix:
  assumes "wf x" and "wf y" and "enc x = enc y @ s"
  shows "s = []"
  using enc_unique [of x y "[]" s] assms by simp

end

section \<open>Computations with state and errors\<close>

text \<open>
  A computation takes the state, and returns an error or a value together with the state it
  leaves behind: an early return keeps the effects that came before it. Rust's question mark is
  \<open>bind_m\<close>; \<open>try_m\<close> reifies the outcome, which is how the sources ignore (\<open>let _ = ...\<close>)
  or inspect a failure.
\<close>

type_synonym ('s, 'e, 'a) eio = "'s \<Rightarrow> ('e + 'a) \<times> 's"

definition return_m :: "'a \<Rightarrow> ('s, 'e, 'a) eio" where
  "return_m a s = (Inr a, s)"

definition throw_m :: "'e \<Rightarrow> ('s, 'e, 'a) eio" where
  "throw_m e s = (Inl e, s)"

definition bind_m :: "('s, 'e, 'a) eio \<Rightarrow> ('a \<Rightarrow> ('s, 'e, 'b) eio) \<Rightarrow> ('s, 'e, 'b) eio" where
  "bind_m m f s = (case m s of (Inl e, t) \<Rightarrow> (Inl e, t) | (Inr a, t) \<Rightarrow> f a t)"

definition try_m :: "('s, 'e, 'a) eio \<Rightarrow> ('s, 'f, 'e + 'a) eio" where
  "try_m m s = (case m s of (r, t) \<Rightarrow> (Inr r, t))"

definition map_err_m :: "('e \<Rightarrow> 'f) \<Rightarrow> ('s, 'e, 'a) eio \<Rightarrow> ('s, 'f, 'a) eio" where
  "map_err_m g m s = (case m s of (Inl e, t) \<Rightarrow> (Inl (g e), t) | (Inr a, t) \<Rightarrow> (Inr a, t))"

definition get_m :: "('s \<Rightarrow> 'a) \<Rightarrow> ('s, 'e, 'a) eio" where
  "get_m f s = (Inr (f s), s)"

definition modify_m :: "('s \<Rightarrow> 's) \<Rightarrow> ('s, 'e, unit) eio" where
  "modify_m f s = (Inr (), f s)"

definition lift_m :: "('e + 'a) \<Rightarrow> ('s, 'e, 'a) eio" where
  "lift_m r s = (r, s)"

definition ignore_m :: "('s, 'e, 'a) eio \<Rightarrow> ('s, 'f, unit) eio" where
  "ignore_m m s = (Inr (), snd (m s))"

primrec mapM_m :: "('a \<Rightarrow> ('s, 'e, 'b) eio) \<Rightarrow> 'a list \<Rightarrow> ('s, 'e, 'b list) eio" where
  "mapM_m f [] = return_m []"
| "mapM_m f (x # xs) = bind_m (f x) (\<lambda>y. bind_m (mapM_m f xs) (\<lambda>ys. return_m (y # ys)))"

primrec forM_m :: "'a list \<Rightarrow> ('a \<Rightarrow> ('s, 'e, unit) eio) \<Rightarrow> ('s, 'e, unit) eio" where
  "forM_m [] f = return_m ()"
| "forM_m (x # xs) f = bind_m (f x) (\<lambda>_. forM_m xs f)"

lemma bind_m_return [simp]: "bind_m (return_m a) f = f a"
  by (rule ext) (simp add: bind_m_def return_m_def)

lemma bind_m_throw [simp]: "bind_m (throw_m e) f = throw_m e"
  by (rule ext) (simp add: bind_m_def throw_m_def)

lemma bind_m_cong [fundef_cong]:
  "m = m' \<Longrightarrow> s = s' \<Longrightarrow> (\<And>a t. m' s' = (Inr a, t) \<Longrightarrow> f a t = f' a t) \<Longrightarrow> bind_m m f s = bind_m m' f' s'"
  by (auto simp: bind_m_def split: prod.splits sum.splits)

lemma bind_m_assoc: "bind_m (bind_m m f) g = bind_m m (\<lambda>a. bind_m (f a) g)"
  by (rule ext) (simp add: bind_m_def split: prod.splits sum.splits)

subsection \<open>Weakest preconditions\<close>

text \<open>
  \<open>wp m Q R s\<close>: run from \<open>s\<close>, the computation ends in a value and a state that satisfy \<open>Q\<close>
  or in an error and a state that satisfy \<open>R\<close>. Computations are total, so this is total
  correctness.
\<close>

named_theorems mc_wp \<open>weakest-precondition equations of the primitive computations\<close>

definition wp :: "('s, 'e, 'a) eio \<Rightarrow> ('a \<Rightarrow> 's \<Rightarrow> bool) \<Rightarrow> ('e \<Rightarrow> 's \<Rightarrow> bool) \<Rightarrow> 's \<Rightarrow> bool" where
  "wp m Q R s = (case m s of (Inl e, t) \<Rightarrow> R e t | (Inr a, t) \<Rightarrow> Q a t)"

lemma wp_return [simp, mc_wp]: "wp (return_m a) Q R s = Q a s"
  by (simp add: wp_def return_m_def)

lemma wp_throw [simp, mc_wp]: "wp (throw_m e) Q R s = R e s"
  by (simp add: wp_def throw_m_def)

lemma wp_bind [simp, mc_wp]: "wp (bind_m m f) Q R s = wp m (\<lambda>a. wp (f a) Q R) R s"
  by (simp add: wp_def bind_m_def split: prod.splits sum.splits)

lemma wp_try [simp, mc_wp]: "wp (try_m m) Q R s = wp m (\<lambda>a. Q (Inr a)) (\<lambda>e. Q (Inl e)) s"
  by (simp add: wp_def try_m_def split: prod.splits sum.splits)

lemma wp_map_err [simp, mc_wp]: "wp (map_err_m g m) Q R s = wp m Q (\<lambda>e. R (g e)) s"
  by (simp add: wp_def map_err_m_def split: prod.splits sum.splits)

lemma wp_get [simp, mc_wp]: "wp (get_m f) Q R s = Q (f s) s"
  by (simp add: wp_def get_m_def)

lemma wp_modify [simp, mc_wp]: "wp (modify_m f) Q R s = Q () (f s)"
  by (simp add: wp_def modify_m_def)

lemma wp_lift [simp, mc_wp]:
  "wp (lift_m r) Q R s = (case r of Inl e \<Rightarrow> R e s | Inr a \<Rightarrow> Q a s)"
  by (simp add: wp_def lift_m_def)

lemma wp_ignore [simp, mc_wp]: "wp (ignore_m m) Q R s = wp m (\<lambda>_. Q ()) (\<lambda>_. Q ()) s"
  by (simp add: wp_def ignore_m_def split: prod.splits sum.splits)

lemma wp_mono:
  assumes "wp m Q R s"
    and "\<And>a t. Q a t \<Longrightarrow> Q' a t" and "\<And>e t. R e t \<Longrightarrow> R' e t"
  shows "wp m Q' R' s"
  using assms by (auto simp: wp_def split: prod.splits sum.splits)

lemma wp_conj: "wp m Q R s \<Longrightarrow> wp m Q' R' s \<Longrightarrow> wp m (\<lambda>a t. Q a t \<and> Q' a t) (\<lambda>e t. R e t \<and> R' e t) s"
  by (auto simp: wp_def split: prod.splits sum.splits)

text \<open>Sequencing with an intermediate assertion; the error assertion stays the same.\<close>

lemma wp_seq:
  "wp m Q' R s \<Longrightarrow> (\<And>a t. Q' a t \<Longrightarrow> wp (f a) Q R t) \<Longrightarrow> wp (bind_m m f) Q R s"
  by (simp only: wp_bind) (erule wp_mono)

lemma wp_same_run: "m s = n s \<Longrightarrow> wp m Q R s = wp n Q R s"
  by (simp add: wp_def)

lemma wp_InrD: "wp m Q R s \<Longrightarrow> m s = (Inr a, t) \<Longrightarrow> Q a t"
  by (simp add: wp_def)

lemma wp_InlD: "wp m Q R s \<Longrightarrow> m s = (Inl e, t) \<Longrightarrow> R e t"
  by (simp add: wp_def)

subsection \<open>State predicates a computation keeps\<close>

named_theorems mc_keeps \<open>introduction rules for kept predicates\<close>
named_theorems mc_blind \<open>predicates that do not look at the file tree are kept by file operations\<close>
named_theorems mc_same \<open>files an operation does not reach are kept\<close>

definition keeps :: "('s \<Rightarrow> bool) \<Rightarrow> ('s, 'e, 'a) eio \<Rightarrow> bool" where
  "keeps P m \<longleftrightarrow> (\<forall>s. P s \<longrightarrow> P (snd (m s)))"

lemma keepsI: "(\<And>s. P s \<Longrightarrow> P (snd (m s))) \<Longrightarrow> keeps P m"
  by (simp add: keeps_def)

lemma keepsD: "keeps P m \<Longrightarrow> P s \<Longrightarrow> P (snd (m s))"
  by (simp add: keeps_def)

lemma keeps_wp: "keeps P m \<Longrightarrow> P s \<Longrightarrow> wp m (\<lambda>_. P) (\<lambda>_. P) s"
  by (drule (1) keepsD) (auto simp: wp_def split: prod.splits sum.splits)

lemma keeps_return [mc_keeps]: "keeps P (return_m a)"
  by (simp add: keeps_def return_m_def)

lemma keeps_throw [mc_keeps]: "keeps P (throw_m e)"
  by (simp add: keeps_def throw_m_def)

lemma keeps_get [mc_keeps]: "keeps P (get_m f)"
  by (simp add: keeps_def get_m_def)

lemma keeps_lift [mc_keeps]: "keeps P (lift_m r)"
  by (simp add: keeps_def lift_m_def)

lemma keeps_bind [mc_keeps]: "keeps P m \<Longrightarrow> (\<And>a. keeps P (f a)) \<Longrightarrow> keeps P (bind_m m f)"
  by (auto simp: keeps_def bind_m_def split: prod.splits sum.splits)

lemma keeps_try [mc_keeps]: "keeps P m \<Longrightarrow> keeps P (try_m m)"
  by (auto simp: keeps_def try_m_def split: prod.splits)

lemma keeps_map_err [mc_keeps]: "keeps P m \<Longrightarrow> keeps P (map_err_m g m)"
  by (auto simp: keeps_def map_err_m_def split: prod.splits sum.splits)

lemma keeps_ignore [mc_keeps]: "keeps P m \<Longrightarrow> keeps P (ignore_m m)"
  by (simp add: keeps_def ignore_m_def)

lemma keeps_if [mc_keeps]:
  "(b \<Longrightarrow> keeps P m) \<Longrightarrow> (\<not> b \<Longrightarrow> keeps P n) \<Longrightarrow> keeps P (if b then m else n)"
  by simp

lemma keeps_option [mc_keeps]:
  "keeps P m \<Longrightarrow> (\<And>x. keeps P (f x)) \<Longrightarrow> keeps P (case opt of None \<Rightarrow> m | Some x \<Rightarrow> f x)"
  by (cases opt) simp_all

lemma keeps_sum [mc_keeps]:
  "(\<And>x. keeps P (f x)) \<Longrightarrow> (\<And>y. keeps P (g y)) \<Longrightarrow> keeps P (case r of Inl x \<Rightarrow> f x | Inr y \<Rightarrow> g y)"
  by (cases r) simp_all

lemma keeps_prod [mc_keeps]:
  "(\<And>x y. keeps P (f x y)) \<Longrightarrow> keeps P (case p of (x, y) \<Rightarrow> f x y)"
  by (cases p) simp

lemma keeps_let [mc_keeps]: "(\<And>x. keeps P (f x)) \<Longrightarrow> keeps P (let x = v in f x)"
  by simp

lemma keeps_forM [mc_keeps]: "(\<And>x. keeps P (f x)) \<Longrightarrow> keeps P (forM_m xs f)"
  by (induction xs) (simp_all add: mc_keeps)

lemma keeps_mapM [mc_keeps]: "(\<And>x. keeps P (f x)) \<Longrightarrow> keeps P (mapM_m f xs)"
  by (induction xs) (simp_all add: mc_keeps)

lemma keeps_modify: "(\<And>s. P s \<Longrightarrow> P (f s)) \<Longrightarrow> keeps P (modify_m f)"
  by (simp add: keeps_def modify_m_def)

end
