(* ===== verification/Crc32.thy ===== *)
theory Crc32
  imports MC_Prelude
begin

text \<open>
  The checksum of \<^verbatim>\<open>src/snapshot.rs\<close>: the table-driven CRC-32 that protects snapshot files,
  their entries and the migration stream, and the writer that checksums what passes through it.
  The lemmas relate the table to the bit-serial definition of CRC-32, show that the rolling
  form agrees with the one-shot form, and that damage confined to four consecutive bytes always
  changes the checksum. The locale \<open>checksum\<close> is the contract the snapshot reader and the
  transport rely on.
\<close>

section \<open>Definitions\<close>

text \<open>One round of the inner loop of \<^verbatim>\<open>crc_table\<close>.\<close>

definition crc_bit :: "u32 \<Rightarrow> u32" where
  "crc_bit c = (if c AND 1 \<noteq> 0 then 0xEDB88320 XOR drop_bit 1 c else drop_bit 1 c)"

definition crc_table :: "u32 list" where
  "crc_table = map (\<lambda>i. (crc_bit ^^ 8) (word_of_nat i)) [0..<256]"

datatype Crc32 = Crc32 u32

definition crc32_new :: Crc32 where
  "crc32_new = Crc32 0xFFFFFFFF"

text \<open>One turn of the loop of \<^verbatim>\<open>Crc32::update\<close>; the index is below 256, the table's length.\<close>

definition crc_step :: "u32 \<Rightarrow> byte \<Rightarrow> u32" where
  "crc_step c b = crc_table ! unat ((c XOR ucast b) AND 0xFF) XOR drop_bit 8 c"

primrec crc32_update :: "Crc32 \<Rightarrow> bytes \<Rightarrow> Crc32" where
  "crc32_update (Crc32 c) buf = Crc32 (foldl crc_step c buf)"

primrec crc32_finish :: "Crc32 \<Rightarrow> u32" where
  "crc32_finish (Crc32 c) = c XOR 0xFFFFFFFF"

definition crc32 :: "bytes \<Rightarrow> u32" where
  "crc32 buf = crc32_finish (crc32_update crc32_new buf)"

text \<open>
  \<^verbatim>\<open>CrcWriter\<close>: the inner writer is the bytes it has accepted so far. A single \<^verbatim>\<open>write\<close> may
  accept only a prefix of the buffer (\<open>n\<close> bytes); \<^verbatim>\<open>write_all\<close> retries with the rest. The
  function \<open>acc\<close> stands for how much the inner writer accepts when so many bytes are left:
  any function will do, since a write of a nonempty buffer accepts at least one byte.
\<close>

record CrcWriter =
  cw_inner :: bytes
  cw_crc :: Crc32
  cw_bytes :: u64

definition crcw_new :: "bytes \<Rightarrow> CrcWriter" where
  "crcw_new inner = \<lparr>cw_inner = inner, cw_crc = crc32_new, cw_bytes = 0\<rparr>"

definition crcw_write :: "CrcWriter \<Rightarrow> bytes \<Rightarrow> nat \<Rightarrow> CrcWriter" where
  "crcw_write w buf n =
     w\<lparr>cw_inner := cw_inner w @ take n buf,
       cw_crc := crc32_update (cw_crc w) (take n buf),
       cw_bytes := cw_bytes w + word_of_nat (length (take n buf))\<rparr>"

function crcw_write_all :: "(nat \<Rightarrow> nat) \<Rightarrow> CrcWriter \<Rightarrow> bytes \<Rightarrow> CrcWriter" where
  "crcw_write_all acc w buf =
     (if buf = [] then w
      else let n = max 1 (min (acc (length buf)) (length buf))
           in crcw_write_all acc (crcw_write w buf n) (drop n buf))"
  by pat_completeness auto
termination
  by (relation "measure (\<lambda>(acc, w, buf). length buf)") auto

text \<open>
  The reference: CRC-32 as a shift register fed one message bit at a time, least significant
  bit first, with the reflected polynomial.
\<close>

definition crc_serial :: "u32 \<Rightarrow> bool \<Rightarrow> u32" where
  "crc_serial c b = (if bit c 0 \<noteq> b then 0xEDB88320 XOR drop_bit 1 c else drop_bit 1 c)"

definition byte_bits :: "byte \<Rightarrow> bool list" where
  "byte_bits b = map (bit b) [0..<8]"

definition crc32_ref :: "bytes \<Rightarrow> u32" where
  "crc32_ref buf = foldl crc_serial 0xFFFFFFFF (concat (map byte_bits buf)) XOR 0xFFFFFFFF"

section \<open>The table step, bit by bit\<close>

lemma and_one_iff: "c AND 1 \<noteq> 0 \<longleftrightarrow> bit c 0" for c :: u32
  by (simp add: and_one_eq odd_iff_mod_2_eq_one bit_0)

lemma crc_bit_alt: "crc_bit c = (if bit c 0 then 0xEDB88320 else 0) XOR drop_bit 1 c"
  by (simp add: crc_bit_def and_one_iff)

lemma crc_bit_xor: "crc_bit (x XOR y) = crc_bit x XOR crc_bit y"
  by (rule bit_eqI) (auto simp: crc_bit_alt bit_simps)

lemma crc_bit_top: "bit (crc_bit c) 31 \<longleftrightarrow> bit c 0"
  using bit_imp_le_length [of c 32] by (auto simp: crc_bit_alt bit_simps)

lemma xor_left_cancel: "a XOR b = a XOR c \<longleftrightarrow> b = c" for a b c :: "'a::len word"
  by (metis xor.assoc xor_self_eq xor.left_neutral)

lemma inj_crc_bit: "crc_bit x = crc_bit y \<longleftrightarrow> x = y"
proof
  assume eq: "crc_bit x = crc_bit y"
  then have b0: "bit x 0 \<longleftrightarrow> bit y 0"
    by (metis crc_bit_top)
  with eq have d: "drop_bit 1 x = drop_bit 1 y"
    by (simp add: crc_bit_alt xor_left_cancel)
  show "x = y"
  proof (rule bit_eqI)
    fix n
    show "bit x n \<longleftrightarrow> bit y n"
    proof (cases n)
      case 0
      with b0 show ?thesis by simp
    next
      case (Suc m)
      with arg_cong [OF d, of "\<lambda>w. bit w m"] show ?thesis
        by (simp add: bit_simps)
    qed
  qed
qed simp

lemma crc_bits_xor: "(crc_bit ^^ n) (x XOR y) = (crc_bit ^^ n) x XOR (crc_bit ^^ n) y"
  by (induction n arbitrary: x y) (simp_all add: crc_bit_xor)

lemma inj_crc_bits: "(crc_bit ^^ n) x = (crc_bit ^^ n) y \<longleftrightarrow> x = y"
  by (induction n) (simp_all add: inj_crc_bit)

lemma crc_bit_even: "\<not> bit c 0 \<Longrightarrow> crc_bit c = drop_bit 1 c"
  by (simp add: crc_bit_alt)

lemma crc_bits_shift:
  "(\<And>i. 32 \<le> n + i \<Longrightarrow> \<not> bit y i) \<Longrightarrow> (crc_bit ^^ n) (push_bit n y) = y" for y :: u32
proof (induction n)
  case 0
  then show ?case by simp
next
  case (Suc n)
  have low: "\<not> bit (push_bit (Suc n) y) 0"
    by (simp only: bit_push_bit_iff) simp
  have "drop_bit 1 (push_bit (Suc n) y) = push_bit n y"
  proof (rule bit_word_eqI)
    fix i
    assume i: "i < LENGTH(32)"
    have "\<not> bit y (i - n)" if "i = 31" "n \<le> i"
      using Suc.prems [of "i - n"] that by simp
    with i show "bit (drop_bit 1 (push_bit (Suc n) y)) i = bit (push_bit n y) i"
      by (cases "i = 31") (simp_all add: bit_drop_bit_eq bit_push_bit_iff del: push_bit_Suc)
  qed
  with crc_bit_even [OF low] have "crc_bit (push_bit (Suc n) y) = push_bit n y"
    by (rule trans)
  moreover have "(crc_bit ^^ n) (push_bit n y) = y"
    using Suc.prems by (intro Suc.IH) simp
  ultimately show ?case
    by (simp add: funpow_swap1 del: push_bit_Suc)
qed

lemma crc_step_bitwise: "crc_step c b = (crc_bit ^^ 8) (c XOR ucast b)"
proof -
  let ?x = "c XOR ucast b :: u32"
  have lt: "unat (?x AND 0xFF) < 256"
    using word_and_le1 [of ?x "0xFF"] by (simp add: word_le_nat_alt) 
  have ff: "(0xFF :: u32) = mask 8"
    by (simp add: mask_eq_exp_minus_1)
  have split: "?x = (?x AND 0xFF) XOR push_bit 8 (drop_bit 8 ?x)"
    by (rule bit_eqI) (auto simp: ff bit_simps)
  have hi: "drop_bit 8 ?x = drop_bit 8 c"
    by (rule bit_eqI) (auto simp: bit_simps dest: bit_imp_le_length)
  have "\<not> bit (drop_bit 8 ?x) i" if "32 \<le> 8 + i" for i
    using that by (auto simp: bit_simps dest: bit_imp_le_length)
  then have "(crc_bit ^^ 8) (push_bit 8 (drop_bit 8 ?x)) = drop_bit 8 c"
    using crc_bits_shift [of 8 "drop_bit 8 c"] unfolding hi by blast
  then have "(crc_bit ^^ 8) ?x = (crc_bit ^^ 8) (?x AND 0xFF) XOR drop_bit 8 c"
    by (subst split) (simp only: crc_bits_xor)
  with lt show ?thesis
    by (simp add: crc_step_def crc_table_def)
qed
lemma foldl_crc_step_short:
  "length bs \<le> 4 \<Longrightarrow>
   foldl crc_step c bs = (crc_bit ^^ (8 * length bs)) (c XOR word_of_nat (le_to_nat bs))"
proof (induction bs arbitrary: c)
  case Nil
  then show ?case by simp
next
  case (Cons b bs)
  let ?m = "word_of_nat (le_to_nat bs) :: u32"
  have bound: "le_to_nat bs < 2 ^ 24"
  proof -
    have "le_to_nat bs < 256 ^ length bs" by (rule le_to_nat_bound)
    also have "(256 :: nat) ^ length bs \<le> 256 ^ 3"
      using Cons.prems by (intro power_increasing) simp_all
    finally show ?thesis by simp
  qed
  have zero: "\<not> bit ?m i" if "32 \<le> 8 + i" for i
  proof -
    have "le_to_nat bs < 2 ^ i"
      using that by (intro less_le_trans [OF bound] power_increasing) simp_all
    then have "\<not> bit (le_to_nat bs) i"
      by (simp add: bit_iff_odd)
    then show ?thesis
      by (simp add: bit_simps)
  qed
  have sum: "word_of_nat (le_to_nat (b # bs)) = (ucast b :: u32) XOR push_bit 8 ?m"
  proof -
    have "(ucast b :: u32) AND push_bit 8 ?m = 0"
      by (rule bit_word_eqI) (auto simp: bit_simps dest: bit_imp_le_length)
    then show ?thesis
      by (simp flip: disjunctive_xor_eq_or disjunctive_add_eq_xor
            add: push_bit_eq_mult unsigned_ucast_eq)
  qed
  have "foldl crc_step c (b # bs)
      = (crc_bit ^^ (8 * length bs)) ((crc_bit ^^ 8) (c XOR ucast b) XOR ?m)"
    using Cons.prems by (simp add: Cons.IH crc_step_bitwise [of c])
  also have "(crc_bit ^^ 8) (c XOR ucast b) XOR ?m
      = (crc_bit ^^ 8) ((c XOR ucast b) XOR push_bit 8 ?m)"
    by (simp only: crc_bits_xor crc_bits_shift [OF zero])
  finally show ?case
    by (simp add: sum xor.assoc add.commute flip: funpow_add [THEN fun_cong, unfolded comp_def] del: le_to_nat.simps)
qed

lemma foldl_crc_step_inj: "foldl crc_step c bs = foldl crc_step d bs \<longleftrightarrow> c = d"
proof (induction bs arbitrary: c d)
  case (Cons b bs)
  have "c XOR ucast b = d XOR ucast b \<longleftrightarrow> c = d"
    by (metis xor.commute xor_left_cancel)
  with Cons show ?case
    by (simp add: crc_step_bitwise inj_crc_bits)
qed simp

lemma foldl_crc_step_burst:
  assumes "length xs = length ys" and "length xs \<le> 4"
    and "foldl crc_step c xs = foldl crc_step c ys"
  shows "xs = ys"
proof -
  have "(word_of_nat (le_to_nat xs) :: u32) = word_of_nat (le_to_nat ys)"
    using assms by (simp add: foldl_crc_step_short inj_crc_bits xor_left_cancel)
  moreover have small: "le_to_nat zs < 2 ^ 32" if "length zs \<le> 4" for zs
  proof -
    have "le_to_nat zs < 256 ^ length zs" by (rule le_to_nat_bound)
    also have "(256 :: nat) ^ length zs \<le> 256 ^ 4"
      using that by (intro power_increasing) simp_all
    finally show ?thesis by simp
  qed
  ultimately have "le_to_nat xs = le_to_nat ys"
    using small [of xs] small [of ys] assms(1,2)
    by (simp add: word_of_nat_eq_iff take_bit_nat_eq_self)
  then show ?thesis
    using assms(1) nat_to_le_le_to_nat by metis
qed

lemma crc_serial_byte: "foldl crc_serial c (byte_bits b) = crc_step c b"
proof -
  have "foldl crc_serial c (map (bit b) [0..<n])
      = (crc_bit ^^ n) (c XOR take_bit n (ucast b))" if "n \<le> 8" for n
    using that
  proof (induction n)
    case (Suc n)
    have split: "take_bit (Suc n) (ucast b) = take_bit n (ucast b) XOR push_bit n (of_bool (bit b n) :: u32)"
      using Suc.prems
      by (intro bit_word_eqI) (auto simp: bit_simps less_Suc_eq)
    have one: "(crc_bit ^^ n) (push_bit n (of_bool (bit b n))) = of_bool (bit b n)"
      using Suc.prems by (intro crc_bits_shift) (auto simp: bit_simps)
    have "crc_bit (x XOR of_bool p) = crc_serial x p" for x :: u32 and p
      by (auto simp: crc_bit_alt crc_serial_def bit_simps drop_bit_xor)
    then show ?case
      using Suc by (simp add: split crc_bits_xor one flip: xor.assoc)
  qed simp
  moreover have "take_bit 8 (ucast b) = (ucast b :: u32)"
    by (rule bit_word_eqI) (auto simp: bit_simps dest: bit_imp_le_length)
  ultimately show ?thesis
    by (simp add: byte_bits_def crc_step_bitwise)
qed

lemma foldl_crc_serial: "foldl crc_serial c (concat (map byte_bits buf)) = foldl crc_step c buf"
  by (induction buf arbitrary: c) (simp_all add: crc_serial_byte)

section \<open>The contract of a checksum\<close>

text \<open>
  What the clients of the checksum rely on: it can be computed piecewise, the state after a
  common suffix determines the state before it, and a block of at most four bytes is determined
  by the states around it.
\<close>

locale checksum =
  fixes start :: 's
    and upd :: "'s \<Rightarrow> bytes \<Rightarrow> 's"
    and fin :: "'s \<Rightarrow> 'c"
  assumes upd_nil [simp]: "upd s [] = s"
    and upd_append: "upd s (xs @ ys) = upd (upd s xs) ys"
    and upd_inj: "upd s ys = upd t ys \<Longrightarrow> s = t"
    and upd_burst: "length xs = length ys \<Longrightarrow> length xs \<le> 4 \<Longrightarrow> upd s xs = upd s ys \<Longrightarrow> xs = ys"
    and fin_inj: "fin s = fin t \<Longrightarrow> s = t"
begin

lemma rolling: "foldl upd s chunks = upd s (concat chunks)"
  by (induction chunks arbitrary: s) (simp_all add: upd_append)

lemma burst_detected:
  assumes "length xs = length ys" and "length xs \<le> 4" and "xs \<noteq> ys"
  shows "fin (upd s (pre @ xs @ post)) \<noteq> fin (upd s (pre @ ys @ post))"
  using assms upd_burst [of xs ys "upd s pre"]
  by (auto simp: upd_append dest!: fin_inj upd_inj)

lemma last_block_determined:
  assumes "length xs = length ys" and "length xs \<le> 4"
    and "fin (upd s (pre @ xs)) = fin (upd s (pre @ ys))"
  shows "xs = ys"
  using assms burst_detected [of xs ys s pre "[]"] by auto

end

interpretation crc: checksum crc32_new crc32_update crc32_finish
proof unfold_locales
  fix s t :: Crc32 and xs ys :: bytes
  show "crc32_update s [] = s"
    by (cases s) simp
  show "crc32_update s (xs @ ys) = crc32_update (crc32_update s xs) ys"
    by (cases s) simp
  show "s = t" if "crc32_update s ys = crc32_update t ys"
    using that by (cases s; cases t) (simp add: foldl_crc_step_inj)
  show "xs = ys" if "length xs = length ys" "length xs \<le> 4" "crc32_update s xs = crc32_update s ys"
    using that foldl_crc_step_burst [of xs ys] by (cases s) simp
  show "s = t" if "crc32_finish s = crc32_finish t"
    using that by (cases s; cases t) (metis crc32_finish.simps xor.commute xor_left_cancel)
qed



section \<open>The checksumming writer\<close>

declare crcw_write_all.simps [simp del]

lemma crcw_write_all_eq:
  "crcw_write_all acc w buf =
     w\<lparr>cw_inner := cw_inner w @ buf, cw_crc := crc32_update (cw_crc w) buf,
       cw_bytes := cw_bytes w + word_of_nat (length buf)\<rparr>"
proof (induction acc w buf rule: crcw_write_all.induct)
  case (1 acc w buf)
  show ?case
  proof (cases "buf = []")
    case True
    then show ?thesis by (simp add: crcw_write_all.simps)
  next
    case False
    let ?n = "max 1 (min (acc (length buf)) (length buf))"
    have len: "min (length buf) ?n + (length buf - ?n) = length buf"
      by simp
    have "crc32_update (crc32_update c (take ?n buf)) (drop ?n buf) = crc32_update c buf" for c
      by (simp flip: crc.upd_append)
    moreover have "word_of_nat (min (length buf) ?n) + word_of_nat (length buf - ?n)
        = (word_of_nat (length buf) :: u64)"
      by (simp only: len flip: of_nat_add)
    ultimately show ?thesis
      using 1 [OF False refl] False
      by (simp add: crcw_write_all.simps [of acc w buf] Let_def crcw_write_def add.assoc)
  qed
qed

section \<open>Evaluation\<close>

lemmas crc_bit_eval = crc_bit_def [of 0] crc_bit_def [of 1] crc_bit_def [of "numeral n" for n]

lemma funpow_8: "(f ^^ 8) x = f (f (f (f (f (f (f (f x)))))))"
  by (simp add: eval_nat_numeral)

lemmas crc_eval = crc32_def crc32_new_def as_bytes_def crc_step_bitwise funpow_8 crc_bit_eval

section \<open>Properties\<close>

text \<open>
  C29: the table-driven \<^verbatim>\<open>crc32\<close> computes the bit-serial CRC-32 of its input, for every input.
\<close>
theorem crc32_is_bit_serial: "crc32 buf = crc32_ref buf"
  by (simp add: crc32_def crc32_new_def crc32_ref_def foldl_crc_serial)

text \<open>
  feeding a stream to \<^verbatim>\<open>Crc32::update\<close> in chunks of any sizes and finishing gives the one-shot
  checksum of the whole stream.
\<close>

theorem crc32_rolling_is_oneshot:
  "crc32_finish (foldl crc32_update crc32_new chunks) = crc32 (concat chunks)"
  by (simp add: crc32_def crc.rolling)

text \<open>
  damage confined to at most four consecutive bytes, in any position of a buffer of any
  length, always changes the CRC-32 (a flipped bit is the one-byte case).
\<close>

theorem crc32_burst_detected:
  assumes "length xs = length ys" and "length xs \<le> 4" and "xs \<noteq> ys"
  shows "crc32 (pre @ xs @ post) \<noteq> crc32 (pre @ ys @ post)"
  unfolding crc32_def using assms by (rule crc.burst_detected)

theorem crc32_burst_detected_witness:
  "crc32 ([1, 2] @ [3] @ [4]) \<noteq> crc32 ([1, 2] @ [2] @ [4])"
  by (rule crc32_burst_detected) simp_all

text \<open>
  however the inner writer splits the writes, \<^verbatim>\<open>CrcWriter\<close> passes every byte on in order,
  its running checksum is that of everything written since it was created, and it counts the bytes
  modulo 2 to the power 64.
\<close>

theorem crcw_write_all_tracks:
  "let w = crcw_write_all acc (crcw_write_all acc (crcw_new inner) xs) ys
   in cw_inner w = inner @ xs @ ys \<and> crc32_finish (cw_crc w) = crc32 (xs @ ys)
      \<and> cw_bytes w = word_of_nat (length (xs @ ys))"
  by (simp add: crcw_write_all_eq crcw_new_def crc32_def crc.upd_append)

text \<open>
  the CRC-32 of the test vector \<^verbatim>\<open>123456789\<close> and of the empty buffer, as the unit tests of
  the module have them.
\<close>

theorem crc32_known_vectors: "crc32 (as_bytes ''123456789'') = 0xCBF43926 \<and> crc32 [] = 0"
  by (simp add: crc_eval)

end
