(* ===== verification/Rust_Std.thy ===== *)
theory Rust_Std
  imports MC_Prelude
begin

text \<open>
  The parts of the standard library that the sources use on strings, numbers and paths:
  splitting, trimming and prefixes; decimal and hexadecimal formatting and parsing; UTF-8
  validity and character boundaries; path components, joining and extensions. A string is its
  UTF-8 bytes. White space is the ASCII white space, which is all that procfs and the tools'
  output contain.
\<close>

section \<open>Splitting and trimming\<close>

definition is_ws :: "char \<Rightarrow> bool" where
  "is_ws c = (let k = (of_char c :: nat) in k = 32 \<or> (9 \<le> k \<and> k \<le> 13))"

text \<open>\<^verbatim>\<open>str::split(char)\<close>: always at least one piece.\<close>

fun split_on :: "char \<Rightarrow> string \<Rightarrow> string list" where
  "split_on d [] = [[]]"
| "split_on d (c # cs) =
     (if c = d then [] # split_on d cs
      else case split_on d cs of [] \<Rightarrow> [[c]] | p # ps \<Rightarrow> (c # p) # ps)"

fun split_once :: "char \<Rightarrow> string \<Rightarrow> (string \<times> string) option" where
  "split_once d [] = None"
| "split_once d (c # cs) =
     (if c = d then Some ([], cs) else map_option (\<lambda>(a, b). (c # a, b)) (split_once d cs))"

fun rsplit_once :: "char \<Rightarrow> string \<Rightarrow> (string \<times> string) option" where
  "rsplit_once d [] = None"
| "rsplit_once d (c # cs) =
     (case rsplit_once d cs of
        Some (a, b) \<Rightarrow> Some (c # a, b)
      | None \<Rightarrow> if c = d then Some ([], cs) else None)"

fun strip_prefix :: "string \<Rightarrow> string \<Rightarrow> string option" where
  "strip_prefix [] s = Some s"
| "strip_prefix (p # ps) [] = None"
| "strip_prefix (p # ps) (c # cs) = (if p = c then strip_prefix ps cs else None)"

definition strip_suffix :: "string \<Rightarrow> string \<Rightarrow> string option" where
  "strip_suffix p s = map_option rev (strip_prefix (rev p) (rev s))"

definition starts_with :: "string \<Rightarrow> string \<Rightarrow> bool" where
  "starts_with p s = (strip_prefix p s \<noteq> None)"

fun contains_str :: "string \<Rightarrow> string \<Rightarrow> bool" where
  "contains_str p [] = (p = [])"
| "contains_str p (c # cs) = (starts_with p (c # cs) \<or> contains_str p cs)"

text \<open>\<^verbatim>\<open>str::split_once(&str)\<close>: at the first occurrence.\<close>

fun split_once_str :: "string \<Rightarrow> string \<Rightarrow> (string \<times> string) option" where
  "split_once_str p [] = (if p = [] then Some ([], []) else None)"
| "split_once_str p (c # cs) =
     (case strip_prefix p (c # cs) of
        Some r \<Rightarrow> Some ([], r)
      | None \<Rightarrow> map_option (\<lambda>(a, b). (c # a, b)) (split_once_str p cs))"

definition trim_start :: "string \<Rightarrow> string" where
  "trim_start = dropWhile is_ws"

definition trim :: "string \<Rightarrow> string" where
  "trim s = rev (dropWhile is_ws (rev (dropWhile is_ws s)))"

definition trim_start_matches :: "char \<Rightarrow> string \<Rightarrow> string" where
  "trim_start_matches d = dropWhile (\<lambda>c. c = d)"

text \<open>\<^verbatim>\<open>str::split_whitespace\<close>: the maximal runs of other characters.\<close>

fun split_ws_from :: "string \<Rightarrow> string \<Rightarrow> string list" where
  "split_ws_from cur [] = (if cur = [] then [] else [rev cur])"
| "split_ws_from cur (c # cs) =
     (if is_ws c then (if cur = [] then split_ws_from [] cs else rev cur # split_ws_from [] cs)
      else split_ws_from (c # cur) cs)"

definition split_whitespace :: "string \<Rightarrow> string list" where
  "split_whitespace s = split_ws_from [] s"

text \<open>\<^verbatim>\<open>str::lines\<close>: split at line feeds, a final empty piece and a trailing carriage return
  dropped.\<close>

definition strip_cr :: "string \<Rightarrow> string" where
  "strip_cr l = (case strip_suffix [CHR 0x0D] l of Some r \<Rightarrow> r | None \<Rightarrow> l)"

definition lines :: "string \<Rightarrow> string list" where
  "lines s = (let ps = split_on (CHR 0x0A) s;
                  qs = (if last ps = [] then butlast ps else ps)
              in map strip_cr qs)"

fun join_with :: "string \<Rightarrow> string list \<Rightarrow> string" where
  "join_with sep [] = []"
| "join_with sep [x] = x"
| "join_with sep (x # xs) = x @ sep @ join_with sep xs"

lemma split_on_ne [simp]: "split_on d s \<noteq> []"
  by (cases s) (auto split: list.splits)

lemma concat_split_on: "c \<in> set p \<Longrightarrow> p \<in> set (split_on d s) \<Longrightarrow> c \<in> set s \<and> c \<noteq> d"
  by (induction s arbitrary: p) (fastforce split: if_splits list.splits)+

lemma split_on_Cons_neq:
  "c \<noteq> d \<Longrightarrow> split_on d (c # cs) = (c # hd (split_on d cs)) # tl (split_on d cs)"
  by (cases "split_on d cs") simp_all

lemma split_on_append:
  "split_on d (xs @ d # ys) = split_on d xs @ split_on d ys"
  by (induction xs) (auto split: list.splits)

lemma split_on_none: "d \<notin> set s \<Longrightarrow> split_on d s = [s]"
  by (induction s) auto

lemma strip_prefix_append [simp]: "strip_prefix p (p @ s) = Some s"
  by (induction p) simp_all

lemma strip_prefix_iff: "strip_prefix p s = Some r \<longleftrightarrow> s = p @ r"
  by (induction p s rule: strip_prefix.induct) auto

lemma strip_suffix_iff: "strip_suffix p s = Some r \<longleftrightarrow> s = r @ p"
  unfolding strip_suffix_def
  by (auto simp: strip_prefix_iff) (metis rev_append rev_rev_ident)+

lemma rsplit_once_none: "d \<notin> set s \<Longrightarrow> rsplit_once d s = None"
  by (induction s) auto

lemma rsplit_once_last:
  "d \<notin> set b \<Longrightarrow> rsplit_once d (a @ d # b) = Some (a, b)"
  by (induction a) (simp_all add: rsplit_once_none)

lemma split_once_first:
  "d \<notin> set a \<Longrightarrow> split_once d (a @ d # b) = Some (a, b)"
  by (induction a) auto

section \<open>Numbers as text\<close>

definition digit_char :: "nat \<Rightarrow> char" where
  "digit_char d = (if d < 10 then char_of (48 + d) else char_of (87 + d))"

fun show_radix :: "nat \<Rightarrow> nat \<Rightarrow> string" where
  "show_radix r n =
     (if n < r \<or> r < 2 then [digit_char n] else show_radix r (n div r) @ [digit_char (n mod r)])"

declare show_radix.simps [simp del]

definition show_nat :: "nat \<Rightarrow> string" where
  "show_nat n = show_radix 10 n"

definition show_int :: "int \<Rightarrow> string" where
  "show_int i = (if i < 0 then CHR ''-'' # show_nat (nat (- i)) else show_nat (nat i))"

definition show_hex :: "nat \<Rightarrow> string" where
  "show_hex n = show_radix 16 n"

text \<open>Zero-padded to a width, as \<^verbatim>\<open>{:02}\<close> and \<^verbatim>\<open>{:04}\<close> do.\<close>

definition pad_zero :: "nat \<Rightarrow> string \<Rightarrow> string" where
  "pad_zero w s = replicate (w - length s) (CHR ''0'') @ s"

definition digit_val :: "nat \<Rightarrow> char \<Rightarrow> nat option" where
  "digit_val r c =
     (let k = (of_char c :: nat);
          v = (if 48 \<le> k \<and> k \<le> 57 then k - 48
               else if 97 \<le> k \<and> k \<le> 122 then k - 87
               else if 65 \<le> k \<and> k \<le> 90 then k - 55 else r)
      in if v < r then Some v else None)"

fun parse_digits :: "nat \<Rightarrow> nat \<Rightarrow> string \<Rightarrow> nat option" where
  "parse_digits r acc [] = Some acc"
| "parse_digits r acc (c # cs) =
     (case digit_val r c of None \<Rightarrow> None | Some d \<Rightarrow> parse_digits r (acc * r + d) cs)"

text \<open>
  \<^verbatim>\<open>from_str_radix\<close> at an unsigned type of the given width: one leading plus sign is allowed, an
  empty digit string, a foreign character and a value out of range are errors.
\<close>

definition parse_unsigned :: "nat \<Rightarrow> nat \<Rightarrow> string \<Rightarrow> nat option" where
  "parse_unsigned r bits s =
     (let ds = (case strip_prefix ''+'' s of Some t \<Rightarrow> t | None \<Rightarrow> s)
      in if ds = [] then None
         else case parse_digits r 0 ds of
                None \<Rightarrow> None
              | Some n \<Rightarrow> if n < 2 ^ bits then Some n else None)"

definition parse_i32 :: "string \<Rightarrow> int option" where
  "parse_i32 s =
     (case strip_prefix ''-'' s of
        Some t \<Rightarrow>
          (if t = [] then None
           else case parse_digits 10 0 t of
                  None \<Rightarrow> None
                | Some n \<Rightarrow> if n \<le> 2 ^ 31 then Some (- int n) else None)
      | None \<Rightarrow> map_option int (parse_unsigned 10 31 s))"

lemma digit_val_char: "d < r \<Longrightarrow> r \<le> 36 \<Longrightarrow> digit_val r (digit_char d) = Some d"
  by (auto simp: digit_val_def digit_char_def Let_def)

lemma parse_digits_append:
  "parse_digits r acc (xs @ ys) =
     (case parse_digits r acc xs of None \<Rightarrow> None | Some a \<Rightarrow> parse_digits r a ys)"
  by (induction xs arbitrary: acc) (auto split: option.splits)

lemma parse_show_radix:
  assumes "2 \<le> r" and "r \<le> 36"
  shows "parse_digits r 0 (show_radix r n) = Some n"
  using assms
proof (induction r n rule: show_radix.induct)
  case (1 r n)
  show ?case
  proof (cases "n < r")
    case True
    with 1 show ?thesis
      by (simp add: show_radix.simps [of r n] digit_val_char)
  next
    case False
    with 1 have "parse_digits r 0 (show_radix r (n div r)) = Some (n div r)"
      by simp
    moreover have "n mod r < r"
      using 1 by simp
    ultimately show ?thesis
      using False 1 by (simp add: show_radix.simps [of r n] parse_digits_append digit_val_char)
  qed
qed

lemma show_radix_ne [simp]: "show_radix r n \<noteq> []"
  by (subst show_radix.simps) simp

lemma digit_char_neq: "d < 36 \<Longrightarrow> digit_char d \<noteq> CHR ''+'' \<and> digit_char d \<noteq> CHR ''-''"
  by (auto simp: digit_char_def char_of_eq_iff take_bit_eq_mod split: if_splits)

lemma show_radix_digits:
  "2 \<le> r \<Longrightarrow> r \<le> 36 \<Longrightarrow> c \<in> set (show_radix r n) \<Longrightarrow> \<exists>d<r. c = digit_char d"
proof (induction r n rule: show_radix.induct)
  case (1 r n)
  then show ?case
  proof (cases "n < r")
    case True
    with 1 show ?thesis by (auto simp: show_radix.simps [of r n])
  next
    case False
    with 1 have "c \<in> set (show_radix r (n div r)) \<or> c = digit_char (n mod r)"
      by (auto simp: show_radix.simps [of r n])
    moreover have "n mod r < r"
      using 1 by simp
    ultimately show ?thesis
      using 1 False by (metis (full_types) not_less)
  qed
qed

lemma show_radix_head: "show_radix 10 n = c # cs \<Longrightarrow> c \<noteq> CHR ''+'' \<and> c \<noteq> CHR ''-''"
proof -
  assume "show_radix 10 n = c # cs"
  then obtain d where "d < 10" "c = digit_char d"
    using show_radix_digits [of 10 c n] by auto
  then show ?thesis
    using digit_char_neq [of d] by simp
qed

lemma parse_unsigned_show_nat: "n < 2 ^ bits \<Longrightarrow> parse_unsigned 10 bits (show_nat n) = Some n"
proof -
  assume n: "n < 2 ^ bits"
  obtain c cs where s: "show_radix 10 n = c # cs"
    by (meson list.exhaust show_radix_ne)
  then have "c \<noteq> CHR ''+''"
    using show_radix_head by blast
  then show ?thesis
    using n parse_show_radix [of 10 n] s
    by (simp add: parse_unsigned_def show_nat_def)
qed

lemma parse_i32_show_int: "- (2 ^ 31) \<le> i \<Longrightarrow> i < 2 ^ 31 \<Longrightarrow> parse_i32 (show_int i) = Some i"
proof -
  assume i: "- (2 ^ 31) \<le> i" "i < 2 ^ 31"
  obtain c cs where s: "show_radix 10 (nat i) = c # cs"
    by (meson list.exhaust show_radix_ne)
  then have c: "c \<noteq> CHR ''-''"
    using show_radix_head by blast
  show ?thesis
  proof (cases "i < 0")
    case True
    then show ?thesis
      using i parse_show_radix [of 10 "nat (- i)"]
      by (simp add: parse_i32_def show_int_def show_nat_def nat_le_iff)
  next
    case False
    then have "parse_unsigned 10 31 (show_nat (nat i)) = Some (nat i)"
      using i by (intro parse_unsigned_show_nat) (simp add: nat_less_iff)
    with False c s show ?thesis
      by (simp add: parse_i32_def show_int_def show_nat_def)
  qed
qed

lemma length_show_radix: "n < 10 ^ w \<Longrightarrow> 0 < w \<Longrightarrow> length (show_radix 10 n) \<le> w"
proof (induction w arbitrary: n)
  case (Suc w)
  show ?case
  proof (cases "n < 10")
    case True
    then show ?thesis by (subst show_radix.simps) simp
  next
    case False
    with Suc.prems have "0 < w" "n div 10 < 10 ^ w"
      by (cases w, simp_all add: less_mult_imp_div_less)
    with Suc.IH have "length (show_radix 10 (n div 10)) \<le> w" by blast
    with False show ?thesis by (subst show_radix.simps) simp
  qed
qed simp

lemma length_pad_zero: "n < 10 ^ w \<Longrightarrow> 0 < w \<Longrightarrow> length (pad_zero w (show_nat n)) = w"
  using length_show_radix [of n w] by (simp add: pad_zero_def show_nat_def)

lemma parse_digits_zeros: "2 \<le> r \<Longrightarrow> r \<le> 36 \<Longrightarrow> parse_digits r 0 (replicate k (CHR ''0'')) = Some 0"
  by (induction k) (simp_all add: digit_val_def)

lemma parse_pad_zero: "parse_digits 10 0 (pad_zero w (show_nat n)) = Some n"
  by (simp add: pad_zero_def show_nat_def parse_digits_append parse_digits_zeros parse_show_radix)

lemma show_nat_inj: "show_nat m = show_nat n \<longleftrightarrow> m = n"
proof
  assume "show_nat m = show_nat n"
  then have "parse_digits 10 0 (pad_zero 0 (show_nat m)) = parse_digits 10 0 (pad_zero 0 (show_nat n))"
    by simp
  then show "m = n" by (simp only: parse_pad_zero option.inject)
qed simp

section \<open>UTF-8\<close>

definition utf8_cont :: "byte \<Rightarrow> bool" where
  "utf8_cont b = (0x80 \<le> b \<and> b \<le> 0xBF)"

fun utf8_valid :: "bytes \<Rightarrow> bool" where
  "utf8_valid [] = True"
| "utf8_valid (a # r) =
     (if a < 0x80 then utf8_valid r
      else case r of
        [] \<Rightarrow> False
      | b # r2 \<Rightarrow>
          if 0xC2 \<le> a \<and> a \<le> 0xDF then utf8_cont b \<and> utf8_valid r2
          else (case r2 of
             [] \<Rightarrow> False
           | c # r3 \<Rightarrow>
               if 0xE0 \<le> a \<and> a \<le> 0xEF then
                 utf8_cont b \<and> utf8_cont c \<and> (a = 0xE0 \<longrightarrow> 0xA0 \<le> b) \<and> (a = 0xED \<longrightarrow> b \<le> 0x9F)
                 \<and> utf8_valid r3
               else (case r3 of
                  [] \<Rightarrow> False
                | d # r4 \<Rightarrow>
                    0xF0 \<le> a \<and> a \<le> 0xF4 \<and> utf8_cont b \<and> utf8_cont c \<and> utf8_cont d
                    \<and> (a = 0xF0 \<longrightarrow> 0x90 \<le> b) \<and> (a = 0xF4 \<longrightarrow> b \<le> 0x8F) \<and> utf8_valid r4)))"

definition from_utf8 :: "bytes \<Rightarrow> string option" where
  "from_utf8 bs = (if utf8_valid bs then Some (of_bytes bs) else None)"

lemma utf8_valid_ascii: "list_all (\<lambda>b. b < 0x80) bs \<Longrightarrow> utf8_valid bs"
  by (induction bs) simp_all

definition is_char_boundary :: "string \<Rightarrow> nat \<Rightarrow> bool" where
  "is_char_boundary s n =
     (n = 0 \<or> n = length s \<or> (n < length s \<and> \<not> utf8_cont (word_of_nat (of_char (s ! n)))))"

text \<open>\<^verbatim>\<open>str::get(..n)\<close>, and the slice \<^verbatim>\<open>&s[..n]\<close>, which panics where \<^verbatim>\<open>get\<close> has no answer.\<close>

definition str_get_to :: "string \<Rightarrow> nat \<Rightarrow> string option" where
  "str_get_to s n = (if n \<le> length s \<and> is_char_boundary s n then Some (take n s) else None)"

section \<open>Paths\<close>

datatype Component = RootDir | CurDir | ParentDir | Normal string

definition is_absolute :: "string \<Rightarrow> bool" where
  "is_absolute p = (case p of c # _ \<Rightarrow> c = CHR ''/'' | [] \<Rightarrow> False)"

text \<open>\<^verbatim>\<open>Path::components\<close> on Unix: repeated separators and inner dots vanish, a leading dot of a
  relative path is kept.\<close>

definition piece_component :: "string \<Rightarrow> Component list" where
  "piece_component s =
     (if s = [] \<or> s = ''.'' then [] else if s = ''..'' then [ParentDir] else [Normal s])"

definition components :: "string \<Rightarrow> Component list" where
  "components p =
     (let ps = split_on (CHR ''/'') p
      in (if is_absolute p then [RootDir] else if hd ps = ''.'' then [CurDir] else [])
         @ concat (map piece_component ps))"

definition path_join :: "string \<Rightarrow> string \<Rightarrow> string" where
  "path_join d n =
     (if is_absolute n then n
      else if d = [] \<or> last d = CHR ''/'' then d @ n
      else d @ ''/'' @ n)"

text \<open>The last normal component, and the file stem: the name up to its last dot, unless that dot
  starts the name.\<close>

definition file_name :: "string \<Rightarrow> string option" where
  "file_name p = (case rev (components p) of Normal s # _ \<Rightarrow> Some s | _ \<Rightarrow> None)"

definition file_stem :: "string \<Rightarrow> string" where
  "file_stem n = (case rsplit_once (CHR ''.'') n of Some (a, b) \<Rightarrow> (if a = [] then n else a) | None \<Rightarrow> n)"

end
