(* ===== verification/Host.thy ===== *)
theory Host
  imports Rust_Std "HOL-Library.AList"
begin

text \<open>
  The host a command runs on. The file tree is modelled concretely, with the \<^verbatim>\<open>std::fs\<close> calls
  the sources use; the process table and the control groups are data. Everything the runtime
  only asks for (the kernel's reaction to signals and to writes into the control-group tree, the
  programs \<^verbatim>\<open>criu\<close>, \<^verbatim>\<open>ip\<close>, \<^verbatim>\<open>iptables\<close> and \<^verbatim>\<open>nsenter\<close>, the clock, and which I/O calls fail)
  is a field of the parameter \<open>env\<close>. The world also keeps the sequence of requests made to the
  kernel and of messages sent, so that their order can be stated. Pseudo-files (the control-group
  tree, \<^verbatim>\<open>sysctl\<close> entries) are requests to the kernel, not files of the tree.
\<close>

section \<open>State\<close>

datatype node = File bytes | Dir

type_synonym fspath = "string list"

record proc =
  p_stat :: string
  p_ns :: "string \<Rightarrow> string option"
  p_net :: "string \<Rightarrow> string option"
  p_mountinfo :: "string option"
  p_fds :: "(string \<times> string option) list option"

record kstate =
  fs :: "(fspath \<times> node) list"
  procs :: "int \<Rightarrow> proc option"
  cgs :: "string \<Rightarrow> (string \<Rightarrow> string option) option"

datatype event =
    Exec string "string list"
  | Kill int string
  | Reap int
  | Fork int
  | Release
  | Setsid
  | CgMkdir string
  | CgRmdir string
  | CgWrite string string
  | NetSend bytes

record world = kstate +
  tick :: nat
  events :: "event list"

record exec_output =
  ex_code :: "int option"
  ex_stdout :: string
  ex_stderr :: string

definition ex_success :: "exec_output \<Rightarrow> bool" where
  "ex_success out = (ex_code out = Some 0)"

record env =
  faulty :: "nat \<Rightarrow> nat option"
  read_len :: "nat \<Rightarrow> nat"
  now_at :: "nat \<Rightarrow> nat"
  mono_ms :: "nat \<Rightarrow> nat"
  ms_at :: "nat \<Rightarrow> nat \<Rightarrow> u64"
  e_home :: "string option"
  e_cwd :: fspath
  e_arch :: string
  e_hostname :: "string option"
  e_osrelease :: "string option"
  e_self_ns :: "string \<Rightarrow> string option"
  k_kill :: "int \<Rightarrow> string \<Rightarrow> kstate \<Rightarrow> kstate"
  k_reap :: "int \<Rightarrow> kstate \<Rightarrow> kstate"
  k_sleep :: "kstate \<Rightarrow> kstate"
  k_exec :: "string \<Rightarrow> string list \<Rightarrow> kstate \<Rightarrow> (string + exec_output) \<times> kstate"
  k_cg_mkdir :: "string \<Rightarrow> kstate \<Rightarrow> (string + unit) \<times> kstate"
  k_cg_rmdir :: "string \<Rightarrow> kstate \<Rightarrow> (string + unit) \<times> kstate"
  k_cg_write :: "string \<Rightarrow> string \<Rightarrow> kstate \<Rightarrow> (string + unit) \<times> kstate"
  k_cg_read :: "string \<Rightarrow> kstate \<Rightarrow> string option"

type_synonym 'a io = "(world, RuntimeError, 'a) eio"
type_synonym 'a sys = "(world, string, 'a) eio"

section \<open>Requests to the kernel\<close>

definition kpart :: "world \<Rightarrow> kstate" where
  "kpart w = \<lparr>fs = fs w, procs = procs w, cgs = cgs w\<rparr>"

definition put_kpart :: "kstate \<Rightarrow> world \<Rightarrow> world" where
  "put_kpart k w = w\<lparr>fs := fs k, procs := procs k, cgs := cgs k\<rparr>"

definition log_event :: "event \<Rightarrow> world \<Rightarrow> world" where
  "log_event e w = w\<lparr>events := events w @ [e]\<rparr>"

definition kernel :: "event \<Rightarrow> (kstate \<Rightarrow> (string + 'a) \<times> kstate) \<Rightarrow> 'a sys" where
  "kernel e f w = (case f (kpart w) of (r, k) \<Rightarrow> (r, log_event e (put_kpart k w)))"

definition kill_sig :: "'b env_scheme \<Rightarrow> int \<Rightarrow> string \<Rightarrow> (world, 'e, unit) eio" where
  "kill_sig E pid sig w = (Inr (), log_event (Kill pid sig) (put_kpart (k_kill E pid sig (kpart w)) w))"

text \<open>\<^verbatim>\<open>waitpid\<close> with \<^verbatim>\<open>WNOHANG\<close>, whose answer the sources ignore.\<close>

definition reap_nohang :: "'b env_scheme \<Rightarrow> int \<Rightarrow> (world, 'e, unit) eio" where
  "reap_nohang E pid w = (Inr (), log_event (Reap pid) (put_kpart (k_reap E pid (kpart w)) w))"

definition thread_sleep :: "'b env_scheme \<Rightarrow> (world, 'e, unit) eio" where
  "thread_sleep E w = (Inr (), (put_kpart (k_sleep E (kpart w)) w)\<lparr>tick := Suc (tick w)\<rparr>)"

definition exec_cmd :: "'b env_scheme \<Rightarrow> string \<Rightarrow> string list \<Rightarrow> exec_output sys" where
  "exec_cmd E bin args = kernel (Exec bin args) (k_exec E bin args)"

definition cg_mkdir :: "'b env_scheme \<Rightarrow> string \<Rightarrow> unit sys" where
  "cg_mkdir E p = kernel (CgMkdir p) (k_cg_mkdir E p)"

definition cg_rmdir :: "'b env_scheme \<Rightarrow> string \<Rightarrow> unit sys" where
  "cg_rmdir E p = kernel (CgRmdir p) (k_cg_rmdir E p)"

definition cg_write :: "'b env_scheme \<Rightarrow> string \<Rightarrow> string \<Rightarrow> unit sys" where
  "cg_write E p v = kernel (CgWrite p v) (k_cg_write E p v)"

definition cg_read :: "'b env_scheme \<Rightarrow> string \<Rightarrow> (world, 'e, string option) eio" where
  "cg_read E p = get_m (\<lambda>w. k_cg_read E p (kpart w))"

section \<open>The file tree\<close>

definition fget :: "('a kstate_scheme) \<Rightarrow> fspath \<Rightarrow> node option" where
  "fget w p = map_of (fs w) p"

text \<open>A path is resolved against the working directory; there are no symbolic links.\<close>

fun resolve_step :: "fspath \<Rightarrow> Component \<Rightarrow> fspath" where
  "resolve_step acc RootDir = []"
| "resolve_step acc CurDir = acc"
| "resolve_step acc ParentDir = butlast acc"
| "resolve_step acc (Normal s) = acc @ [s]"

definition resolve :: "'b env_scheme \<Rightarrow> string \<Rightarrow> fspath" where
  "resolve E p = foldl resolve_step (e_cwd E) (components p)"

definition under :: "fspath \<Rightarrow> fspath \<Rightarrow> bool" where
  "under d p = (take (length d) p = d)"

definition is_file :: "'a kstate_scheme \<Rightarrow> fspath \<Rightarrow> bool" where
  "is_file w p = (case fget w p of Some (File _) \<Rightarrow> True | _ \<Rightarrow> False)"

definition is_dir :: "'a kstate_scheme \<Rightarrow> fspath \<Rightarrow> bool" where
  "is_dir w p = (fget w p = Some Dir)"

definition path_exists :: "'a kstate_scheme \<Rightarrow> fspath \<Rightarrow> bool" where
  "path_exists w p = (fget w p \<noteq> None)"

definition file_len :: "'a kstate_scheme \<Rightarrow> fspath \<Rightarrow> nat" where
  "file_len w p = (case fget w p of Some (File b) \<Rightarrow> length b | _ \<Rightarrow> 0)"

definition set_node :: "fspath \<Rightarrow> node \<Rightarrow> world \<Rightarrow> world" where
  "set_node p n w = w\<lparr>fs := AList.update p n (fs w)\<rparr>"

definition drop_nodes :: "(fspath \<Rightarrow> bool) \<Rightarrow> world \<Rightarrow> world" where
  "drop_nodes P w = w\<lparr>fs := filter (\<lambda>(q, _). \<not> P q) (fs w)\<rparr>"

definition can_create :: "world \<Rightarrow> fspath \<Rightarrow> bool" where
  "can_create w p = (p \<noteq> [] \<and> is_dir w (butlast p) \<and> \<not> is_dir w p)"

text \<open>
  Every fallible call takes one tick. When the environment says that it fails (\<open>Some k\<close>), the
  call reports an error after \<open>k\<close> units of its work: bytes written after the truncation,
  directories made, entries removed.
\<close>

definition io_op ::
  "'b env_scheme \<Rightarrow> (nat \<Rightarrow> world \<Rightarrow> world) \<Rightarrow> (world \<Rightarrow> (string + 'a) \<times> world) \<Rightarrow> 'a sys" where
  "io_op E g f w =
     (let w' = w\<lparr>tick := Suc (tick w)\<rparr>
      in case faulty E (tick w) of Some k \<Rightarrow> (Inl ''Input/output error'', g k w') | None \<Rightarrow> f w')"

abbreviation enoent :: string where "enoent \<equiv> ''No such file or directory''"

definition no_work :: "nat \<Rightarrow> world \<Rightarrow> world" where
  "no_work k w = w"

definition partial_file :: "fspath \<Rightarrow> bytes \<Rightarrow> nat \<Rightarrow> world \<Rightarrow> world" where
  "partial_file p b k w =
     (if k = 0 \<or> \<not> can_create w p then w else set_node p (File (take (k - 1) b)) w)"

definition fs_read :: "'b env_scheme \<Rightarrow> fspath \<Rightarrow> bytes sys" where
  "fs_read E p = io_op E no_work (\<lambda>w. (case fget w p of Some (File b) \<Rightarrow> Inr b | _ \<Rightarrow> Inl enoent, w))"

definition fs_read_to_string :: "'b env_scheme \<Rightarrow> fspath \<Rightarrow> string sys" where
  "fs_read_to_string E p =
     bind_m (fs_read E p) (\<lambda>b. case from_utf8 b of
        None \<Rightarrow> throw_m ''stream did not contain valid UTF-8''
      | Some s \<Rightarrow> return_m s)"

definition fs_write :: "'b env_scheme \<Rightarrow> fspath \<Rightarrow> bytes \<Rightarrow> unit sys" where
  "fs_write E p b = io_op E (partial_file p b) (\<lambda>w.
     if can_create w p then (Inr (), set_node p (File b) w) else (Inl enoent, w))"

text \<open>A write to the end of a file that is open for writing.\<close>

definition append_node :: "fspath \<Rightarrow> bytes \<Rightarrow> world \<Rightarrow> world" where
  "append_node p b w = (case fget w p of Some (File c) \<Rightarrow> set_node p (File (c @ b)) w | _ \<Rightarrow> w)"

definition fs_append :: "'b env_scheme \<Rightarrow> fspath \<Rightarrow> bytes \<Rightarrow> unit sys" where
  "fs_append E p b = io_op E (\<lambda>k. append_node p (take k b)) (\<lambda>w.
     if is_file w p then (Inr (), append_node p b w) else (Inl enoent, w))"

primrec mkdirs :: "fspath list \<Rightarrow> world \<Rightarrow> world" where
  "mkdirs [] w = w"
| "mkdirs (q # qs) w = mkdirs qs (if path_exists w q then w else set_node q Dir w)"

definition prefixes_of :: "fspath \<Rightarrow> fspath list" where
  "prefixes_of p = map (\<lambda>n. take n p) [0..<Suc (length p)]"

definition fs_create_dir_all :: "'b env_scheme \<Rightarrow> fspath \<Rightarrow> unit sys" where
  "fs_create_dir_all E p = io_op E
     (\<lambda>k w. if list_ex (is_file w) (prefixes_of p) then w else mkdirs (take k (prefixes_of p)) w)
     (\<lambda>w. if list_ex (is_file w) (prefixes_of p) then (Inl ''Not a directory'', w)
          else (Inr (), mkdirs (prefixes_of p) w))"

definition fs_remove_dir_all :: "'b env_scheme \<Rightarrow> fspath \<Rightarrow> unit sys" where
  "fs_remove_dir_all E p = io_op E
     (\<lambda>k w. drop_nodes (\<lambda>q. p \<noteq> q \<and> under p q \<and> q \<in> set (take k (map fst (fs w)))) w)
     (\<lambda>w. if is_dir w p then (Inr (), drop_nodes (under p) w) else (Inl enoent, w))"

definition fs_remove_file :: "'b env_scheme \<Rightarrow> fspath \<Rightarrow> unit sys" where
  "fs_remove_file E p = io_op E no_work (\<lambda>w.
     if is_file w p then (Inr (), drop_nodes (\<lambda>q. q = p) w) else (Inl enoent, w))"

definition fs_rename :: "'b env_scheme \<Rightarrow> fspath \<Rightarrow> fspath \<Rightarrow> unit sys" where
  "fs_rename E p q = io_op E no_work (\<lambda>w.
     case fget w p of
       Some (File b) \<Rightarrow>
         if can_create w q then (Inr (), set_node q (File b) (drop_nodes (\<lambda>r. r = p) w)) else (Inl enoent, w)
     | _ \<Rightarrow> (Inl enoent, w))"

definition fs_copy :: "'b env_scheme \<Rightarrow> fspath \<Rightarrow> fspath \<Rightarrow> unit sys" where
  "fs_copy E p q = io_op E
     (\<lambda>k w. case fget w p of Some (File b) \<Rightarrow> partial_file q b k w | _ \<Rightarrow> w)
     (\<lambda>w. case fget w p of
       Some (File b) \<Rightarrow> if can_create w q then (Inr (), set_node q (File b) w) else (Inl enoent, w)
     | _ \<Rightarrow> (Inl enoent, w))"

text \<open>The names in a directory, in the order the file tree happens to hold them.\<close>

definition dir_names :: "'a kstate_scheme \<Rightarrow> fspath \<Rightarrow> string list" where
  "dir_names w p = map last (filter (\<lambda>q. q \<noteq> [] \<and> butlast q = p) (map fst (fs w)))"

definition fs_read_dir :: "'b env_scheme \<Rightarrow> fspath \<Rightarrow> string list sys" where
  "fs_read_dir E p = io_op E no_work (\<lambda>w. (if is_dir w p then Inr (dir_names w p) else Inl enoent, w))"

section \<open>Open files and streams\<close>

text \<open>
  An open file or a stream is the bytes still to be read. A read returns between one byte and what
  was asked for, as the environment decides; only at the end it returns nothing. Seeking, flushing
  and querying an open file only can fail.
\<close>

definition io_touch :: "'b env_scheme \<Rightarrow> unit sys" where
  "io_touch E = io_op E no_work (\<lambda>w. (Inr (), w))"

definition fd_read :: "'b env_scheme \<Rightarrow> nat \<Rightarrow> bytes \<Rightarrow> bytes sys" where
  "fd_read E want rest = io_op E no_work (\<lambda>w. (Inr (take (min want (max 1 (read_len E (tick w)))) rest), w))"

definition read_exact :: "'b env_scheme \<Rightarrow> nat \<Rightarrow> bytes \<Rightarrow> (bytes \<times> bytes) sys" where
  "read_exact E n rest = io_op E no_work (\<lambda>w.
     (if length rest < n then Inl ''failed to fill whole buffer'' else Inr (take n rest, drop n rest), w))"

lemma fd_read_nonempty: "fd_read E n src w = (Inr c, t) \<Longrightarrow> c \<noteq> [] \<Longrightarrow> src \<noteq> []"
  by (auto simp: fd_read_def io_op_def Let_def split: option.splits)

text \<open>
  Bytes given to a socket. The bytes that arrive on a connection are an argument of the code that
  reads them; what it sends is recorded, up to the point of failure if the send fails.
\<close>

definition net_send :: "'b env_scheme \<Rightarrow> bytes \<Rightarrow> unit sys" where
  "net_send E b = io_op E (\<lambda>k. log_event (NetSend (take k b))) (\<lambda>w. (Inr (), log_event (NetSend b) w))"

definition sent_by :: "event \<Rightarrow> bytes" where
  "sent_by e = (case e of NetSend b \<Rightarrow> b | _ \<Rightarrow> [])"

definition net_sent :: "world \<Rightarrow> bytes" where
  "net_sent w = concat (map sent_by (events w))"

text \<open>The parent of a path, as a place in the tree; \<^verbatim>\<open>Path::with_extension\<close>.\<close>

definition path_parent :: "'b env_scheme \<Rightarrow> string \<Rightarrow> fspath option" where
  "path_parent E p =
     (let cs = components p
      in if cs = [] \<or> last cs = RootDir then None
         else Some (foldl resolve_step (e_cwd E) (butlast cs)))"

definition with_extension :: "string \<Rightarrow> string \<Rightarrow> string" where
  "with_extension p ext =
     (case file_name p of
        None \<Rightarrow> p
      | Some n \<Rightarrow>
          let base = rev (dropWhile (\<lambda>c. c = CHR ''/'') (rev p))
          in take (length base - length n) base @ file_stem n @ ''.'' @ ext)"

section \<open>Looking up after a change\<close>

lemma fget_tick [simp]: "fget (w\<lparr>tick := t\<rparr>) = fget w"
  by (simp add: fget_def fun_eq_iff)

lemma fget_log [simp]: "fget (log_event e w) = fget w"
  by (simp add: fget_def log_event_def fun_eq_iff)

lemma fget_set_node: "fget (set_node p n w) = (fget w)(p \<mapsto> n)"
  by (simp add: fget_def set_node_def update_conv' fun_eq_iff)

lemma map_of_filter_keys:
  "map_of (filter (\<lambda>(q, _). \<not> P q) al) p = (if P p then None else map_of al p)"
  by (induction al) auto

lemma fget_drop_nodes: "fget (drop_nodes P w) = (\<lambda>p. if P p then None else fget w p)"
  by (simp add: fget_def drop_nodes_def map_of_filter_keys fun_eq_iff)

lemma fget_mkdirs:
  "fget (mkdirs qs w) = (\<lambda>p. if p \<in> set qs \<and> fget w p = None then Some Dir else fget w p)"
  by (induction qs arbitrary: w) (auto simp: fget_set_node path_exists_def fun_eq_iff)

lemma set_prefixes_of: "p \<in> set (prefixes_of q) \<longleftrightarrow> p = take (length p) q"
proof
  assume "p \<in> set (prefixes_of q)"
  then show "p = take (length p) q"
    by (auto simp: prefixes_of_def)
next
  assume p: "p = take (length p) q"
  then have "length p \<le> length q"
    by (metis length_take min.cobounded1)
  then have "take (length p) q \<in> set (prefixes_of q)"
    by (auto simp: prefixes_of_def)
  with p show "p \<in> set (prefixes_of q)"
    by simp
qed

lemma under_refl [simp]: "under d d"
  by (simp add: under_def)

lemma under_append [simp]: "under d (d @ p)"
  by (simp add: under_def)

lemma under_iff: "under d p \<longleftrightarrow> (\<exists>r. p = d @ r)"
  by (metis append_eq_conv_conj append_take_drop_id under_def)

lemma under_simps [simp]:
  "under [] b" "\<not> under (x # a) []" "under (x # a) (y # b) \<longleftrightarrow> x = y \<and> under a b"
  by (auto simp: under_def)

lemma under_cancel [simp]: "under (d @ a) (d @ b) \<longleftrightarrow> under a b" "under (d @ a) d \<longleftrightarrow> a = []"
  by (auto simp: under_def)

lemma under_length: "under a b \<Longrightarrow> length a \<le> length b"
  by (auto simp: under_iff)

lemma under_antisym: "under a b \<Longrightarrow> under b a \<Longrightarrow> a = b"
  by (auto simp: under_iff)

lemma under_butlast [simp]: "under (butlast p) p"
  by (cases p rule: rev_cases) simp_all

lemma under_trans: "under a b \<Longrightarrow> under b c \<Longrightarrow> under a c"
  by (auto simp: under_iff)

lemma node_cases_file: "is_file w p \<longleftrightarrow> (\<exists>b. fget w p = Some (File b))"
  by (auto simp: is_file_def split: option.splits node.splits)

section \<open>Where a path leads\<close>

definition pieces :: "string \<Rightarrow> Component list" where
  "pieces p = concat (map piece_component (split_on (CHR ''/'') p))"

definition simple_name :: "string \<Rightarrow> bool" where
  "simple_name s = (s \<noteq> [] \<and> s \<noteq> ''.'' \<and> s \<noteq> ''..'' \<and> CHR ''/'' \<notin> set s)"

lemma resolve_pieces:
  "resolve E p = foldl resolve_step (if is_absolute p then [] else e_cwd E) (pieces p)"
  by (simp add: resolve_def components_def pieces_def Let_def)

lemma pieces_simple [simp]: "simple_name s \<Longrightarrow> pieces s = [Normal s]"
  by (simp add: pieces_def simple_name_def split_on_none piece_component_def)

lemma pieces_slash: "pieces (p @ ''/'' @ q) = pieces p @ pieces q"
  using split_on_append [of "CHR ''/''" p q] by (simp add: pieces_def)

lemma resolve_slash:
  assumes "p \<noteq> []"
  shows "resolve E (p @ ''/'' @ q) = foldl resolve_step (resolve E p) (pieces q)"
proof -
  have "is_absolute (p @ ''/'' @ q) = is_absolute p"
    using assms by (cases p) (simp_all add: is_absolute_def)
  then show ?thesis
    by (simp only: resolve_pieces pieces_slash foldl_append)
qed

lemma resolve_slash_simple:
  "p \<noteq> [] \<Longrightarrow> simple_name q \<Longrightarrow> resolve E (p @ ''/'' @ q) = resolve E p @ [q]"
  using resolve_slash [of p E q] by simp

lemma pieces_join: "\<not> is_absolute q \<Longrightarrow> pieces (path_join p q) = pieces p @ pieces q"
proof (cases "p = [] \<or> last p = CHR ''/''")
  case False
  assume "\<not> is_absolute q"
  with False show ?thesis
    using pieces_slash [of p q] by (simp add: path_join_def)
next
  case True
  assume rel: "\<not> is_absolute q"
  show ?thesis
  proof (cases "p = []")
    case True
    with rel show ?thesis by (simp add: path_join_def pieces_def piece_component_def)
  next
    case False
    with True obtain r where p: "p = r @ ''/''"
      by (metis append_butlast_last_id)
    have "pieces (r @ ''/'') = pieces r"
      using pieces_slash [of r "[]"] by (simp add: pieces_def piece_component_def)
    with rel p show ?thesis
      using pieces_slash [of r q] by (simp add: path_join_def)
  qed
qed

lemma is_absolute_join: "\<not> is_absolute q \<Longrightarrow> is_absolute (path_join p q) = is_absolute p"
  by (cases p) (auto simp: path_join_def is_absolute_def split: list.splits)

lemma resolve_join:
  "\<not> is_absolute q \<Longrightarrow> resolve E (path_join p q) = foldl resolve_step (resolve E p) (pieces q)"
  by (simp add: resolve_pieces pieces_join is_absolute_join)

lemma simple_name_relative: "simple_name q \<Longrightarrow> \<not> is_absolute q"
  by (cases q) (auto simp: is_absolute_def simple_name_def)

lemma resolve_join_simple [simp]: "simple_name q \<Longrightarrow> resolve E (path_join p q) = resolve E p @ [q]"
  by (simp add: resolve_join simple_name_relative)

lemma components_pieces:
  "components p = (if is_absolute p then [RootDir] else if hd (split_on (CHR ''/'') p) = ''.'' then [CurDir] else [])
     @ pieces p"
  by (simp add: components_def pieces_def Let_def)

lemma foldl_resolve_Normal [simp]: "foldl resolve_step d (map Normal ns) = d @ ns"
  by (induction ns arbitrary: d) simp_all

lemma path_parent_pieces:
  assumes "pieces p = cs @ [c]"
  shows "path_parent E p = Some (foldl resolve_step (if is_absolute p then [] else e_cwd E) cs)"
proof -
  have "c \<noteq> RootDir"
  proof
    assume "c = RootDir"
    with assms have "RootDir \<in> set (pieces p)" by simp
    then show False by (auto simp: pieces_def piece_component_def split: if_splits)
  qed
  with assms show ?thesis
    by (simp add: path_parent_def components_pieces butlast_append)
qed

section \<open>Reasoning about the file operations\<close>

lemma wp_io_op:
  "wp (io_op E g f) Q R w =
     (case faulty E (tick w) of
        Some k \<Rightarrow> R ''Input/output error'' (g k (w\<lparr>tick := Suc (tick w)\<rparr>))
      | None \<Rightarrow> wp f Q R (w\<lparr>tick := Suc (tick w)\<rparr>))"
  by (simp add: wp_def io_op_def Let_def split: option.splits)

lemma fs_read_wp:
  "wp (fs_read E p) (\<lambda>b t. fget w p = Some (File b) \<and> fget t = fget w) (\<lambda>_ t. fget t = fget w) w"
  by (simp add: fs_read_def io_op_def Let_def no_work_def wp_def split: option.splits node.splits)

lemma fs_read_to_string_wp:
  "wp (fs_read_to_string E p)
     (\<lambda>s t. fget w p = Some (File (as_bytes s)) \<and> utf8_valid (as_bytes s) \<and> fget t = fget w)
     (\<lambda>_ t. fget t = fget w) w"
  unfolding fs_read_to_string_def wp_bind
  by (rule wp_mono [OF fs_read_wp]) (auto simp: from_utf8_def)

lemma fs_write_wp:
  "wp (fs_write E p b) (\<lambda>_ t. fget t = (fget w)(p \<mapsto> File b)) (\<lambda>_ t. \<forall>q. q \<noteq> p \<longrightarrow> fget t q = fget w q) w"
  by (simp add: fs_write_def io_op_def Let_def partial_file_def fget_set_node wp_def split: option.splits)

lemma fs_remove_dir_all_wp:
  "wp (fs_remove_dir_all E p) (\<lambda>_ t. fget t = (\<lambda>q. if under p q then None else fget w q))
     (\<lambda>_ t. \<forall>q. \<not> under p q \<longrightarrow> fget t q = fget w q) w"
  by (simp add: fs_remove_dir_all_def io_op_def Let_def fget_drop_nodes wp_def cong: if_cong split: option.splits)

lemma fs_rmdir_wp:
  "wp (fs_remove_dir_all E p)
     (\<lambda>_ t. \<forall>q. fget t q = fget w q \<or> under p q \<and> fget t q = None)
     (\<lambda>_ t. \<forall>q. fget t q = fget w q \<or> under p q \<and> fget t q = None) w"
  by (simp add: fs_remove_dir_all_def io_op_def Let_def fget_drop_nodes wp_def split: option.splits)

lemma fs_create_dir_all_wp:
  "wp (fs_create_dir_all E p)
     (\<lambda>_ t. fget t = (\<lambda>q. if under q p \<and> fget w q = None then Some Dir else fget w q)
        \<and> (\<forall>q. under q p \<longrightarrow> \<not> is_file w q))
     (\<lambda>_ t. \<forall>q. fget w q \<noteq> None \<or> \<not> under q p \<longrightarrow> fget t q = fget w q) w"
proof -
  have eq: "q \<in> set (prefixes_of p) \<longleftrightarrow> under q p" for q
    by (auto simp: set_prefixes_of under_def)
  then have "q \<in> set (take k (prefixes_of p)) \<Longrightarrow> under q p" for q k
    by (auto dest: in_set_takeD)
  then show ?thesis
    by (auto simp: fs_create_dir_all_def io_op_def Let_def fget_mkdirs eq wp_def list_ex_iff is_file_def
        split: option.splits)
qed

lemma fs_append_none_wp:
  "fget w p = Some (File old) \<Longrightarrow>
     wp (fs_append E p b) (\<lambda>_ t. fget t = (fget w)(p \<mapsto> File (old @ b)))
       (\<lambda>_ t. (\<exists>k. faulty E k \<noteq> None) \<and> (\<forall>q. q \<noteq> p \<longrightarrow> fget t q = fget w q)) w"
  by (auto simp: fs_append_def io_op_def Let_def append_node_def is_file_def fget_set_node wp_def
      split: option.splits)

text \<open>Without faults the operations succeed where the file tree allows them.\<close>

definition no_faults :: "'b env_scheme \<Rightarrow> bool" where
  "no_faults E \<longleftrightarrow> (\<forall>t. faulty E t = None)"

definition only_tick :: "world \<Rightarrow> world \<Rightarrow> bool" where
  "only_tick w t \<longleftrightarrow> t = w\<lparr>tick := tick t\<rparr>"

lemma fs_append_wp:
  "fget w p = Some (File old) \<Longrightarrow>
     wp (fs_append E p b) (\<lambda>_ t. fget t = (fget w)(p \<mapsto> File (old @ b)))
       (\<lambda>_ t. \<not> no_faults E \<and> (\<forall>q. q \<noteq> p \<longrightarrow> fget t q = fget w q)) w"
  using fs_append_none_wp [of w p old E b] by (rule wp_mono) (auto simp: no_faults_def)

lemma fs_create_wp:
  "wp (fs_write E p b) (\<lambda>_ t. fget t = (fget w)(p \<mapsto> File b) \<and> can_create w p)
     (\<lambda>_ t. (no_faults E \<longrightarrow> \<not> can_create w p) \<and> (\<forall>q. q \<noteq> p \<longrightarrow> fget t q = fget w q)) w"
  by (auto simp: fs_write_def io_op_def Let_def no_faults_def partial_file_def fget_set_node wp_def
      can_create_def is_dir_def split: option.splits)

lemma fs_mkdir_wp:
  "wp (fs_create_dir_all E p)
     (\<lambda>_ t. fget t = (\<lambda>q. if under q p \<and> fget w q = None then Some Dir else fget w q)
        \<and> (\<forall>q. under q p \<longrightarrow> \<not> is_file w q))
     (\<lambda>_ t. (no_faults E \<longrightarrow> (\<exists>q. under q p \<and> is_file w q))
        \<and> (\<forall>q. fget w q \<noteq> None \<or> \<not> under q p \<longrightarrow> fget t q = fget w q)) w"
proof -
  have "wp (fs_create_dir_all E p) (\<lambda>_ _. True) (\<lambda>_ _. no_faults E \<longrightarrow> (\<exists>q. under q p \<and> is_file w q)) w"
    by (auto simp: fs_create_dir_all_def io_op_def Let_def no_faults_def wp_def list_ex_iff is_file_def
        set_prefixes_of under_def split: option.splits)
  from wp_conj [OF fs_create_dir_all_wp this] show ?thesis
    by (rule wp_mono) auto
qed

lemma fs_remove_file_wp:
  "wp (fs_remove_file E p) (\<lambda>_ t. fget t = (fget w)(p := None))
     (\<lambda>_ t. fget t = fget w \<and> (no_faults E \<longrightarrow> \<not> is_file w p)) w"
  by (auto simp: fs_remove_file_def io_op_def Let_def no_faults_def no_work_def wp_def is_file_def
      fget_drop_nodes fun_eq_iff split: option.splits)

lemma fs_read_wp':
  "wp (fs_read E p) (\<lambda>b t. fget w p = Some (File b) \<and> only_tick w t)
     (\<lambda>_ t. (no_faults E \<longrightarrow> \<not> is_file w p) \<and> only_tick w t) w"
  by (auto simp: fs_read_def io_op_def Let_def no_faults_def no_work_def wp_def is_file_def only_tick_def
      split: option.splits node.splits)

lemma fs_read_live:
  "no_faults E \<Longrightarrow> fget w p = Some (File b) \<Longrightarrow>
     wp (fs_read E p) (\<lambda>b' t. b' = b \<and> fget t = fget w) (\<lambda>_ _. False) w"
  by (simp add: fs_read_def io_op_def Let_def no_faults_def wp_def)

lemma fs_read_to_string_live:
  assumes "no_faults E" and "fget w p = Some (File (as_bytes s))" and "utf8_valid (as_bytes s)"
  shows "wp (fs_read_to_string E p) (\<lambda>s' t. s' = s \<and> fget t = fget w) (\<lambda>_ _. False) w"
  unfolding fs_read_to_string_def wp_bind
  by (rule wp_mono [OF fs_read_live [OF assms(1,2)]]) (auto simp: from_utf8_def assms(3))

lemma fs_write_live:
  "no_faults E \<Longrightarrow> can_create w p \<Longrightarrow>
     wp (fs_write E p b) (\<lambda>_ t. fget t = (fget w)(p \<mapsto> File b)) (\<lambda>_ _. False) w"
  by (simp add: fs_write_def io_op_def Let_def no_faults_def wp_def fget_set_node can_create_def is_dir_def)

lemma fs_read_dir_live:
  "no_faults E \<Longrightarrow> is_dir w p \<Longrightarrow>
     wp (fs_read_dir E p) (\<lambda>ns t. ns = dir_names w p \<and> fget t = fget w) (\<lambda>_ _. False) w"
  by (simp add: fs_read_dir_def io_op_def Let_def no_faults_def wp_def is_dir_def dir_names_def)

text \<open>The file operations change nothing but the file tree and the tick.\<close>

definition fs_blind :: "(world \<Rightarrow> bool) \<Rightarrow> bool" where
  "fs_blind P \<longleftrightarrow> (\<forall>w f t. P w \<longrightarrow> P (w\<lparr>tick := t, fs := f\<rparr>))"

lemma fs_blindD: "fs_blind P \<Longrightarrow> P w \<Longrightarrow> P (w\<lparr>tick := t, fs := f\<rparr>)"
  by (simp add: fs_blind_def)

lemma fs_blind_events [simp]: "fs_blind (\<lambda>w. Q (events w) (procs w) (cgs w))"
  by (simp add: fs_blind_def)

lemma fs_eq_mkdirs: "\<exists>f. mkdirs qs w = w\<lparr>fs := f\<rparr>"
proof (induction qs arbitrary: w)
  case Nil
  show ?case by (rule exI [of _ "fs w"]) simp
next
  case (Cons q qs)
  obtain f where "mkdirs qs (if path_exists w q then w else set_node q Dir w)
      = (if path_exists w q then w else set_node q Dir w)\<lparr>fs := f\<rparr>"
    using Cons by blast
  then show ?case by (auto simp: set_node_def)
qed

definition fs_step :: "world \<Rightarrow> world \<Rightarrow> bool" where
  "fs_step w w' \<longleftrightarrow> (\<exists>f. w' = w\<lparr>fs := f\<rparr>)"

lemma fs_step_refl [simp]: "fs_step w w"
  unfolding fs_step_def by (rule exI [of _ "fs w"]) simp

lemma fs_step_trans: "fs_step u v \<Longrightarrow> fs_step v w \<Longrightarrow> fs_step u w"
  by (auto simp: fs_step_def)

lemma fs_step_nodes [simp]: "fs_step w (set_node p n w)" "fs_step w (drop_nodes P w)"
  by (auto simp: fs_step_def set_node_def drop_nodes_def)

lemma fs_step_derived [simp]:
  "fs_step w (no_work k w)" "fs_step w (append_node p b w)" "fs_step w (partial_file p b k w)"
  "fs_step w (mkdirs qs w)" "fs_step w (set_node p n (drop_nodes P w))"
  using fs_step_trans [OF fs_step_nodes(2) fs_step_nodes(1)] fs_eq_mkdirs [of qs w]
  by (simp_all add: no_work_def append_node_def partial_file_def fs_step_def [of w "mkdirs qs w"]
      split: option.splits node.splits)

lemma keeps_io_op:
  assumes "fs_blind P" and "\<And>k w. fs_step w (g k w)" and "\<And>w. fs_step w (snd (f w))"
  shows "keeps P (io_op E g f)"
proof (rule keepsI)
  fix w
  assume P: "P w"
  let ?w = "w\<lparr>tick := Suc (tick w)\<rparr>"
  have "fs_step ?w (snd (io_op E g f w))"
    using assms(2,3) by (simp add: io_op_def Let_def split: option.splits)
  then obtain f' where "snd (io_op E g f w) = w\<lparr>tick := Suc (tick w), fs := f'\<rparr>"
    by (auto simp: fs_step_def)
  with fs_blindD [OF assms(1) P] show "P (snd (io_op E g f w))"
    by auto
qed

lemmas fs_op_defs = fs_read_def fs_write_def fs_append_def fs_create_dir_all_def
  fs_remove_dir_all_def fs_remove_file_def fs_rename_def fs_copy_def fs_read_dir_def

lemma keeps_fs_blind [mc_blind]:
  assumes "fs_blind P"
  shows "keeps P (fs_read E p)" "keeps P (fs_write E p b)" "keeps P (fs_append E p b)"
    "keeps P (fs_create_dir_all E p)" "keeps P (fs_remove_dir_all E p)"
    "keeps P (fs_remove_file E p)" "keeps P (fs_rename E p q)" "keeps P (fs_copy E p q)"
    "keeps P (fs_read_dir E p)"
  unfolding fs_op_defs
  by (rule keeps_io_op, rule assms, simp_all split: option.splits node.splits)+

lemma keeps_fs_blind_string [mc_blind]: "fs_blind P \<Longrightarrow> keeps P (fs_read_to_string E p)"
  unfolding fs_read_to_string_def by (intro mc_keeps mc_blind)

text \<open>A request to the kernel is recorded whether it is granted or not.\<close>

lemma wp_kernel:
  "wp (kernel e f) Q R w =
     (case f (kpart w) of (Inl x, k) \<Rightarrow> R x (log_event e (put_kpart k w)) | (Inr a, k) \<Rightarrow> Q a (log_event e (put_kpart k w)))"
  by (simp add: wp_def kernel_def split: prod.splits sum.splits)

lemma events_log [simp]: "events (log_event e w) = events w @ [e]"
  by (simp add: log_event_def)

lemma events_put_kpart [simp]: "events (put_kpart k w) = events w" "tick (put_kpart k w) = tick w"
  by (simp_all add: put_kpart_def)

lemma log_event_sel [simp]:
  "tick (log_event e w) = tick w" "procs (log_event e w) = procs w" "cgs (log_event e w) = cgs w"
  by (simp_all add: log_event_def)

lemma put_kpart_sel [simp]: "procs (put_kpart k w) = procs k" "cgs (put_kpart k w) = cgs k"
  by (simp_all add: put_kpart_def)

lemma kpart_sel [simp]: "procs (kpart w) = procs w" "cgs (kpart w) = cgs w"
  by (simp_all add: kpart_def)

lemma fget_put_kpart [simp]: "fget (put_kpart k w) = fget k" "fget (kpart w) = fget w"
  by (simp_all add: fun_eq_iff fget_def put_kpart_def kpart_def)

lemma kernel_events:
  "wp (kernel e f) (\<lambda>_ t. events t = events w @ [e]) (\<lambda>_ t. events t = events w @ [e]) w"
  by (simp add: wp_kernel split: prod.splits sum.splits)

lemmas exec_cmd_events = kernel_events [of "Exec bin args" "k_exec E bin args" for E bin args, folded exec_cmd_def]
lemmas cg_mkdir_events = kernel_events [of "CgMkdir p" "k_cg_mkdir E p" for E p, folded cg_mkdir_def]
lemmas cg_rmdir_events = kernel_events [of "CgRmdir p" "k_cg_rmdir E p" for E p, folded cg_rmdir_def]
lemmas cg_write_events = kernel_events [of "CgWrite p v" "k_cg_write E p v" for E p v, folded cg_write_def]

text \<open>
  Files outside the reach of an operation: \<open>same_files S g w\<close> says that the paths in \<open>S\<close> hold
  what \<open>g\<close> says.
\<close>

definition same_files :: "(fspath \<Rightarrow> bool) \<Rightarrow> (fspath \<Rightarrow> node option) \<Rightarrow> world \<Rightarrow> bool" where
  "same_files S g w \<longleftrightarrow> (\<forall>p. S p \<longrightarrow> fget w p = g p)"

lemma same_files_refl [simp]: "same_files S (fget w) w"
  by (simp add: same_files_def)

lemma same_files_tick [simp]: "same_files S g (w\<lparr>tick := t\<rparr>) = same_files S g w"
  by (simp add: same_files_def)

lemma keeps_same_files_io_op:
  assumes "\<And>k w. same_files S h w \<Longrightarrow> same_files S h (g k w)"
    and "\<And>w. same_files S h w \<Longrightarrow> same_files S h (snd (f w))"
  shows "keeps (same_files S h) (io_op E g f)"
  using assms by (intro keepsI) (simp add: io_op_def Let_def split: option.splits)

lemma same_files_nodes:
  "\<And>p n. \<not> S p \<Longrightarrow> same_files S g (set_node p n w) = same_files S g w"
  "\<And>P. (\<And>q. S q \<Longrightarrow> \<not> P q) \<Longrightarrow> same_files S g (drop_nodes P w) = same_files S g w"
  unfolding same_files_def fget_set_node fget_drop_nodes by (metis fun_upd_other) auto

lemma same_files_drop_one: "\<not> S p \<Longrightarrow> same_files S g (drop_nodes (\<lambda>q. q = p) w) = same_files S g w"
  by (rule same_files_nodes) auto

lemma same_files_derived:
  "\<not> S p \<Longrightarrow> same_files S g (append_node p b w) = same_files S g w"
  "\<not> S p \<Longrightarrow> same_files S g (partial_file p b k w) = same_files S g w"
  by (simp_all add: append_node_def partial_file_def same_files_nodes split: option.splits node.splits)

lemma same_files_mkdirs:
  "(\<And>q. S q \<Longrightarrow> q \<in> set qs \<Longrightarrow> g q \<noteq> None) \<Longrightarrow> same_files S g w \<Longrightarrow> same_files S g (mkdirs qs w)"
  by (fastforce simp: same_files_def fget_mkdirs)

lemma keeps_same_files_read [mc_same]:
  "keeps (same_files S g) (fs_read E p)" "keeps (same_files S g) (fs_read_dir E p)"
  "keeps (same_files S g) (fs_read_to_string E p)"
  unfolding fs_read_def fs_read_dir_def fs_read_to_string_def
  by (intro mc_keeps keeps_same_files_io_op; simp add: no_work_def)+

lemma keeps_same_files_write [mc_same]:
  assumes "\<not> S p"
  shows "keeps (same_files S g) (fs_write E p b)" "keeps (same_files S g) (fs_append E p b)"
    "keeps (same_files S g) (fs_remove_file E p)" "keeps (same_files S g) (fs_copy E q p)"
  unfolding fs_write_def fs_append_def fs_remove_file_def fs_copy_def
  by (rule keeps_same_files_io_op, use assms in
      \<open>auto simp: no_work_def same_files_nodes(1) same_files_drop_one same_files_derived split: option.splits node.splits\<close>)+

lemma keeps_same_files_rename [mc_same]:
  assumes "\<not> S p" and "\<not> S q"
  shows "keeps (same_files S g) (fs_rename E p q)"
  unfolding fs_rename_def
  by (rule keeps_same_files_io_op, use assms in
      \<open>auto simp: no_work_def same_files_nodes(1) same_files_drop_one split: option.splits node.splits\<close>)

lemma keeps_same_files_mkdir [mc_same]:
  assumes "\<And>q. S q \<Longrightarrow> under q p \<Longrightarrow> g q \<noteq> None"
  shows "keeps (same_files S g) (fs_create_dir_all E p)"
proof -
  have "g q \<noteq> None" if "S q" "q \<in> set (prefixes_of p)" for q
    using assms that by (metis set_prefixes_of under_def)
  then show ?thesis
    unfolding fs_create_dir_all_def
    by (intro keeps_same_files_io_op) (auto dest: in_set_takeD intro!: same_files_mkdirs)
qed

lemma keeps_same_files_rmdir [mc_same]:
  assumes "\<And>q. S q \<Longrightarrow> \<not> under p q"
  shows "keeps (same_files S g) (fs_remove_dir_all E p)"
  unfolding fs_remove_dir_all_def
  by (rule keeps_same_files_io_op, use assms in \<open>auto simp: same_files_nodes\<close>)

section \<open>Reading implements a pure function\<close>

text \<open>
  A computation that only reads: whatever faults strike, its effect is the passing of time, its
  answer if it has one is the answer of the pure function, and without faults it has the same
  outcome, the error included.
\<close>

definition implements :: "'b env_scheme \<Rightarrow> (world, 'e, 'a) eio \<Rightarrow> 'e + 'a \<Rightarrow> bool" where
  "implements E m r \<longleftrightarrow>
     (\<forall>w. wp m (\<lambda>a t. r = Inr a \<and> only_tick w t) (\<lambda>e t. (no_faults E \<longrightarrow> r = Inl e) \<and> only_tick w t) w)"

named_theorems mc_impl \<open>rules for computations that implement a pure function\<close>

lemma only_tick_refl [simp]: "only_tick w w"
  by (simp add: only_tick_def)

lemma only_tick_upd [simp]: "only_tick w (w\<lparr>tick := t\<rparr>)"
  by (simp add: only_tick_def)

lemma only_tick_trans: "only_tick u v \<Longrightarrow> only_tick v w \<Longrightarrow> only_tick u w"
  by (metis (no_types, lifting) only_tick_def world.surjective world.update_convs(1))

lemma only_tick_fget: "only_tick w t \<Longrightarrow> fget t = fget w"
  by (metis fget_tick only_tick_def)

lemma only_tick_same:
  assumes "only_tick w t"
  shows "fs t = fs w" "procs t = procs w" "cgs t = cgs w" "events t = events w"
proof -
  have t: "t = w\<lparr>tick := tick t\<rparr>"
    using assms by (simp only: only_tick_def)
  show "fs t = fs w" "procs t = procs w" "cgs t = cgs w" "events t = events w"
    by (subst t, simp)+
qed

lemma implements_wp:
  "implements E m r \<Longrightarrow>
     wp m (\<lambda>a t. r = Inr a \<and> only_tick w t) (\<lambda>e t. (no_faults E \<longrightarrow> r = Inl e) \<and> only_tick w t) w"
  by (simp add: implements_def)

lemma implements_return [mc_impl]: "implements E (return_m a) (Inr a)"
  by (simp add: implements_def)

lemma implements_throw [mc_impl]: "implements E (throw_m e) (Inl e)"
  by (simp add: implements_def)

lemma implements_lift [mc_impl]: "implements E (lift_m r) r"
  by (simp add: implements_def split: sum.splits)

lemma implements_bind:
  assumes "implements E m r" and "\<And>a. r = Inr a \<Longrightarrow> implements E (f a) (g a)"
  shows "implements E (bind_m m f) (case r of Inl e \<Rightarrow> Inl e | Inr a \<Rightarrow> g a)"
  unfolding implements_def wp_bind
proof (intro allI wp_mono [OF implements_wp [OF assms(1)]])
  fix w a t
  assume a: "r = Inr a \<and> only_tick w t"
  then show "wp (f a) (\<lambda>a t. (case r of Inl e \<Rightarrow> Inl e | Inr a \<Rightarrow> g a) = Inr a \<and> only_tick w t)
      (\<lambda>e t. (no_faults E \<longrightarrow> (case r of Inl e \<Rightarrow> Inl e | Inr a \<Rightarrow> g a) = Inl e) \<and> only_tick w t) t"
    using implements_wp [OF assms(2), of a t]
    by (auto elim!: wp_mono intro: only_tick_trans)
qed auto

lemma implements_map_err [mc_impl]:
  "implements E m r \<Longrightarrow> implements E (map_err_m g m) (case r of Inl e \<Rightarrow> Inl (g e) | Inr a \<Rightarrow> Inr a)"
  unfolding implements_def wp_map_err
  by (rule allI, drule spec, erule wp_mono) auto

lemma implements_io_op: "(\<And>w. f w = (r, w)) \<Longrightarrow> implements E (io_op E no_work f) r"
  by (auto simp: implements_def io_op_def wp_def Let_def no_work_def no_faults_def
      split: option.splits sum.splits)

lemma implements_touch [mc_impl]: "implements E (io_touch E) (Inr ())"
  unfolding io_touch_def by (rule implements_io_op) simp

lemma implements_read_exact [mc_impl]:
  "implements E (read_exact E n rest)
     (if length rest < n then Inl ''failed to fill whole buffer'' else Inr (take n rest, drop n rest))"
  unfolding read_exact_def by (rule implements_io_op) simp

lemma fd_read_wp:
  "wp (fd_read E want rest)
     (\<lambda>c t. (\<exists>n. c = take n rest \<and> n \<le> want \<and> (0 < want \<longrightarrow> 0 < n)) \<and> only_tick w t)
     (\<lambda>_ t. \<not> no_faults E \<and> only_tick w t) w"
  by (auto simp: fd_read_def io_op_def wp_def Let_def no_work_def no_faults_def split: option.splits)

end
