(* ===== verification/MC_Config.thy ===== *)
theory MC_Config
  imports Host
begin

text \<open>
  \<^verbatim>\<open>src/config.rs\<close>: the specification of one container. The identifier drawn by the
  \<^verbatim>\<open>uuid\<close> crate is a parameter of the constructor.
\<close>

record Volume =
  host_path :: string
  container_path :: string

record Resources =
  memory_max :: u64
  cpu_quota :: u64
  cpu_period :: u64
  pids_max :: u64

definition Resources_default :: Resources where
  "Resources_default =
     \<lparr>memory_max = 128 * 1024 * 1024, cpu_quota = 0, cpu_period = 100000, pids_max = 128\<rparr>"

record ContainerConfig =
  cc_id :: string
  cc_hostname :: string
  rootfs :: string
  command :: "string list"
  cc_env :: "string list"
  volumes :: "Volume list"
  resources :: Resources
  network :: bool
  seccomp :: bool
  drop_caps :: bool

definition ContainerConfig_new :: "string \<Rightarrow> string \<Rightarrow> string list \<Rightarrow> ContainerConfig" where
  "ContainerConfig_new uuid root cmd =
     \<lparr>cc_id = uuid,
      cc_hostname = ''mc-'' @ take 12 uuid,
      rootfs = root,
      command = cmd,
      cc_env = [''PATH=/usr/local/sbin:/usr/local/bin:/usr/sbin:/usr/bin:/sbin:/bin'',
                ''HOME=/root'', ''TERM=xterm''],
      volumes = [],
      resources = Resources_default,
      network = False,
      seccomp = True,
      drop_caps = True\<rparr>"

text \<open>The mount point of the log directory inside a container (\<^verbatim>\<open>src/container.rs\<close>).\<close>

definition IO_MOUNT :: string where "IO_MOUNT = ''.mcio''"

definition short_id :: "ContainerConfig \<Rightarrow> string" where
  "short_id cfg =
     (let n = min (length (cc_id cfg)) 12
      in case str_get_to (cc_id cfg) n of Some s \<Rightarrow> s | None \<Rightarrow> cc_id cfg)"

definition ascii :: "string \<Rightarrow> bool" where
  "ascii s = list_all (\<lambda>c. (of_char c :: nat) < 128) s"

lemma ascii_boundary: "ascii s \<Longrightarrow> n \<le> length s \<Longrightarrow> is_char_boundary s n"
proof (cases "n < length s")
  case True
  assume "ascii s"
  with True have "(of_char (s ! n) :: nat) < 128"
    by (simp add: ascii_def list_all_length)
  with True show ?thesis
    by (simp add: is_char_boundary_def utf8_cont_def word_le_nat_alt unat_of_nat)
next
  case False
  assume "n \<le> length s"
  with False show ?thesis by (simp add: is_char_boundary_def)
qed

lemma short_id_ascii: "ascii (cc_id cfg) \<Longrightarrow> short_id cfg = take 12 (cc_id cfg)"
  by (simp add: short_id_def str_get_to_def ascii_boundary min_def)

end
