(* ===== verification/Civil_Date.thy ===== *)
theory Civil_Date
  imports Rust_Std
begin

text \<open>
  The calendar arithmetic of \<^verbatim>\<open>now_iso\<close> in \<^verbatim>\<open>src/state.rs\<close>, against the Gregorian calendar
  defined independently: leap years, month lengths and the number of days before a year and a
  month. The clock reading is an argument; Rust's \<^verbatim>\<open>i64\<close> arithmetic stays far below its bounds
  for every \<^verbatim>\<open>u64\<close> second count divided by 86400.
\<close>

section \<open>The conversion of the source\<close>

record civil =
  c_year :: int
  c_month :: int
  c_day :: int

definition civil_from_days :: "int \<Rightarrow> civil" where
  "civil_from_days days =
     (let z = days + 719468;
          era = z div 146097;
          doe = z mod 146097;
          yoe = (doe - doe div 1460 + doe div 36524 - doe div 146096) div 365;
          y = yoe + era * 400;
          doy = doe - (365 * yoe + yoe div 4 - yoe div 100);
          mp = (5 * doy + 2) div 153;
          d = doy - (153 * mp + 2) div 5 + 1;
          m = (if mp < 10 then mp + 3 else mp - 9);
          y = (if m \<le> 2 then y + 1 else y)
      in \<lparr>c_year = y, c_month = m, c_day = d\<rparr>)"

definition now_iso :: "nat \<Rightarrow> string" where
  "now_iso secs =
     (let days = int (secs div 86400);
          rem = secs mod 86400;
          c = civil_from_days days
      in pad_zero 4 (show_nat (nat (c_year c))) @ ''-'' @ pad_zero 2 (show_nat (nat (c_month c))) @ ''-''
         @ pad_zero 2 (show_nat (nat (c_day c))) @ ''T'' @ pad_zero 2 (show_nat (rem div 3600)) @ '':''
         @ pad_zero 2 (show_nat ((rem mod 3600) div 60)) @ '':'' @ pad_zero 2 (show_nat (rem mod 60)) @ ''Z'')"

section \<open>The calendar\<close>

definition leap :: "int \<Rightarrow> bool" where
  "leap y = (y mod 4 = 0 \<and> (y mod 100 \<noteq> 0 \<or> y mod 400 = 0))"

definition month_len :: "int \<Rightarrow> int \<Rightarrow> int" where
  "month_len y m =
     (if m = 2 then (if leap y then 29 else 28)
      else if m \<in> {4, 6, 9, 11} then 30 else 31)"

text \<open>Days from 1 January 1970 to 1 January of a year.\<close>
definition year_start :: "int \<Rightarrow> int" where
  "year_start y = 365 * (y - 1970) + ((y - 1) div 4 - (y - 1) div 100 + (y - 1) div 400) - 477"

definition days_before_month :: "int \<Rightarrow> int \<Rightarrow> int" where
  "days_before_month y m = sum_list (map (month_len y) (filter (\<lambda>k. k < m) [1, 2, 3, 4, 5, 6, 7, 8, 9, 10, 11, 12]))"

definition days_from_civil :: "civil \<Rightarrow> int" where
  "days_from_civil c =
     year_start (c_year c) + days_before_month (c_year c) (c_month c) + (c_day c - 1)"

definition valid_civil :: "civil \<Rightarrow> bool" where
  "valid_civil c \<longleftrightarrow> 1 \<le> c_month c \<and> c_month c \<le> 12 \<and> 1 \<le> c_day c
     \<and> c_day c \<le> month_len (c_year c) (c_month c)"

definition iso_field :: "nat \<Rightarrow> nat \<Rightarrow> string \<Rightarrow> nat option" where
  "iso_field i n s = parse_digits 10 0 (take n (drop i s))"

definition iso_to_secs :: "string \<Rightarrow> int option" where
  "iso_to_secs s =
     (case (iso_field 0 4 s, iso_field 5 2 s, iso_field 8 2 s,
            iso_field 11 2 s, iso_field 14 2 s, iso_field 17 2 s) of
        (Some y, Some mo, Some d, Some h, Some mi, Some sec) \<Rightarrow>
          Some (86400 * days_from_civil \<lparr>c_year = int y, c_month = int mo, c_day = int d\<rparr>
                + 3600 * int h + 60 * int mi + int sec)
      | _ \<Rightarrow> None)"

section \<open>Correctness of the conversion\<close>

lemma div_pred: "0 < k \<Longrightarrow> y div k = (y - 1) div k + (if y mod k = 0 then 1 else 0)" for k y :: int
proof -
  assume k: "0 < k"
  obtain q r where y: "y = k * q + r" and r: "0 \<le> r" "r < k"
    using k by (metis mult_div_mod_eq pos_mod_bound pos_mod_sign)
  then have q: "y div k = q" and m: "y mod k = r"
    by (auto intro: int_div_pos_eq int_mod_pos_eq)
  show ?thesis
  proof (cases "r = 0")
    case True
    then have "y - 1 = k * (q - 1) + (k - 1)"
      by (simp add: y right_diff_distrib)
    then have "(y - 1) div k = q - 1"
      by (rule int_div_pos_eq) (use k in simp_all)
    with True show ?thesis by (simp add: q m)
  next
    case False
    have "y - 1 = k * q + (r - 1)"
      by (simp add: y)
    then have "(y - 1) div k = q"
      by (rule int_div_pos_eq) (use False r in simp_all)
    with False show ?thesis by (simp add: q m)
  qed
qed

lemma leap_count:
  "(if leap y then 1 else 0) =
     (if y mod 4 = 0 then 1 else 0) - (if y mod 100 = 0 then 1 else 0) + (if y mod 400 = 0 then 1 else (0::int))"
proof -
  have bools: "(if A \<and> (\<not> B \<or> C) then 1 else 0) =
      (if A then 1 else 0) - (if B then 1 else 0) + (if C then 1 else (0::int))"
    if "C \<longrightarrow> B" "B \<longrightarrow> A" for A B C
    using that by (cases A; cases B; cases C) simp_all
  have "400 dvd y \<Longrightarrow> 100 dvd y" "100 dvd y \<Longrightarrow> 4 dvd y"
    by (rule dvd_trans [of _ 400], simp_all) (rule dvd_trans [of _ 100], simp_all)
  then have "y mod 400 = 0 \<longrightarrow> y mod 100 = 0" "y mod 100 = 0 \<longrightarrow> y mod 4 = 0"
    unfolding mod_eq_0_iff_dvd by blast+
  then show ?thesis
    unfolding leap_def by (rule bools)
qed

lemma year_start_Suc: "year_start (y + 1) = year_start y + 365 + (if leap y then 1 else 0)"
proof -
  have lin: "365 * (y + 1 - 1970) + (a' - b' + c') - 477 =
      (365 * (y - 1970) + (a - b + c) - 477) + 365 + (i - j + k)"
    if "a' = a + i" "b' = b + j" "c' = c + k" for a b c i j k a' b' c' :: int
    by (simp add: that algebra_simps)
  show ?thesis
    unfolding year_start_def leap_count add_diff_cancel_right'
    by (rule lin [OF div_pred div_pred div_pred]) simp_all
qed

lemma doe_decompose:
  fixes doe :: int
  assumes "0 \<le> doe" and "doe < 146097"
  obtains c q r s where "doe = 36524 * c + 1461 * q + 365 * r + s"
    and "0 \<le> c" "c \<le> 3" "0 \<le> q" "q \<le> 24" "0 \<le> r" "r \<le> 3" "0 \<le> s" "s \<le> 365"
    and "s = 365 \<Longrightarrow> r = 3 \<and> (q = 24 \<longrightarrow> c = 3)"
proof -
  define c where "c = min (doe div 36524) 3"
  define m where "m = doe - 36524 * c"
  have c: "0 \<le> c" "c \<le> 3"
    using assms by (auto simp: c_def)
  have m: "0 \<le> m" "m \<le> 36524" "m = 36524 \<Longrightarrow> c = 3"
    using assms by (auto simp: m_def c_def min_def)
  define q where "q = m div 1461"
  define n where "n = m - 1461 * q"
  have q: "0 \<le> q" "q \<le> 24" and n: "0 \<le> n" "n \<le> 1460"
    using m by (auto simp: q_def n_def)
  define r where "r = min (n div 365) 3"
  define s where "s = n - 365 * r"
  have r: "0 \<le> r" "r \<le> 3" and s: "0 \<le> s" "s \<le> 365"
    using n by (auto simp: r_def s_def min_def)
  have "r = 3 \<and> (q = 24 \<longrightarrow> c = 3)" if "s = 365"
  proof -
    have "r = 3"
      using that n by (auto simp: r_def s_def min_def split: if_splits)
    with that have "n = 1460" by (simp add: s_def)
    then have "q = 24 \<Longrightarrow> m = 36524" by (simp add: n_def)
    with m \<open>r = 3\<close> show ?thesis by blast
  qed
  moreover have "doe = 36524 * c + 1461 * q + 365 * r + s"
    by (simp add: m_def n_def s_def)
  ultimately show ?thesis
    using that c q r s by blast
qed

lemma yoe_formula:
  fixes c q r s :: int
  assumes doe: "doe = 36524 * c + 1461 * q + 365 * r + s"
    and c: "0 \<le> c" "c \<le> 3" and q: "0 \<le> q" "q \<le> 24" and r: "0 \<le> r" "r \<le> 3"
    and s: "0 \<le> s" "s \<le> 365" and last: "s = 365 \<Longrightarrow> r = 3 \<and> (q = 24 \<longrightarrow> c = 3)"
  shows "(doe - doe div 1460 + doe div 36524 - doe div 146096) div 365 = 100 * c + 4 * q + r"
proof -
  let ?t = "24 * c + q + 365 * r + s"
  let ?d = "if 1460 \<le> ?t then 1 else 0 :: int"
  have a: "doe div 1460 = 25 * c + q + ?d"
    using c q r s
    by (intro int_div_pos_eq [where r = "?t - 1460 * ?d"]) (auto simp: doe)
  have be: "doe div 36524 - doe div 146096 = c"
  proof (cases "doe = 146096")
    case True
    then have "c = 3"
      using c q r s by (simp add: doe)
    with True show ?thesis by simp
  next
    case False
    have lt: "1461 * q + 365 * r + s < 36524"
    proof (cases "q = 24 \<and> r = 3 \<and> s = 365")
      case True
      with last have "c = 3" by simp
      with True False show ?thesis by (simp add: doe)
    next
      case False
      with q r s show ?thesis by linarith
    qed
    have "doe div 36524 = c"
      using lt q r s by (intro int_div_pos_eq [where r = "1461 * q + 365 * r + s"]) (simp_all add: doe)
    moreover have "doe div 146096 = 0"
      using lt c q r s by (intro div_pos_pos_trivial) (simp_all add: doe)
    ultimately show ?thesis by simp
  qed
  have "doe - doe div 1460 + doe div 36524 - doe div 146096
      = 365 * (100 * c + 4 * q + r) + (s - ?d)"
    using a be by (simp add: doe)
  moreover have "0 \<le> s - ?d" "s - ?d < 365"
    using c q r s last by (cases "s = 365"; simp)+
  ultimately show ?thesis
    by (rule int_div_pos_eq)
qed

lemma days_before_march:
  assumes "0 \<le> mp" and "mp < 10"
  shows "days_before_month y (mp + 3) = 59 + (if leap y then 1 else 0) + (153 * mp + 2) div 5"
proof -
  have "mp = 0 \<or> mp = 1 \<or> mp = 2 \<or> mp = 3 \<or> mp = 4 \<or> mp = 5 \<or> mp = 6 \<or> mp = 7 \<or> mp = 8 \<or> mp = 9"
    using assms by arith
  then show ?thesis
    by (elim disjE) (simp_all add: month_len_def days_before_month_def)
qed

lemma month_day_bounds:
  assumes s: "0 \<le> s" "s \<le> 365" and mp: "mp = (5 * s + 2) div 153"
    and d: "d = s - (153 * mp + 2) div 5 + 1" and m: "m = (if mp < 10 then mp + 3 else mp - 9)"
    and feb: "s = 365 \<Longrightarrow> leap y"
  shows "0 \<le> mp \<and> mp < 12 \<and> 1 \<le> d \<and> d \<le> month_len y m"
proof -
  have "153 * mp + (5 * s + 2) mod 153 = 5 * s + 2"
    unfolding mp by (rule mult_div_mod_eq)
  moreover have "0 \<le> (5 * s + 2) mod 153" "(5 * s + 2) mod 153 < 153"
    by (rule pos_mod_sign pos_mod_bound, simp)+
  ultimately have b: "153 * mp \<le> 5 * s + 2" "5 * s + 2 < 153 * mp + 153"
    by linarith+
  then have range: "0 \<le> mp" "mp < 12"
    using s by linarith+
  show ?thesis
  proof (cases "s = 365")
    case True
    with b have "mp = 11" by linarith
    with True feb show ?thesis by (simp add: d m month_len_def)
  next
    case False
    with s have s': "s \<le> 364" by simp
    from range have "mp = 0 \<or> mp = 1 \<or> mp = 2 \<or> mp = 3 \<or> mp = 4 \<or> mp = 5 \<or> mp = 6 \<or> mp = 7
        \<or> mp = 8 \<or> mp = 9 \<or> mp = 10 \<or> mp = 11"
      by arith
    then show ?thesis
      using b s s' unfolding d m
      by (elim disjE) (simp_all add: month_len_def)
  qed
qed

lemma leap_after_long_year:
  assumes "r = 3" and "q = 24 \<longrightarrow> c = 3" and "0 \<le> q" "q \<le> 24" and "0 \<le> c" "c \<le> 3"
  shows "leap (400 * era + (100 * c + 4 * q + r) + 1)"
proof (cases "q = 24")
  case True
  with assms have y: "400 * era + (100 * c + 4 * q + r) + 1 = 400 * (era + 1)" by simp
  have "400 * (era + 1) mod 4 = 0"
    by (auto simp: mod_eq_0_iff_dvd intro: dvd_mult2)
  moreover have "400 * (era + 1) mod 400 = 0"
    by (rule mod_mult_self1_is_0)
  ultimately show ?thesis unfolding leap_def y by blast
next
  case False
  let ?y = "400 * era + (100 * c + 4 * q + r) + 1"
  have "?y mod 4 = 0"
    using assms by (intro int_mod_pos_eq [where q = "100 * era + 25 * c + q + 1"]) simp_all
  moreover have "?y mod 100 = 4 * q + 4"
    using assms False by (intro int_mod_pos_eq [where q = "4 * era + c"]) simp_all
  ultimately show ?thesis
    using assms by (simp add: leap_def)
qed

lemma year_start_march:
  assumes "0 \<le> q" "q \<le> 24" "0 \<le> r" "r \<le> 3" "0 \<le> c" "c \<le> (3::int)"
  shows "year_start (400 * era + (100 * c + 4 * q + r) + 1)
       = 146097 * era + (36524 * c + 1461 * q + 365 * r) - 719162"
proof -
  let ?y = "400 * era + (100 * c + 4 * q + r)"
  have "?y div 4 = 100 * era + 25 * c + q"
    using assms by (intro int_div_pos_eq [where r = r]) simp_all
  moreover have "?y div 100 = 4 * era + c"
    using assms by (intro int_div_pos_eq [where r = "4 * q + r"]) simp_all
  moreover have "?y div 400 = era"
    using assms by (intro int_div_pos_eq [where r = "100 * c + 4 * q + r"]) simp_all
  ultimately show ?thesis
    by (simp add: year_start_def)
qed

lemma doy_formula:
  assumes "y0 = 100 * c + 4 * q + r" "0 \<le> q" "q \<le> 24" "0 \<le> r" "r \<le> (3::int)"
  shows "36524 * c + 1461 * q + 365 * r + s - (365 * y0 + y0 div 4 - y0 div 100) = s"
proof -
  have "y0 div 4 = 25 * c + q"
    using assms by (intro int_div_pos_eq [where r = r]) simp_all
  moreover have "y0 div 100 = c"
    using assms by (intro int_div_pos_eq [where r = "4 * q + r"]) simp_all
  ultimately show ?thesis
    by (simp add: assms(1))
qed

text \<open>The calendar date of a day given by its position in a year that starts in March.\<close>

definition march_date :: "int \<Rightarrow> int \<Rightarrow> civil" where
  "march_date y doy =
     (let mp = (5 * doy + 2) div 153;
          m = (if mp < 10 then mp + 3 else mp - 9)
      in \<lparr>c_year = (if m \<le> 2 then y + 1 else y), c_month = m, c_day = doy - (153 * mp + 2) div 5 + 1\<rparr>)"

lemma march_date_correct:
  assumes s: "0 \<le> s" "s \<le> 365" and feb: "s = 365 \<Longrightarrow> leap (y + 1)"
  shows "valid_civil (march_date y s) \<and> days_from_civil (march_date y s) = year_start (y + 1) + s - 306"
proof -
  define mp where "mp = (5 * s + 2) div 153"
  define m where "m = (if mp < 10 then mp + 3 else mp - 9)"
  define d where "d = s - (153 * mp + 2) div 5 + 1"
  define y' where "y' = (if m \<le> 2 then y + 1 else y)"
  have date: "march_date y s = \<lparr>c_year = y', c_month = m, c_day = d\<rparr>"
    by (simp add: march_date_def Let_def y'_def m_def d_def mp_def)
  have late: "s = 365 \<Longrightarrow> mp = 11"
    by (simp add: mp_def)
  have "s = 365 \<Longrightarrow> leap y'"
    using feb late by (simp add: y'_def m_def)
  with month_day_bounds [OF s mp_def d_def m_def] have
    b: "0 \<le> mp" "mp < 12" "1 \<le> d" "d \<le> month_len y' m"
    by blast+
  have "1 \<le> m" "m \<le> 12"
    using b by (auto simp: m_def)
  with b have "valid_civil (march_date y s)"
    by (simp add: date valid_civil_def)
  moreover have "days_from_civil (march_date y s) = year_start (y + 1) + s - 306"
  proof (cases "mp < 10")
    case True
    with b show ?thesis
      by (simp add: date days_from_civil_def y'_def m_def d_def days_before_march year_start_Suc)
  next
    case False
    with b have "mp = 10 \<or> mp = 11" by arith
    then show ?thesis
      by (elim disjE)
        (simp_all add: date days_from_civil_def y'_def m_def d_def days_before_month_def month_len_def)
  qed
  ultimately show ?thesis ..
qed

lemma civil_from_days_march:
  assumes "days = 146097 * era + doe - 719468" "0 \<le> doe" "doe < 146097"
    and "(doe - doe div 1460 + doe div 36524 - doe div 146096) div 365 = y0"
    and "doe - (365 * y0 + y0 div 4 - y0 div 100) = s"
  shows "civil_from_days days = march_date (400 * era + y0) s"
proof -
  have z: "days + 719468 = 146097 * era + doe"
    by (simp add: assms(1))
  have "(days + 719468) div 146097 = era" "(days + 719468) mod 146097 = doe"
    by (rule int_div_pos_eq [OF z assms(2,3)] int_mod_pos_eq [OF z assms(2,3)])+
  then have "civil_from_days days = march_date (y0 + era * 400) s"
    by (simp only: civil_from_days_def march_date_def Let_def assms(4,5))
  then show ?thesis
    by (simp only: add.commute mult.commute)
qed

lemma civil_from_days_correct:
  "valid_civil (civil_from_days days) \<and> days_from_civil (civil_from_days days) = days"
proof -
  define era where "era = (days + 719468) div 146097"
  define doe where "doe = (days + 719468) mod 146097"
  have days: "days = 146097 * era + doe - 719468"
    unfolding era_def doe_def mult_div_mod_eq by simp
  have doe: "0 \<le> doe" "doe < 146097"
    unfolding doe_def by (rule pos_mod_sign pos_mod_bound, simp)+
  obtain c q r s where doe_eq: "doe = 36524 * c + 1461 * q + 365 * r + s"
    and b: "0 \<le> c" "c \<le> 3" "0 \<le> q" "q \<le> 24" "0 \<le> r" "r \<le> 3" "0 \<le> s" "s \<le> 365"
    and last: "s = 365 \<Longrightarrow> r = 3 \<and> (q = 24 \<longrightarrow> c = 3)"
    by (rule doe_decompose [OF doe]) blast
  define y0 where "y0 = 100 * c + 4 * q + r"
  have yoe: "(doe - doe div 1460 + doe div 36524 - doe div 146096) div 365 = y0"
    unfolding y0_def using doe_eq b last by (rule yoe_formula)
  have doy: "doe - (365 * y0 + y0 div 4 - y0 div 100) = s"
    unfolding doe_eq using y0_def b(3-6) by (rule doy_formula)
  have "s = 365 \<Longrightarrow> leap (400 * era + y0 + 1)"
    unfolding y0_def using last b by (intro leap_after_long_year) simp_all
  from march_date_correct [OF b(7,8) this] show ?thesis
    unfolding civil_from_days_march [OF days doe yoe doy] y0_def
    using year_start_march [OF b(3-6) b(1,2), of era]
    by (simp add: days doe_eq)
qed


text \<open>
  the day count of a timestamp and the calendar date written for it correspond exactly:
  the date is a valid date of the Gregorian calendar, and counting days up to it gives the day
  number back.
\<close>
theorem civil_from_days_gregorian:
  "valid_civil (civil_from_days days) \<and> days_from_civil (civil_from_days days) = days"
  by (rule civil_from_days_correct)

section \<open>The printed timestamp\<close>

lemma year_start_mono: "a \<le> b \<Longrightarrow> year_start a \<le> year_start b"
  by (induction b rule: int_ge_induct) (simp_all add: year_start_Suc)

lemma days_before_month_nonneg: "0 \<le> days_before_month y m"
  unfolding days_before_month_def by (rule sum_list_nonneg) (auto simp: month_len_def)

lemma civil_year_range:
  assumes "0 \<le> days" and "days < year_start 10000" and "valid_civil c" and "days_from_civil c = days"
  shows "1970 \<le> c_year c \<and> c_year c < 10000"
proof
  have c: "1 \<le> c_month c" "c_month c \<le> 12" "1 \<le> c_day c" "c_day c \<le> month_len (c_year c) (c_month c)"
    using assms(3) by (simp_all add: valid_civil_def)
  show "c_year c < 10000"
  proof (rule ccontr)
    assume "\<not> c_year c < 10000"
    then have "year_start 10000 \<le> year_start (c_year c)"
      by (intro year_start_mono) simp
    with assms(2,4) c(3) days_before_month_nonneg [of "c_year c" "c_month c"] show False
      by (simp add: days_from_civil_def)
  qed
  show "1970 \<le> c_year c"
  proof (rule ccontr)
    assume "\<not> 1970 \<le> c_year c"
    then have "year_start (c_year c + 1) \<le> year_start 1970"
      by (intro year_start_mono) simp
    moreover have "year_start 1970 = 0"
      by (simp add: year_start_def)
    moreover have "days_before_month (c_year c) (c_month c) + (c_day c - 1) < 365 + (if leap (c_year c) then 1 else 0)"
    proof -
      have "c_month c = 1 \<or> c_month c = 2 \<or> c_month c = 3 \<or> c_month c = 4 \<or> c_month c = 5 \<or> c_month c = 6
          \<or> c_month c = 7 \<or> c_month c = 8 \<or> c_month c = 9 \<or> c_month c = 10 \<or> c_month c = 11 \<or> c_month c = 12"
        using c(1,2) by arith
      with c(4) show ?thesis
        by (elim disjE) (simp_all add: days_before_month_def month_len_def split: if_splits)
    qed
    ultimately show False
      using assms(1,4) by (simp add: days_from_civil_def year_start_Suc)
  qed
qed

lemma iso_fields:
  assumes "length Y = 4" "length M = 2" "length D = 2" "length h = 2" "length m = 2" "length s = 2"
  shows "iso_field 0 4 (Y @ ''-'' @ M @ ''-'' @ D @ ''T'' @ h @ '':'' @ m @ '':'' @ s @ ''Z'') = parse_digits 10 0 Y"
    "iso_field 5 2 (Y @ ''-'' @ M @ ''-'' @ D @ ''T'' @ h @ '':'' @ m @ '':'' @ s @ ''Z'') = parse_digits 10 0 M"
    "iso_field 8 2 (Y @ ''-'' @ M @ ''-'' @ D @ ''T'' @ h @ '':'' @ m @ '':'' @ s @ ''Z'') = parse_digits 10 0 D"
    "iso_field 11 2 (Y @ ''-'' @ M @ ''-'' @ D @ ''T'' @ h @ '':'' @ m @ '':'' @ s @ ''Z'') = parse_digits 10 0 h"
    "iso_field 14 2 (Y @ ''-'' @ M @ ''-'' @ D @ ''T'' @ h @ '':'' @ m @ '':'' @ s @ ''Z'') = parse_digits 10 0 m"
    "iso_field 17 2 (Y @ ''-'' @ M @ ''-'' @ D @ ''T'' @ h @ '':'' @ m @ '':'' @ s @ ''Z'') = parse_digits 10 0 s"
  using assms by (simp_all add: iso_field_def)

lemma clock_fields:
  "86400 * int (secs div 86400) + 3600 * int (secs mod 86400 div 3600)
     + 60 * int (secs mod 86400 mod 3600 div 60) + int (secs mod 86400 mod 60) = int secs"
proof -
  define rem where "rem = secs mod 86400"
  have "(rem mod 3600) mod 60 = rem mod 60"
    by (rule mod_mod_cancel) simp
  then have "60 * ((rem mod 3600) div 60) + rem mod 60 = rem mod 3600"
    by (metis mult_div_mod_eq)
  then have "3600 * (rem div 3600) + (60 * ((rem mod 3600) div 60) + rem mod 60) = rem"
    by (simp only: mult_div_mod_eq)
  then have "int (86400 * (secs div 86400)
      + (3600 * (rem div 3600) + (60 * ((rem mod 3600) div 60) + rem mod 60))) = int secs"
    by (simp only: rem_def mult_div_mod_eq)
  then show ?thesis
    by (simp only: rem_def of_nat_add of_nat_mult of_nat_numeral add.assoc)
qed

text \<open>
  C32: until the end of the year 9999 the timestamp \<^verbatim>\<open>now_iso\<close> writes has the fixed RFC 3339
  length of 20 characters, and reading its six fields as a Gregorian date and a time of day
  gives back exactly the second it was written for.
\<close>
theorem now_iso_roundtrip:
  assumes "secs < 253402300800"
  shows "length (now_iso secs) = 20 \<and> iso_to_secs (now_iso secs) = Some (int secs)"
proof -
  define days rem where "days = int (secs div 86400)" and "rem = secs mod 86400"
  define c where "c = civil_from_days days"
  have v: "valid_civil c" "days_from_civil c = days"
    using civil_from_days_correct [of days] by (simp_all add: c_def)
  have "secs div 86400 < 2932897"
    by (rule less_mult_imp_div_less) (use assms in simp)
  then have "days < year_start 10000"
    by (simp add: days_def year_start_def)
  then have y: "1970 \<le> c_year c" "c_year c < 10000"
    using civil_year_range [of days c] v by (simp_all add: days_def)
  have md: "1 \<le> c_month c" "c_month c \<le> 12" "1 \<le> c_day c" "c_day c \<le> 31"
    using v(1) by (auto simp: valid_civil_def month_len_def split: if_splits)
  have rem: "rem < 86400"
    by (simp add: rem_def)
  have t: "rem div 3600 < 24" "(rem mod 3600) div 60 < 60" "rem mod 60 < 60"
    using rem by (simp_all add: less_mult_imp_div_less)
  have len: "length (pad_zero 4 (show_nat (nat (c_year c)))) = 4"
    "length (pad_zero 2 (show_nat (nat (c_month c)))) = 2" "length (pad_zero 2 (show_nat (nat (c_day c)))) = 2"
    "length (pad_zero 2 (show_nat (rem div 3600))) = 2" "length (pad_zero 2 (show_nat ((rem mod 3600) div 60))) = 2"
    "length (pad_zero 2 (show_nat (rem mod 60))) = 2"
    using y md t by (intro length_pad_zero; simp)+
  have shape: "now_iso secs = pad_zero 4 (show_nat (nat (c_year c))) @ ''-''
      @ pad_zero 2 (show_nat (nat (c_month c))) @ ''-'' @ pad_zero 2 (show_nat (nat (c_day c))) @ ''T''
      @ pad_zero 2 (show_nat (rem div 3600)) @ '':'' @ pad_zero 2 (show_nat ((rem mod 3600) div 60)) @ '':''
      @ pad_zero 2 (show_nat (rem mod 60)) @ ''Z''"
    by (simp only: now_iso_def Let_def days_def rem_def c_def)
  have date: "\<lparr>c_year = int (nat (c_year c)), c_month = int (nat (c_month c)), c_day = int (nat (c_day c))\<rparr> = c"
    using y md by simp
  have "86400 * days + 3600 * int (rem div 3600) + 60 * int ((rem mod 3600) div 60) + int (rem mod 60) = int secs"
    unfolding days_def rem_def by (rule clock_fields)
  then have "iso_to_secs (now_iso secs) = Some (int secs)"
    unfolding iso_to_secs_def shape iso_fields [OF len] parse_pad_zero
    by (simp only: option.case prod.case date v)
  moreover have "length (now_iso secs) = 20"
    unfolding shape by (simp add: len)
  ultimately show ?thesis by blast
qed

theorem now_iso_roundtrip_witness:
  "length (now_iso 1704067199) = 20 \<and> iso_to_secs (now_iso 1704067199) = Some 1704067199"
  using now_iso_roundtrip [of 1704067199] by simp

end
