(* ===== verification/State.thy ===== *)
theory State
  imports MC_Config Civil_Date
begin

text \<open>
  \<^verbatim>\<open>src/state.rs\<close>: the persisted lifecycle record of a container and the operations on its state
  directory. The JSON coding of a record is \<^verbatim>\<open>serde_json\<close>'s, a parameter of the model; where a
  result depends on it, the hypothesis is that the record at hand is read back as it was written.
\<close>

section \<open>Data\<close>

datatype Status =
  Created | Running | Stopped | Failed | Checkpointing | Checkpointed | Restoring | Migrated

instantiation Status :: enum
begin

definition enum_Status :: "Status list" where
  "enum_Status = [Created, Running, Stopped, Failed, Checkpointing, Checkpointed, Restoring, Migrated]"

definition enum_all_Status :: "(Status \<Rightarrow> bool) \<Rightarrow> bool" where
  "enum_all_Status P \<longleftrightarrow> P Created \<and> P Running \<and> P Stopped \<and> P Failed \<and> P Checkpointing
     \<and> P Checkpointed \<and> P Restoring \<and> P Migrated"

definition enum_ex_Status :: "(Status \<Rightarrow> bool) \<Rightarrow> bool" where
  "enum_ex_Status P \<longleftrightarrow> P Created \<or> P Running \<or> P Stopped \<or> P Failed \<or> P Checkpointing
     \<or> P Checkpointed \<or> P Restoring \<or> P Migrated"

instance
proof
  show "(UNIV :: Status set) = set enum_class.enum"
    unfolding enum_Status_def by (auto intro: Status.exhaust)
  show "distinct (enum_class.enum :: Status list)"
    by (simp add: enum_Status_def)
  show "enum_class.enum_all P \<longleftrightarrow> Ball UNIV P" for P :: "Status \<Rightarrow> bool"
    unfolding enum_all_Status_def by (metis Status.exhaust UNIV_I)
  show "enum_class.enum_ex P \<longleftrightarrow> Bex UNIV P" for P :: "Status \<Rightarrow> bool"
    unfolding enum_ex_Status_def by (metis Status.exhaust UNIV_I)
qed

end

definition as_str :: "Status \<Rightarrow> string" where
  "as_str s = (case s of
     Created \<Rightarrow> ''created'' | Running \<Rightarrow> ''running'' | Stopped \<Rightarrow> ''stopped'' | Failed \<Rightarrow> ''failed''
   | Checkpointing \<Rightarrow> ''checkpointing'' | Checkpointed \<Rightarrow> ''checkpointed''
   | Restoring \<Rightarrow> ''restoring'' | Migrated \<Rightarrow> ''migrated'')"

record ContainerState =
  cs_id :: string
  cs_pid :: "int option"
  cs_status :: string
  cs_exit_code :: "int option"
  cs_created_at :: string
  cs_started_at :: "string option"
  cs_stopped_at :: "string option"
  cs_snapshot :: "string option"
  cs_checkpointed_at :: "string option"
  cs_restored_at :: "string option"
  cs_generation :: u32
  cs_origin_host :: "string option"
  cs_supervisor_pid :: "int option"

definition ContainerState_new :: "string \<Rightarrow> string \<Rightarrow> ContainerState" where
  "ContainerState_new now cid =
     \<lparr>cs_id = cid, cs_pid = None, cs_status = ''created'', cs_exit_code = None, cs_created_at = now,
      cs_started_at = None, cs_stopped_at = None, cs_snapshot = None, cs_checkpointed_at = None,
      cs_restored_at = None, cs_generation = 0, cs_origin_host = None, cs_supervisor_pid = None\<rparr>"

definition cs_is :: "ContainerState \<Rightarrow> Status \<Rightarrow> bool" where
  "cs_is st s = (cs_status st = as_str s)"

section \<open>JSON as a parameter\<close>

record 'a json =
  js_to :: "'a \<Rightarrow> string + string"
  js_from :: "string \<Rightarrow> string + 'a"

text \<open>The value is written to a Rust string, hence valid UTF-8, and read back as it was.\<close>

definition json_ok :: "'a json \<Rightarrow> 'a \<Rightarrow> bool" where
  "json_ok J x = (case js_to J x of
     Inl _ \<Rightarrow> False
   | Inr s \<Rightarrow> utf8_valid (as_bytes s) \<and> js_from J s = Inr x)"

definition to_json :: "'a json \<Rightarrow> 'a \<Rightarrow> string result" where
  "to_json J x = (case js_to J x of Inl e \<Rightarrow> Inl (Json e) | Inr s \<Rightarrow> Inr s)"

definition from_json :: "'a json \<Rightarrow> string \<Rightarrow> 'a result" where
  "from_json J s = (case js_from J s of Inl e \<Rightarrow> Inl (Json e) | Inr x \<Rightarrow> Inr x)"

record senv = env +
  j_state :: "ContainerState json"
  j_config :: "ContainerConfig json"

section \<open>The state directory\<close>

definition home_dir :: "'b env_scheme \<Rightarrow> string" where
  "home_dir E = (case e_home E of Some h \<Rightarrow> h | None \<Rightarrow> ''/root'')"

definition now_m :: "'b env_scheme \<Rightarrow> (world, 'e, string) eio" where
  "now_m E = get_m (\<lambda>w. now_iso (now_at E (tick w)))"

record ContainerStateDir =
  sd_root :: string

definition containers_root :: "'b env_scheme \<Rightarrow> string" where
  "containers_root E = home_dir E @ ''/.mincontainer/containers''"

definition for_id :: "'b env_scheme \<Rightarrow> string \<Rightarrow> ContainerStateDir" where
  "for_id E cid = \<lparr>sd_root = home_dir E @ ''/.mincontainer/containers'' @ ''/'' @ cid\<rparr>"

definition state_file :: "ContainerStateDir \<Rightarrow> string" where
  "state_file d = path_join (sd_root d) ''state.json''"

definition stdout_file :: "ContainerStateDir \<Rightarrow> string" where
  "stdout_file d = path_join (sd_root d) ''stdout''"

definition stderr_file :: "ContainerStateDir \<Rightarrow> string" where
  "stderr_file d = path_join (sd_root d) ''stderr''"

definition config_file :: "ContainerStateDir \<Rightarrow> string" where
  "config_file d = path_join (sd_root d) ''config.json''"

definition lock_file :: "ContainerStateDir \<Rightarrow> string" where
  "lock_file d = path_join (sd_root d) ''.lock''"

definition io_dir :: "ContainerStateDir \<Rightarrow> string" where
  "io_dir d = path_join (sd_root d) ''io''"

definition snapshots_dir :: "ContainerStateDir \<Rightarrow> string" where
  "snapshots_dir d = path_join (sd_root d) ''snapshots''"

definition snapshot_file :: "ContainerStateDir \<Rightarrow> string \<Rightarrow> string" where
  "snapshot_file d name = path_join (snapshots_dir d) (name @ ''.mcsnap'')"

definition staging_dir :: "ContainerStateDir \<Rightarrow> string" where
  "staging_dir d = path_join (sd_root d) ''staging''"

definition state_dir_init :: "'b env_scheme \<Rightarrow> unit io" where
  "state_dir_init E =
     map_err_m (\<lambda>e. Config (''mkdir state dir: '' @ e)) (fs_create_dir_all E (resolve E (containers_root E)))"

definition load_config :: "'b senv_scheme \<Rightarrow> ContainerStateDir \<Rightarrow> ContainerConfig io" where
  "load_config E d =
     bind_m (map_err_m (\<lambda>e. Config (''read config: '' @ e)) (fs_read_to_string E (resolve E (config_file d))))
       (\<lambda>content. lift_m (from_json (j_config E) content))"

definition create :: "'b env_scheme \<Rightarrow> ContainerStateDir \<Rightarrow> unit io" where
  "create E d = forM_m [sd_root d, io_dir d, snapshots_dir d] (\<lambda>p.
     map_err_m (\<lambda>e. Config (''mkdir '' @ p @ '': '' @ e)) (fs_create_dir_all E (resolve E p)))"

definition load_state :: "'b senv_scheme \<Rightarrow> ContainerStateDir \<Rightarrow> ContainerState io" where
  "load_state E d =
     bind_m (map_err_m (\<lambda>e. Config (''read state: '' @ e)) (fs_read_to_string E (resolve E (state_file d))))
       (\<lambda>content. lift_m (from_json (j_state E) content))"

definition save_state :: "'b senv_scheme \<Rightarrow> ContainerStateDir \<Rightarrow> ContainerState \<Rightarrow> unit io" where
  "save_state E d st =
     bind_m (lift_m (to_json (j_state E) st)) (\<lambda>json.
       map_err_m (\<lambda>e. Config (''write state: '' @ e)) (fs_write E (resolve E (state_file d)) (as_bytes json)))"

definition save_config :: "'b env_scheme \<Rightarrow> ContainerStateDir \<Rightarrow> string \<Rightarrow> unit io" where
  "save_config E d config =
     map_err_m (\<lambda>e. Config (''write config: '' @ e)) (fs_write E (resolve E (config_file d)) (as_bytes config))"

definition dir_exists :: "'b env_scheme \<Rightarrow> ContainerStateDir \<Rightarrow> (world, 'e, bool) eio" where
  "dir_exists E d = get_m (\<lambda>w. path_exists w (resolve E (sd_root d)))"

definition cleanup :: "'b env_scheme \<Rightarrow> ContainerStateDir \<Rightarrow> unit io" where
  "cleanup E d =
     map_err_m (\<lambda>e. Config (''cleanup '' @ sd_root d @ '': '' @ e)) (fs_remove_dir_all E (resolve E (sd_root d)))"

section \<open>Lifecycle operations\<close>

definition init_container :: "'b senv_scheme \<Rightarrow> string \<Rightarrow> ContainerState io" where
  "init_container E cid =
     bind_m (state_dir_init E) (\<lambda>_.
     bind_m (create E (for_id E cid)) (\<lambda>_.
     bind_m (now_m E) (\<lambda>now.
     let st = ContainerState_new now cid
     in bind_m (save_state E (for_id E cid) st) (\<lambda>_. return_m st))))"

definition get_container :: "'b senv_scheme \<Rightarrow> string \<Rightarrow> ContainerState io" where
  "get_container E cid =
     bind_m (dir_exists E (for_id E cid)) (\<lambda>ex.
     if \<not> ex then throw_m (Config (''container '' @ cid @ '' not found''))
     else load_state E (for_id E cid))"

text \<open>Read-modify-write; the clock is read between the two.\<close>

definition update_at :: "'b senv_scheme \<Rightarrow> string \<Rightarrow> (string \<Rightarrow> ContainerState \<Rightarrow> ContainerState) \<Rightarrow> unit io" where
  "update_at E cid f =
     bind_m (load_state E (for_id E cid)) (\<lambda>st.
     bind_m (now_m E) (\<lambda>now.
     save_state E (for_id E cid) (f now st)))"

definition running_update :: "int \<Rightarrow> int option \<Rightarrow> string \<Rightarrow> ContainerState \<Rightarrow> ContainerState" where
  "running_update pid supervisor now st =
     st\<lparr>cs_status := as_str Running, cs_pid := Some pid, cs_started_at := Some now,
        cs_supervisor_pid := supervisor\<rparr>"

definition set_running_under :: "'b senv_scheme \<Rightarrow> string \<Rightarrow> int \<Rightarrow> int option \<Rightarrow> unit io" where
  "set_running_under E cid pid supervisor = update_at E cid (running_update pid supervisor)"

definition set_running :: "'b senv_scheme \<Rightarrow> string \<Rightarrow> int \<Rightarrow> unit io" where
  "set_running E cid pid = set_running_under E cid pid None"

definition stopped_update :: "int \<Rightarrow> string \<Rightarrow> ContainerState \<Rightarrow> ContainerState" where
  "stopped_update exit_code now st =
     st\<lparr>cs_status := as_str Stopped, cs_exit_code := Some exit_code, cs_stopped_at := Some now\<rparr>"

definition set_stopped :: "'b senv_scheme \<Rightarrow> string \<Rightarrow> int \<Rightarrow> unit io" where
  "set_stopped E cid exit_code = update_at E cid (stopped_update exit_code)"

definition set_status :: "'b senv_scheme \<Rightarrow> string \<Rightarrow> Status \<Rightarrow> unit io" where
  "set_status E cid status = update_at E cid (\<lambda>_ st. st\<lparr>cs_status := as_str status\<rparr>)"

definition checkpointed_update :: "string \<Rightarrow> string \<Rightarrow> ContainerState \<Rightarrow> ContainerState" where
  "checkpointed_update snap now st =
     st\<lparr>cs_status := as_str Checkpointed, cs_pid := None, cs_supervisor_pid := None,
        cs_snapshot := Some snap, cs_checkpointed_at := Some now\<rparr>"

definition set_checkpointed :: "'b senv_scheme \<Rightarrow> string \<Rightarrow> string \<Rightarrow> unit io" where
  "set_checkpointed E cid snap = update_at E cid (checkpointed_update snap)"

definition restored_update :: "int \<Rightarrow> string \<Rightarrow> ContainerState \<Rightarrow> ContainerState" where
  "restored_update pid now st =
     st\<lparr>cs_status := as_str Running, cs_pid := Some pid, cs_restored_at := Some now,
        cs_supervisor_pid := None, cs_generation := cs_generation st + 1,
        cs_exit_code := None, cs_stopped_at := None\<rparr>"

definition set_restored :: "'b senv_scheme \<Rightarrow> string \<Rightarrow> int \<Rightarrow> unit io" where
  "set_restored E cid pid = update_at E cid (restored_update pid)"

definition adopt :: "'b senv_scheme \<Rightarrow> ContainerState \<Rightarrow> ContainerConfig \<Rightarrow> unit io" where
  "adopt E st config =
     bind_m (state_dir_init E) (\<lambda>_.
     bind_m (create E (for_id E (cs_id st))) (\<lambda>_.
     bind_m (save_state E (for_id E (cs_id st)) st) (\<lambda>_.
     bind_m (lift_m (to_json (j_config E) config)) (\<lambda>json.
     save_config E (for_id E (cs_id st)) json))))"

text \<open>
  The listing skips names that are not UTF-8, hidden entries, anything that is not a directory
  and every container whose record does not load.
\<close>

primrec list_entries :: "'b senv_scheme \<Rightarrow> string list \<Rightarrow> ContainerState list io" where
  "list_entries E [] = return_m []"
| "list_entries E (n # ns) =
     bind_m (get_m (\<lambda>w. is_dir w (resolve E (containers_root E) @ [n]))) (\<lambda>d.
     if d \<and> from_utf8 (as_bytes n) \<noteq> None \<and> \<not> starts_with ''.'' n
     then bind_m (try_m (get_container E n)) (\<lambda>r.
          bind_m (list_entries E ns) (\<lambda>rest.
          return_m (case r of Inr st \<Rightarrow> st # rest | Inl _ \<Rightarrow> rest)))
     else list_entries E ns)"

definition list_all_containers :: "'b senv_scheme \<Rightarrow> ContainerState list io" where
  "list_all_containers E =
     bind_m (get_m (\<lambda>w. path_exists w (resolve E (containers_root E)))) (\<lambda>ex.
     if \<not> ex then return_m []
     else bind_m (map_err_m (\<lambda>e. Config (''list containers: '' @ e))
                    (fs_read_dir E (resolve E (containers_root E)))) (\<lambda>ns.
          list_entries E ns))"

section \<open>What a record store promises\<close>

text \<open>
  The contract the lifecycle operations rely on: \<open>content\<close> is what a store holds for an identifier,
  loading reports it and changes nothing, saving replaces it and touches no other identifier's
  record, whether it succeeds or not.
\<close>

locale state_store =
  fixes load :: "'i \<Rightarrow> ('s, 'e, 'r) eio"
    and save :: "'i \<Rightarrow> 'r \<Rightarrow> ('s, 'e, unit) eio"
    and content :: "'i \<Rightarrow> 's \<Rightarrow> 'r option"
    and valid :: "'i \<Rightarrow> bool"
    and codable :: "'r \<Rightarrow> bool"
  assumes load_spec: "wp (load i) (\<lambda>r t. content i s = Some r \<and> (\<forall>j. content j t = content j s))
      (\<lambda>_ t. \<forall>j. content j t = content j s) s"
    and save_spec: "valid i \<Longrightarrow> wp (save i r)
      (\<lambda>_ t. (codable r \<longrightarrow> content i t = Some r) \<and> (\<forall>j. valid j \<and> j \<noteq> i \<longrightarrow> content j t = content j s))
      (\<lambda>_ t. \<forall>j. valid j \<and> j \<noteq> i \<longrightarrow> content j t = content j s) s"
begin

lemma rmw_spec:
  assumes "valid i"
  shows "wp (bind_m (load i) (\<lambda>r. bind_m (get_m g) (\<lambda>n. save i (f n r))))
      (\<lambda>_ t. (\<exists>r u. content i s = Some r \<and> (codable (f (g u) r) \<longrightarrow> content i t = Some (f (g u) r)))
        \<and> (\<forall>j. valid j \<and> j \<noteq> i \<longrightarrow> content j t = content j s))
      (\<lambda>_ t. \<forall>j. valid j \<and> j \<noteq> i \<longrightarrow> content j t = content j s) s"
  unfolding wp_bind wp_get
proof (rule wp_mono [OF load_spec])
  fix r t
  assume t: "content i s = Some r \<and> (\<forall>j. content j t = content j s)"
  show "wp (save i (f (g t) r))
      (\<lambda>_ t. (\<exists>r u. content i s = Some r \<and> (codable (f (g u) r) \<longrightarrow> content i t = Some (f (g u) r)))
        \<and> (\<forall>j. valid j \<and> j \<noteq> i \<longrightarrow> content j t = content j s))
      (\<lambda>_ t. \<forall>j. valid j \<and> j \<noteq> i \<longrightarrow> content j t = content j s) t"
    using t by (intro wp_mono [OF save_spec [OF assms]]) auto
qed auto

lemma rmw_succeeds_frame:
  assumes "valid i" and "valid j" and "j \<noteq> i"
  shows "content j (snd (bind_m (load i) (\<lambda>r. bind_m (get_m g) (\<lambda>n. save i (f n r))) s)) = content j s"
  using rmw_spec [OF assms(1), of g f s] assms(2,3)
  by (simp only: wp_def) (auto split: prod.splits sum.splits)

end

definition content_of :: "'b senv_scheme \<Rightarrow> string \<Rightarrow> world \<Rightarrow> ContainerState option" where
  "content_of E cid w =
     (case fget w (resolve E (state_file (for_id E cid))) of
        Some (File b) \<Rightarrow>
          (case from_utf8 b of
             None \<Rightarrow> None
           | Some s \<Rightarrow> (case js_from (j_state E) s of Inl _ \<Rightarrow> None | Inr st \<Rightarrow> Some st))
      | _ \<Rightarrow> None)"

lemma for_id_ne [simp]: "sd_root (for_id E cid) \<noteq> []"
  by (simp add: for_id_def)

lemma resolve_for_id:
  "simple_name cid \<Longrightarrow> resolve E (sd_root (for_id E cid)) = resolve E (containers_root E) @ [cid]"
  using resolve_slash_simple [of "containers_root E" cid E] by (simp add: for_id_def containers_root_def)

lemma resolve_dir_files [simp]:
  "resolve E (state_file (for_id E cid)) = resolve E (sd_root (for_id E cid)) @ [''state.json'']"
  "resolve E (config_file (for_id E cid)) = resolve E (sd_root (for_id E cid)) @ [''config.json'']"
  "resolve E (io_dir (for_id E cid)) = resolve E (sd_root (for_id E cid)) @ [''io'']"
  "resolve E (snapshots_dir (for_id E cid)) = resolve E (sd_root (for_id E cid)) @ [''snapshots'']"
  "resolve E (staging_dir (for_id E cid)) = resolve E (sd_root (for_id E cid)) @ [''staging'']"
  by (simp_all add: state_file_def config_file_def io_dir_def snapshots_dir_def staging_dir_def simple_name_def)

lemma content_of_cong: "fget t = fget w \<Longrightarrow> content_of E cid t = content_of E cid w"
  by (simp add: content_of_def)

lemma from_json_Inr: "from_json J s = Inr x \<longleftrightarrow> js_from J s = Inr x"
  by (simp add: from_json_def split: sum.splits)

lemma json_ok_iff: "json_ok J x \<longleftrightarrow> (\<exists>s. to_json J x = Inr s \<and> utf8_valid (as_bytes s) \<and> from_json J s = Inr x)"
  by (auto simp: json_ok_def to_json_def from_json_Inr split: sum.splits)

lemma load_state_spec:
  "wp (load_state E (for_id E cid)) (\<lambda>st t. content_of E cid w = Some st \<and> fget t = fget w)
     (\<lambda>_ t. fget t = fget w) w"
  unfolding load_state_def wp_bind wp_map_err
  by (rule wp_mono [OF fs_read_to_string_wp])
    (auto simp: content_of_def from_utf8_def from_json_def split: sum.splits)

lemma save_state_spec:
  "wp (save_state E (for_id E cid) st)
     (\<lambda>_ t. (json_ok (j_state E) st \<longrightarrow> content_of E cid t = Some st)
        \<and> (\<forall>q. q \<noteq> resolve E (state_file (for_id E cid)) \<longrightarrow> fget t q = fget w q))
     (\<lambda>_ t. \<forall>q. q \<noteq> resolve E (state_file (for_id E cid)) \<longrightarrow> fget t q = fget w q) w"
proof (cases "to_json (j_state E) st")
  case (Inl e)
  then show ?thesis by (simp add: save_state_def)
next
  case (Inr json)
  then have "json_ok (j_state E) st \<Longrightarrow> utf8_valid (as_bytes json) \<and> js_from (j_state E) json = Inr st"
    by (auto simp: json_ok_iff from_json_Inr)
  with Inr show ?thesis
    unfolding save_state_def
    by (simp del: resolve_dir_files)
      (rule wp_mono [OF fs_write_wp], auto simp: content_of_def from_utf8_def)
qed

lemma content_of_frame:
  assumes "simple_name i" "simple_name j" "j \<noteq> i"
    and "\<forall>q. q \<noteq> resolve E (state_file (for_id E i)) \<longrightarrow> fget t q = fget w q"
  shows "content_of E j t = content_of E j w"
  using assms by (simp add: content_of_def resolve_for_id)

interpretation store: state_store "\<lambda>cid. load_state E (for_id E cid)" "\<lambda>cid. save_state E (for_id E cid)"
  "content_of E" simple_name "json_ok (j_state E)" for E :: "'b senv_scheme"
proof
  fix i and s :: world
  show "wp (load_state E (for_id E i))
      (\<lambda>r t. content_of E i s = Some r \<and> (\<forall>j. content_of E j t = content_of E j s))
      (\<lambda>_ t. \<forall>j. content_of E j t = content_of E j s) s"
    by (rule wp_mono [OF load_state_spec]) (auto intro: content_of_cong)
next
  fix i :: string and r and s :: world
  assume "simple_name i"
  then show "wp (save_state E (for_id E i) r)
      (\<lambda>_ t. (json_ok (j_state E) r \<longrightarrow> content_of E i t = Some r)
        \<and> (\<forall>j. simple_name j \<and> j \<noteq> i \<longrightarrow> content_of E j t = content_of E j s))
      (\<lambda>_ t. \<forall>j. simple_name j \<and> j \<noteq> i \<longrightarrow> content_of E j t = content_of E j s) s"
    by (intro wp_mono [OF save_state_spec]) (auto intro: content_of_frame)
qed

section \<open>Properties\<close>

lemma content_of_Some:
  "content_of E cid w = Some st \<longleftrightarrow>
     (\<exists>s. fget w (resolve E (state_file (for_id E cid))) = Some (File (as_bytes s))
        \<and> utf8_valid (as_bytes s) \<and> js_from (j_state E) s = Inr st)"
proof
  assume "content_of E cid w = Some st"
  then obtain b where "fget w (resolve E (state_file (for_id E cid))) = Some (File b)"
    "utf8_valid b" "js_from (j_state E) (of_bytes b) = Inr st"
    by (auto simp: content_of_def from_utf8_def simp del: resolve_dir_files
        split: option.splits node.splits sum.splits if_splits)
  then show "\<exists>s. fget w (resolve E (state_file (for_id E cid))) = Some (File (as_bytes s))
        \<and> utf8_valid (as_bytes s) \<and> js_from (j_state E) s = Inr st"
    by (metis as_bytes_of_bytes)
qed (auto simp: content_of_def from_utf8_def simp del: resolve_dir_files)

lemma load_state_live:
  assumes "no_faults E" and "content_of E cid w = Some st"
  shows "wp (load_state E (for_id E cid)) (\<lambda>st' t. st' = st \<and> fget t = fget w) (\<lambda>_ _. False) w"
proof -
  obtain s where s: "fget w (resolve E (state_file (for_id E cid))) = Some (File (as_bytes s))"
    "utf8_valid (as_bytes s)" "js_from (j_state E) s = Inr st"
    using assms(2) content_of_Some by blast
  show ?thesis
    unfolding load_state_def wp_bind wp_map_err
    by (rule wp_mono [OF fs_read_to_string_live [OF assms(1) s(1,2)]]) (auto simp: from_json_def s(3))
qed

lemma update_at_live:
  assumes "no_faults E" and st: "content_of E cid w = Some st" and "is_dir w (resolve E (sd_root (for_id E cid)))"
    and "\<And>n. json_ok (j_state E) (f n st)"
  shows "wp (update_at E cid f) (\<lambda>_ _. True) (\<lambda>_ _. False) w"
  unfolding update_at_def now_m_def wp_bind wp_get
proof (rule wp_mono [OF load_state_live [OF assms(1,2)]])
  fix st' and t :: world
  assume t: "st' = st \<and> fget t = fget w"
  let ?n = "now_iso (now_at E (tick t))"
  obtain j where j: "to_json (j_state E) (f ?n st) = Inr j"
    using assms(4) [of ?n] by (auto simp: json_ok_iff)
  have "can_create t (resolve E (state_file (for_id E cid)))"
    using assms(3) st t
    by (auto simp: can_create_def is_dir_def content_of_Some)
  then show "wp (save_state E (for_id E cid) (f ?n st')) (\<lambda>_ _. True) (\<lambda>_ _. False) t"
    using t j unfolding save_state_def
    by (simp del: resolve_dir_files) (rule wp_mono [OF fs_write_live [OF assms(1)]], simp_all)
qed simp

text \<open>
  C37: a read-modify-write of one container's state file, the core of every lifecycle setter. Under
  any pattern of I/O faults no other container's record changes. When it succeeds, the stored
  record was readable before and is now the updated one, with a clock reading in the timestamps.
  Without faults, on an existing record that can be coded, it does succeed.
\<close>
theorem update_replaces_one_record:
  fixes E :: "'b senv_scheme"
  assumes "simple_name cid" and ok: "\<And>n st. content_of E cid w = Some st \<Longrightarrow> json_ok (j_state E) (f n st)"
  shows "(\<forall>j. simple_name j \<and> j \<noteq> cid \<longrightarrow> content_of E j (snd (update_at E cid f w)) = content_of E j w)
    \<and> (fst (update_at E cid f w) = Inr () \<longrightarrow>
         (\<exists>st k. content_of E cid w = Some st
            \<and> content_of E cid (snd (update_at E cid f w)) = Some (f (now_iso (now_at E k)) st)))
    \<and> (no_faults E \<and> content_of E cid w \<noteq> None \<and> is_dir w (resolve E (sd_root (for_id E cid)))
         \<longrightarrow> fst (update_at E cid f w) = Inr ())"
proof (intro conjI impI allI)
  note spec = store.rmw_spec [OF assms(1), of E "\<lambda>w. now_iso (now_at E (tick w))" f w,
      folded now_m_def, folded update_at_def]
  show "content_of E j (snd (update_at E cid f w)) = content_of E j w"
    if "simple_name j \<and> j \<noteq> cid" for j
    using spec that by (auto simp: wp_def split: prod.splits sum.splits)
  show "\<exists>st k. content_of E cid w = Some st
      \<and> content_of E cid (snd (update_at E cid f w)) = Some (f (now_iso (now_at E k)) st)"
    if "fst (update_at E cid f w) = Inr ()"
    using spec that ok by (auto simp: wp_def split: prod.splits sum.splits)
  show "fst (update_at E cid f w) = Inr ()"
    if "no_faults E \<and> content_of E cid w \<noteq> None \<and> is_dir w (resolve E (sd_root (for_id E cid)))"
    using that update_at_live [of E cid w _ f] ok
    by (fastforce simp: wp_def split: prod.splits sum.splits)
qed

subsection \<open>The shape of the lifecycle\<close>

text \<open>
  the on-disk status strings are pairwise different, so testing a record against one status
  never succeeds for a record written with another.
\<close>
theorem status_strings_distinct: "cs_is (st\<lparr>cs_status := as_str a\<rparr>) b \<longleftrightarrow> a = b"
  by (cases a; cases b) (simp_all add: cs_is_def as_str_def)

datatype lifecycle_op =
    OpRunning int "int option"
  | OpStopped int
  | OpStatus Status
  | OpCheckpointed string
  | OpRestored int

fun apply_op :: "ContainerState \<Rightarrow> lifecycle_op \<times> string \<Rightarrow> ContainerState" where
  "apply_op st (OpRunning pid spv, now) = running_update pid spv now st"
| "apply_op st (OpStopped c, now) = stopped_update c now st"
| "apply_op st (OpStatus s, now) = st\<lparr>cs_status := as_str s\<rparr>"
| "apply_op st (OpCheckpointed p, now) = checkpointed_update p now st"
| "apply_op st (OpRestored pid, now) = restored_update pid now st"

fun is_restore :: "lifecycle_op \<times> string \<Rightarrow> bool" where
  "is_restore (OpRestored _, _) = True"
| "is_restore _ = False"

lemmas update_defs = running_update_def stopped_update_def checkpointed_update_def restored_update_def

lemma lifecycle_frame:
  "cs_id (foldl apply_op st ops) = cs_id st \<and> cs_created_at (foldl apply_op st ops) = cs_created_at st
     \<and> cs_origin_host (foldl apply_op st ops) = cs_origin_host st
     \<and> cs_generation (foldl apply_op st ops) = cs_generation st + of_nat (length (filter is_restore ops))"
proof (induction ops arbitrary: st)
  case (Cons x ops)
  show ?case
    by (cases "(st, x)" rule: apply_op.cases) (simp_all add: Cons update_defs)
qed simp

text \<open>
  over any sequence of lifecycle updates the generation counts exactly the completed restores,
  at the 32-bit width of the field, while identity, creation time and origin never change; and a
  record whose last update was a completed checkpoint has neither a pid nor a supervisor left to
  signal.
\<close>
theorem generation_counts_restores:
  "cs_generation (foldl apply_op st ops) = cs_generation st + of_nat (length (filter is_restore ops))
     \<and> cs_id (foldl apply_op st ops) = cs_id st
     \<and> cs_created_at (foldl apply_op st ops) = cs_created_at st
     \<and> cs_origin_host (foldl apply_op st ops) = cs_origin_host st
     \<and> (let s = foldl apply_op st (ops @ [(OpCheckpointed p, now)])
        in cs_pid s = None \<and> cs_supervisor_pid s = None \<and> cs_is s Checkpointed \<and> cs_snapshot s = Some p)"
  using lifecycle_frame [of st ops] by (simp add: checkpointed_update_def cs_is_def)

subsection \<open>Adopting, removing and listing containers\<close>

definition config_of :: "'b senv_scheme \<Rightarrow> string \<Rightarrow> world \<Rightarrow> ContainerConfig option" where
  "config_of E cid w =
     (case fget w (resolve E (config_file (for_id E cid))) of
        Some (File b) \<Rightarrow>
          (case from_utf8 b of
             None \<Rightarrow> None
           | Some s \<Rightarrow> (case js_from (j_config E) s of Inl _ \<Rightarrow> None | Inr c \<Rightarrow> Some c))
      | _ \<Rightarrow> None)"

definition record_paths :: "'b env_scheme \<Rightarrow> string \<Rightarrow> fspath \<Rightarrow> bool" where
  "record_paths E cid q \<longleftrightarrow> q = resolve E (state_file (for_id E cid)) \<or> q = resolve E (config_file (for_id E cid))"

lemma content_of_same:
  "same_files (record_paths E cid) (fget w) t \<Longrightarrow>
     content_of E cid t = content_of E cid w \<and> config_of E cid t = config_of E cid w"
  by (simp add: same_files_def record_paths_def content_of_def config_of_def)

lemma keeps_other_dir:
  assumes "simple_name i" "simple_name j" "i \<noteq> j"
  shows "keeps (same_files (record_paths E j) g) (state_dir_init E)"
    "keeps (same_files (record_paths E j) g) (create E (for_id E i))"
    "keeps (same_files (record_paths E j) g) (save_state E (for_id E i) st)"
    "keeps (same_files (record_paths E j) g) (save_config E (for_id E i) c)"
    "keeps (same_files (record_paths E j) g) (cleanup E (for_id E i))"
  unfolding state_dir_init_def create_def save_state_def save_config_def cleanup_def forM_m.simps
  using assms
  by (intro mc_keeps mc_same; auto simp: record_paths_def resolve_for_id)+

lemma create_files:
  assumes "same_files (record_paths E cid) g w" and "\<And>q. record_paths E cid q \<Longrightarrow> g q \<noteq> None"
  shows "wp (create E (for_id E cid)) (\<lambda>_ t. same_files (record_paths E cid) g t)
     (\<lambda>_ t. same_files (record_paths E cid) g t) w"
  using assms(1)
  by (rule keeps_wp [rotated]) (unfold create_def, intro mc_keeps mc_same assms(2))

lemma save_config_spec:
  assumes "to_json (j_config E) cfg = Inr json" "json_ok (j_config E) cfg"
  shows "wp (save_config E (for_id E cid) json)
     (\<lambda>_ t. config_of E cid t = Some cfg \<and> content_of E cid t = content_of E cid w) (\<lambda>_ _. True) w"
  unfolding save_config_def wp_map_err
  by (rule wp_mono [OF fs_write_wp])
    (use assms in \<open>auto simp: config_of_def content_of_def json_ok_iff from_utf8_def from_json_Inr\<close>)

text \<open>
  adopting a container that arrived from another node. When it succeeds, the record and the
  configuration stored under its id are exactly the ones given; whatever happens, the record and
  the configuration of every other container stay as they were.
\<close>
theorem adopt_stores_record:
  fixes E :: "'b senv_scheme"
  assumes "simple_name (cs_id st)" and "json_ok (j_state E) st" and "json_ok (j_config E) cfg"
  shows "(fst (adopt E st cfg w) = Inr () \<longrightarrow>
        content_of E (cs_id st) (snd (adopt E st cfg w)) = Some st
        \<and> config_of E (cs_id st) (snd (adopt E st cfg w)) = Some cfg)
    \<and> (\<forall>j. simple_name j \<and> j \<noteq> cs_id st \<longrightarrow>
        content_of E j (snd (adopt E st cfg w)) = content_of E j w
        \<and> config_of E j (snd (adopt E st cfg w)) = config_of E j w)"
proof (intro conjI impI allI)
  obtain json where json: "to_json (j_config E) cfg = Inr json"
    using assms(3) by (auto simp: json_ok_iff)
  have "wp (save_state E (for_id E (cs_id st)) st)
      (\<lambda>_. wp (save_config E (for_id E (cs_id st)) json)
        (\<lambda>_ t. content_of E (cs_id st) t = Some st \<and> config_of E (cs_id st) t = Some cfg) (\<lambda>_ _. True))
      (\<lambda>_ _. True) u" for u
    by (rule wp_mono [OF save_state_spec])
      (use assms(2) in \<open>auto intro!: wp_mono [OF save_config_spec [OF json assms(3)]]\<close>)
  then have "wp (adopt E st cfg)
      (\<lambda>_ t. content_of E (cs_id st) t = Some st \<and> config_of E (cs_id st) t = Some cfg) (\<lambda>_ _. True) w"
    unfolding adopt_def wp_bind wp_lift json sum.case
    by (simp add: wp_def split: prod.splits sum.splits)
  moreover assume "fst (adopt E st cfg w) = Inr ()"
  ultimately show "content_of E (cs_id st) (snd (adopt E st cfg w)) = Some st"
    "config_of E (cs_id st) (snd (adopt E st cfg w)) = Some cfg"
    by (auto simp: wp_def split: prod.splits sum.splits)
next
  fix j
  assume j: "simple_name j \<and> j \<noteq> cs_id st"
  have "keeps (same_files (record_paths E j) (fget w)) (adopt E st cfg)"
    unfolding adopt_def using assms(1) j by (intro mc_keeps keeps_other_dir) auto
  then have "same_files (record_paths E j) (fget w) (snd (adopt E st cfg w))"
    by (rule keepsD) simp
  then show "content_of E j (snd (adopt E st cfg w)) = content_of E j w"
    "config_of E j (snd (adopt E st cfg w)) = config_of E j w"
    using content_of_same by blast+
qed

text \<open>
  removing a container's state directory. On success the container is unknown afterwards: it
  has no record, no configuration, and looking it up reports that it does not exist. Every other
  container keeps its record and configuration, under any pattern of I/O faults.
\<close>
theorem cleanup_forgets_container:
  fixes E :: "'b senv_scheme"
  assumes "simple_name cid"
  shows "(fst (cleanup E (for_id E cid) w) = Inr () \<longrightarrow>
        (let t = snd (cleanup E (for_id E cid) w)
         in content_of E cid t = None \<and> config_of E cid t = None
            \<and> get_container E cid t = (Inl (Config (''container '' @ cid @ '' not found'')), t)))
    \<and> (\<forall>j. simple_name j \<and> j \<noteq> cid \<longrightarrow>
        content_of E j (snd (cleanup E (for_id E cid) w)) = content_of E j w
        \<and> config_of E j (snd (cleanup E (for_id E cid) w)) = config_of E j w)"
proof (intro conjI impI allI)
  let ?d = "resolve E (sd_root (for_id E cid))"
  have "wp (cleanup E (for_id E cid)) (\<lambda>_ t. \<forall>q. under ?d q \<longrightarrow> fget t q = None) (\<lambda>_ _. True) w"
    unfolding cleanup_def wp_map_err by (rule wp_mono [OF fs_remove_dir_all_wp]) simp_all
  moreover assume "fst (cleanup E (for_id E cid) w) = Inr ()"
  ultimately have "\<forall>q. under ?d q \<longrightarrow> fget (snd (cleanup E (for_id E cid) w)) q = None"
    by (auto simp: wp_def split: prod.splits sum.splits)
  then show "let t = snd (cleanup E (for_id E cid) w)
     in content_of E cid t = None \<and> config_of E cid t = None
        \<and> get_container E cid t = (Inl (Config (''container '' @ cid @ '' not found'')), t)"
    by (simp add: content_of_def config_of_def get_container_def dir_exists_def path_exists_def
        bind_m_def get_m_def throw_m_def)
next
  fix j
  assume "simple_name j \<and> j \<noteq> cid"
  then have "same_files (record_paths E j) (fget w) (snd (cleanup E (for_id E cid) w))"
    using assms by (intro keepsD [OF keeps_other_dir(5)]) auto
  then show "content_of E j (snd (cleanup E (for_id E cid) w)) = content_of E j w"
    "config_of E j (snd (cleanup E (for_id E cid) w)) = config_of E j w"
    using content_of_same by blast+
qed

definition listed :: "'b senv_scheme \<Rightarrow> world \<Rightarrow> string \<Rightarrow> ContainerState option" where
  "listed E w n =
     (if is_dir w (resolve E (containers_root E) @ [n]) \<and> from_utf8 (as_bytes n) \<noteq> None
        \<and> \<not> starts_with ''.'' n then content_of E n w else None)"

lemma get_container_spec:
  assumes "no_faults E" and "is_dir w (resolve E (sd_root (for_id E cid)))"
  shows "wp (get_container E cid) (\<lambda>st t. content_of E cid w = Some st \<and> fget t = fget w)
     (\<lambda>_ t. content_of E cid w = None \<and> fget t = fget w) w"
proof (cases "content_of E cid w")
  case None
  then show ?thesis
    unfolding get_container_def dir_exists_def
    by (simp add: wp_conj) (auto intro!: wp_mono [OF load_state_spec])
next
  case (Some st)
  with assms(2) show ?thesis
    unfolding get_container_def dir_exists_def
    by (auto simp: path_exists_def is_dir_def intro!: wp_mono [OF load_state_live [OF assms(1) Some]])
qed

lemma list_entries_spec:
  assumes "no_faults E" and "list_all simple_name ns" and "fget u = fget w"
  shows "wp (list_entries E ns) (\<lambda>xs t. xs = List.map_filter (listed E w) ns \<and> fget t = fget w) (\<lambda>_ _. False) u"
  using assms(2,3)
proof (induction ns arbitrary: u)
  case Nil
  then show ?case by (simp add: map_filter_def)
next
  case (Cons n ns)
  show ?case
  proof (cases "is_dir w (resolve E (containers_root E) @ [n]) \<and> from_utf8 (as_bytes n) \<noteq> None
      \<and> \<not> starts_with ''.'' n")
    case False
    then have "listed E w n = None" by (auto simp: listed_def)
    with False Cons show ?thesis by (auto simp: is_dir_def map_filter_def)
  next
    case True
    have IH: "wp (list_entries E ns) (\<lambda>xs t. xs = List.map_filter (listed E w) ns \<and> fget t = fget w)
        (\<lambda>_ _. False) t" if "fget t = fget w" for t
      using Cons that by simp
    have c: "content_of E n u = listed E w n"
      using True Cons.prems by (simp add: listed_def content_of_def)
    have "is_dir u (resolve E (sd_root (for_id E n)))"
      using True Cons.prems by (simp add: resolve_for_id is_dir_def)
    note get = get_container_spec [OF assms(1) this, unfolded c]
    have "(is_dir u (resolve E (containers_root E) @ [n]) \<and> from_utf8 (as_bytes n) \<noteq> None
      \<and> \<not> starts_with ''.'' n) = True"
      using True Cons.prems by (simp add: is_dir_def)
    then show ?thesis
      by (simp only: list_entries.simps wp_bind wp_get if_True wp_try wp_return)
        (rule wp_mono [OF get]; use Cons.prems in \<open>auto simp: map_filter_def intro!: wp_mono [OF IH]\<close>)
  qed
qed

text \<open>
  the listing behind \<^verbatim>\<open>ps\<close> and \<^verbatim>\<open>reconcile\<close>. On a host whose I/O does not fail it returns the
  loadable records of exactly the visible container directories, in directory order; hidden
  entries, plain files and damaged records are skipped, never an error. A missing state root is an
  empty list.
\<close>
theorem list_all_is_every_visible_record:
  fixes E :: "'b senv_scheme"
  assumes "no_faults E" and "list_all simple_name (dir_names w (resolve E (containers_root E)))"
    and "\<not> is_file w (resolve E (containers_root E))"
  shows "fst (list_all_containers E w) =
     Inr (if is_dir w (resolve E (containers_root E))
          then List.map_filter (listed E w) (dir_names w (resolve E (containers_root E))) else [])"
proof (cases "is_dir w (resolve E (containers_root E))")
  case False
  with assms(3) have "fget w (resolve E (containers_root E)) = None"
    by (auto simp: is_dir_def is_file_def split: option.splits node.splits)
  with False show ?thesis
    by (simp add: list_all_containers_def path_exists_def bind_m_def get_m_def return_m_def)
next
  case True
  have "wp (list_all_containers E)
     (\<lambda>xs _. xs = List.map_filter (listed E w) (dir_names w (resolve E (containers_root E)))) (\<lambda>_ _. False) w"
    using True unfolding list_all_containers_def
    by (simp add: path_exists_def is_dir_def)
      (rule wp_mono [OF fs_read_dir_live [OF assms(1) True]];
       auto intro!: wp_mono [OF list_entries_spec [OF assms(1,2)]])
  with True show ?thesis
    by (auto simp: wp_def split: prod.splits sum.splits)
qed

section \<open>A concrete host\<close>

text \<open>
  A host with one running container, no I/O faults, a kernel that never reacts and a toy coding of
  records that keeps only the status: enough to instantiate the hypotheses above.
\<close>

definition demo_state :: ContainerState where
  "demo_state = (ContainerState_new ''t0'' ''c1'')\<lparr>cs_status := as_str Running, cs_pid := Some 42\<rparr>"

definition demo_config :: ContainerConfig where
  "demo_config = ContainerConfig_new ''c1'' ''/rootfs'' [''sh'']"

definition demo_senv :: senv where
  "demo_senv =
     \<lparr>faulty = \<lambda>_. None, read_len = \<lambda>_. 1000, now_at = \<lambda>k. k, mono_ms = \<lambda>k. 5 * k, ms_at = \<lambda>_ _. 0, e_home = Some ''/h'', e_cwd = [],
      e_arch = ''x86_64'', e_hostname = Some ''node'', e_osrelease = Some ''6.1.0'', e_self_ns = \<lambda>_. None,
      k_kill = \<lambda>_ _ k. k, k_reap = \<lambda>_ k. k, k_sleep = \<lambda>k. k, k_exec = \<lambda>_ _ k. (Inl ''not installed'', k),
      k_cg_mkdir = \<lambda>_ k. (Inr (), k), k_cg_rmdir = \<lambda>_ k. (Inr (), k), k_cg_write = \<lambda>_ _ k. (Inr (), k),
      k_cg_read = \<lambda>_ _. None,
      j_state = \<lparr>js_to = \<lambda>st. Inr (cs_status st), js_from = \<lambda>s. Inr (demo_state\<lparr>cs_status := s\<rparr>)\<rparr>,
      j_config = \<lparr>js_to = \<lambda>_. Inr ''{}'', js_from = \<lambda>_. Inr demo_config\<rparr>\<rparr>"

definition demo_dir :: fspath where
  "demo_dir = [''h'', ''.mincontainer'', ''containers'']"

definition demo_world :: world where
  "demo_world =
     \<lparr>fs = [([], Dir), ([''h''], Dir), ([''h'', ''.mincontainer''], Dir), (demo_dir, Dir),
            (demo_dir @ [''c1''], Dir), (demo_dir @ [''c1'', ''state.json''], File (as_bytes ''running''))],
      procs = \<lambda>_. None, cgs = \<lambda>_. None, tick = 0, events = []\<rparr>"

lemma demo_no_faults [simp]: "no_faults demo_senv"
  by (simp add: no_faults_def demo_senv_def)

lemma demo_paths:
  "resolve demo_senv (containers_root demo_senv) = demo_dir"
  "resolve demo_senv (sd_root (for_id demo_senv ''c1'')) = demo_dir @ [''c1'']"
  by code_simp+

lemma demo_content: "content_of demo_senv ''c1'' demo_world = Some demo_state"
  by code_simp

lemma demo_json: "utf8_valid (as_bytes s) \<Longrightarrow> json_ok (j_state demo_senv) (demo_state\<lparr>cs_status := s\<rparr>)"
  by (simp add: json_ok_def demo_senv_def)

theorem update_replaces_one_record_witness:
  "fst (update_at demo_senv ''c1'' (\<lambda>_ st. st\<lparr>cs_status := as_str Checkpointing\<rparr>) demo_world) = Inr ()"
proof -
  have "utf8_valid (as_bytes (as_str Checkpointing))" "simple_name ''c1''"
    "is_dir demo_world (demo_dir @ [''c1''])"
    by code_simp+
  then show ?thesis
    using update_replaces_one_record [of "''c1''" demo_senv demo_world
        "\<lambda>_ st. st\<lparr>cs_status := as_str Checkpointing\<rparr>"]
    by (simp add: demo_json demo_content demo_paths)
qed

theorem adopt_stores_record_witness:
  "content_of demo_senv ''c1'' (snd (adopt demo_senv demo_state demo_config demo_world)) = Some demo_state"
proof -
  have "simple_name (cs_id demo_state)" "json_ok (j_state demo_senv) demo_state"
    "json_ok (j_config demo_senv) demo_config" "cs_id demo_state = ''c1''"
    "isl (fst (adopt demo_senv demo_state demo_config demo_world)) = False"
    by code_simp+
  then show ?thesis
    using adopt_stores_record [of demo_state demo_senv demo_config demo_world]
    by (cases "fst (adopt demo_senv demo_state demo_config demo_world)") auto
qed

theorem cleanup_forgets_container_witness:
  "content_of demo_senv ''c1'' (snd (cleanup demo_senv (for_id demo_senv ''c1'') demo_world)) = None"
proof -
  have "simple_name ''c1''" "isl (fst (cleanup demo_senv (for_id demo_senv ''c1'') demo_world)) = False"
    by code_simp+
  then show ?thesis
    using cleanup_forgets_container [of "''c1''" demo_senv demo_world]
    by (cases "fst (cleanup demo_senv (for_id demo_senv ''c1'') demo_world)") (auto simp: Let_def)
qed

theorem list_all_is_every_visible_record_witness:
  "fst (list_all_containers demo_senv demo_world) = Inr [demo_state]"
proof -
  have "list_all simple_name (dir_names demo_world demo_dir)" "\<not> is_file demo_world demo_dir"
    "is_dir demo_world demo_dir"
    "List.map_filter (listed demo_senv demo_world) (dir_names demo_world demo_dir) = [demo_state]"
    by code_simp+
  then show ?thesis
    using list_all_is_every_visible_record [of demo_senv demo_world] by (simp add: demo_paths)
qed

end
