(* ===== verification/Snapshot.thy ===== *)
theory Snapshot
  imports Crc32 State
begin

text \<open>
  \<^verbatim>\<open>src/snapshot.rs\<close>: the \<^verbatim>\<open>.mcsnap\<close> container format, its writer and its reader. A writer
  streams entries into a scratch file and then assembles the final file; a reader parses the
  header, checks the whole-file checksum and unpacks entries below a directory. Buffered writers
  are transparent: their bytes are in the file when the call returns. An open snapshot is the
  content its file had when it was opened. Error texts keep the source's leading words.
\<close>

section \<open>Manifest\<close>

record EntryMeta =
  em_name :: string
  em_len :: u64
  em_crc32 :: u32

record CgroupSnapshot =
  cg_memory_max :: string
  cg_memory_peak :: u64
  cg_cpu_max :: string
  cg_pids_max :: string
  cg_cpu_usage_usec :: u64

record NamespaceSnapshot =
  ns_pid :: "u64 option"
  ns_mnt :: "u64 option"
  ns_net :: "u64 option"
  ns_uts :: "u64 option"
  ns_ipc :: "u64 option"

record MountEntry =
  me_mount_point :: string
  me_fs_type :: string
  me_source :: string
  me_options :: string

record FdEntry =
  fe_fd :: int
  fe_target :: string

text \<open>The dump time is an \<^verbatim>\<open>f64\<close>, kept as its bit pattern.\<close>

record Manifest =
  mf_format_version :: u32
  mf_producer :: string
  mf_engine :: string
  mf_engine_version :: string
  mf_created_at :: string
  mf_source_host :: string
  mf_source_arch :: string
  mf_source_kernel :: string
  mf_container_id :: string
  mf_config :: ContainerConfig
  mf_lifecycle :: ContainerState
  mf_cgroup :: CgroupSnapshot
  mf_namespaces :: NamespaceSnapshot
  mf_mounts :: "MountEntry list"
  mf_open_fds :: "FdEntry list"
  mf_checkpoint_pid :: int
  mf_dump_ms :: u64
  mf_entries :: "EntryMeta list"

definition payload_bytes :: "Manifest \<Rightarrow> u64" where
  "payload_bytes m = sum_list (map em_len (mf_entries m))"

record snenv = senv +
  j_manifest :: "Manifest json"

section \<open>Constants\<close>

definition MAGIC :: bytes where "MAGIC = as_bytes ''MCSNAP'' @ [0, 1]"
definition TRAILER :: bytes where "TRAILER = as_bytes ''MCSNAPED''"
definition FORMAT_VERSION :: u32 where "FORMAT_VERSION = 1"
definition MAX_MANIFEST :: u32 where "MAX_MANIFEST = 8 * 1024 * 1024"

definition snap_err :: "string \<Rightarrow> 'a sys \<Rightarrow> 'a io" where
  "snap_err what m = map_err_m (\<lambda>e. Snapshot (what @ '': '' @ e)) m"

section \<open>Writing\<close>

record SnapshotWriter =
  sw_scratch_path :: fspath
  sw_scratch :: bool
  sw_entries :: "EntryMeta list"

definition SnapshotWriter_new :: "'b env_scheme \<Rightarrow> string \<Rightarrow> SnapshotWriter io" where
  "SnapshotWriter_new E dest =
     (let scratch = resolve E (with_extension dest ''mcsnap.part'')
      in bind_m (case path_parent E dest of
                   Some parent \<Rightarrow> snap_err ''mkdir'' (fs_create_dir_all E parent)
                 | None \<Rightarrow> return_m ()) (\<lambda>_.
         bind_m (snap_err ''create'' (fs_write E scratch [])) (\<lambda>_.
         return_m \<lparr>sw_scratch_path = scratch, sw_scratch = True, sw_entries = []\<rparr>)))"

lemma snap_read_nonempty: "snap_err what (fd_read E n src) w = (Inr c, t) \<Longrightarrow> c \<noteq> [] \<Longrightarrow> src \<noteq> []"
  by (auto simp: snap_err_def map_err_m_def split: prod.splits sum.splits dest: fd_read_nonempty)

text \<open>Copy from a source until it is exhausted, checksumming and counting what is written.\<close>

function copy_until_eof ::
  "'b env_scheme \<Rightarrow> nat \<Rightarrow> string \<Rightarrow> string \<Rightarrow> fspath \<Rightarrow> bytes \<Rightarrow> Crc32 \<Rightarrow> u64 \<Rightarrow> (Crc32 \<times> u64) io" where
  "copy_until_eof E buf rd_what wr_what dst src crc copied w =
     bind_m (snap_err rd_what (fd_read E buf src)) (\<lambda>chunk u.
       if chunk = [] then return_m (crc, copied) u
       else bind_m (snap_err wr_what (fs_append E dst chunk)) (\<lambda>_ v.
            copy_until_eof E buf rd_what wr_what dst (drop (length chunk) src)
              (crc32_update crc chunk) (copied + word_of_nat (length chunk)) v) u) w"
  by auto

termination
  by (relation "measure (\<lambda>(_, _, _, _, _, src, _). length src)") (auto dest: snap_read_nonempty)

definition write_entry ::
  "'b env_scheme \<Rightarrow> SnapshotWriter \<Rightarrow> string \<Rightarrow> u64 \<Rightarrow> bytes \<Rightarrow> SnapshotWriter io" where
  "write_entry E sw name len src =
     (if list_ex (\<lambda>e. em_name e = name) (sw_entries sw)
      then throw_m (Snapshot (''duplicate entry '' @ name))
      else if \<not> sw_scratch sw then throw_m (Snapshot ''snapshot writer already finished'')
      else
        bind_m (snap_err (''write entry header '' @ name)
          (bind_m (fs_append E (sw_scratch_path sw) (u32_to_le (word_of_nat (length name)))) (\<lambda>_.
           bind_m (fs_append E (sw_scratch_path sw) (as_bytes name)) (\<lambda>_.
           fs_append E (sw_scratch_path sw) (u64_to_le len))))) (\<lambda>_.
        bind_m (copy_until_eof E (256 * 1024) (''read '' @ name) (''write '' @ name)
                  (sw_scratch_path sw) src crc32_new 0) (\<lambda>(crc, copied).
        if copied \<noteq> len then throw_m (Snapshot (name @ '': declared length differs from bytes read''))
        else return_m (sw\<lparr>sw_entries := sw_entries sw
               @ [\<lparr>em_name = name, em_len = len, em_crc32 = crc32_finish crc\<rparr>]\<rparr>))))"

definition add_file :: "'b env_scheme \<Rightarrow> SnapshotWriter \<Rightarrow> string \<Rightarrow> string \<Rightarrow> SnapshotWriter io" where
  "add_file E sw name src =
     bind_m (snap_err (''open '' @ src) (fs_read E (resolve E src))) (\<lambda>content.
     bind_m (snap_err (''stat '' @ src) (io_touch E)) (\<lambda>_.
     write_entry E sw name (word_of_nat (length content)) content))"

definition add_bytes :: "'b env_scheme \<Rightarrow> SnapshotWriter \<Rightarrow> string \<Rightarrow> bytes \<Rightarrow> SnapshotWriter io" where
  "add_bytes E sw name data = write_entry E sw name (word_of_nat (length data)) data"

text \<open>\<^verbatim>\<open>write_all\<close> through the checksumming writer, onto the destination file.\<close>

definition crc_append :: "'b env_scheme \<Rightarrow> fspath \<Rightarrow> bytes \<Rightarrow> Crc32 \<Rightarrow> Crc32 sys" where
  "crc_append E p b crc = bind_m (fs_append E p b) (\<lambda>_. return_m (crc32_update crc b))"

definition SnapshotWriter_drop :: "'b env_scheme \<Rightarrow> SnapshotWriter \<Rightarrow> (world, 'e, unit) eio" where
  "SnapshotWriter_drop E sw = ignore_m (fs_remove_file E (sw_scratch_path sw))"

definition finish_body ::
  "'b snenv_scheme \<Rightarrow> SnapshotWriter \<Rightarrow> string \<Rightarrow> (EntryMeta list \<Rightarrow> Manifest) \<Rightarrow> Manifest io" where
  "finish_body E sw dest build_manifest =
     (if \<not> sw_scratch sw then throw_m (Snapshot ''snapshot writer already finished'')
      else
        bind_m (snap_err ''flush scratch'' (io_touch E)) (\<lambda>_.
        let manifest = build_manifest (sw_entries sw); d = resolve E dest in
        bind_m (lift_m (to_json (j_manifest E) manifest)) (\<lambda>json.
        if MAX_MANIFEST < word_of_nat (length json)
        then throw_m (Snapshot ''manifest too large'')
        else
          bind_m (snap_err (''create '' @ dest) (fs_write E d [])) (\<lambda>_.
          bind_m (snap_err ''write header''
            (bind_m (crc_append E d MAGIC crc32_new) (\<lambda>c.
             bind_m (crc_append E d (u32_to_le (word_of_nat (length json))) c) (\<lambda>c.
             crc_append E d (as_bytes json) c)))) (\<lambda>c.
          bind_m (snap_err ''reopen scratch'' (fs_read E (sw_scratch_path sw))) (\<lambda>payload.
          bind_m (copy_until_eof E (8 * 1024) ''copy payload'' ''copy payload'' d payload c 0) (\<lambda>(c, _).
          bind_m (snap_err ''write trailer'' (crc_append E d TRAILER c)) (\<lambda>c.
          bind_m (snap_err ''write crc'' (fs_append E d (u32_to_le (crc32_finish c)))) (\<lambda>_.
          bind_m (snap_err ''flush'' (io_touch E)) (\<lambda>_.
          bind_m (ignore_m (fs_remove_file E (sw_scratch_path sw))) (\<lambda>_.
          return_m manifest)))))))))))"

text \<open>\<^verbatim>\<open>finish\<close> consumes the writer, so its drop runs on every way out.\<close>

definition finish ::
  "'b snenv_scheme \<Rightarrow> SnapshotWriter \<Rightarrow> string \<Rightarrow> (EntryMeta list \<Rightarrow> Manifest) \<Rightarrow> Manifest io" where
  "finish E sw dest build_manifest =
     bind_m (try_m (finish_body E sw dest build_manifest)) (\<lambda>r.
     bind_m (SnapshotWriter_drop E sw) (\<lambda>_. lift_m r))"

section \<open>Reading\<close>

record SnapshotReader =
  sr_file :: bytes
  sr_manifest :: Manifest
  sr_payload_start :: nat
  sr_payload_end :: nat
  sr_stored_crc :: u32

text \<open>The trailer, once the manifest has been read.\<close>

definition open_trailer :: "'b env_scheme \<Rightarrow> bytes \<Rightarrow> nat \<Rightarrow> Manifest \<Rightarrow> SnapshotReader io" where
  "open_trailer E file mlen manifest =
     (let payload_start = length MAGIC + 4 + mlen;
          payload_end = length file - (length TRAILER + 4) in
      if payload_end < payload_start
      then throw_m (Snapshot ''truncated snapshot: payload ends before it begins'')
      else
        bind_m (snap_err ''seek trailer'' (io_touch E)) (\<lambda>_.
        bind_m (snap_err ''read trailer'' (read_exact E 8 (drop payload_end file))) (\<lambda>(tr, f3).
        bind_m (snap_err ''read trailer'' (read_exact E 4 f3)) (\<lambda>(crcb, _).
        if tr \<noteq> TRAILER then throw_m (Snapshot ''missing trailer'')
        else return_m
          \<lparr>sr_file = file, sr_manifest = manifest, sr_payload_start = payload_start,
           sr_payload_end = payload_end, sr_stored_crc = u32_from_le crcb\<rparr>))))"

text \<open>Everything after the file has been opened.\<close>

definition open_file :: "'b snenv_scheme \<Rightarrow> string \<Rightarrow> bytes \<Rightarrow> SnapshotReader io" where
  "open_file E path file =
     bind_m (snap_err (''stat '' @ path) (io_touch E)) (\<lambda>_.
     let total = length file in
     if total < length MAGIC + 4 + length TRAILER + 4
     then throw_m (Snapshot (path @ '': too small to be a snapshot''))
     else
       bind_m (snap_err ''read magic'' (read_exact E 8 file)) (\<lambda>(magic, f1).
       if take 6 magic \<noteq> as_bytes ''MCSNAP''
       then throw_m (Snapshot (path @ '': not a mincontainer snapshot (bad magic)''))
       else if magic \<noteq> MAGIC then throw_m (Snapshot (path @ '': snapshot format''))
       else
         bind_m (snap_err ''read manifest length'' (read_exact E 4 f1)) (\<lambda>(lenb, f2).
         let mlen = u32_from_le lenb in
         if MAX_MANIFEST < mlen \<or> total < unat mlen
         then throw_m (Snapshot ''implausible manifest length'')
         else
           bind_m (snap_err ''read manifest'' (read_exact E (unat mlen) f2)) (\<lambda>(mbuf, _).
           case js_from (j_manifest E) (of_bytes mbuf) of
             Inl e \<Rightarrow> throw_m (Snapshot (''manifest is not valid JSON: '' @ e))
           | Inr manifest \<Rightarrow> open_trailer E file (unat mlen) manifest))))"

definition snapshot_open :: "'b snenv_scheme \<Rightarrow> string \<Rightarrow> SnapshotReader io" where
  "snapshot_open E path =
     bind_m (snap_err (''open '' @ path) (fs_read E (resolve E path))) (open_file E path)"

function verify_loop :: "'b env_scheme \<Rightarrow> bytes \<Rightarrow> nat \<Rightarrow> Crc32 \<Rightarrow> Crc32 io" where
  "verify_loop E f remaining crc w =
     (if remaining = 0 then return_m crc w
      else bind_m (snap_err ''read'' (fd_read E (min (256 * 1024) remaining) f)) (\<lambda>chunk u.
        if chunk = [] then throw_m (Snapshot ''truncated snapshot'') u
        else verify_loop E (drop (length chunk) f) (remaining - length chunk) (crc32_update crc chunk) u) w)"
  by auto

termination
  by (relation "measure (\<lambda>(_, _, remaining, _). remaining)") auto

definition verify :: "'b env_scheme \<Rightarrow> SnapshotReader \<Rightarrow> unit io" where
  "verify E r =
     bind_m (snap_err ''seek'' (io_touch E)) (\<lambda>_.
     bind_m (verify_loop E (sr_file r) (sr_payload_end r + length TRAILER) crc32_new) (\<lambda>crc.
     if crc32_finish crc \<noteq> sr_stored_crc r
     then throw_m (Snapshot ''checksum mismatch: snapshot is corrupt'')
     else return_m ()))"

definition read_entry_header :: "'b env_scheme \<Rightarrow> bytes \<Rightarrow> ((string \<times> u64) \<times> bytes) io" where
  "read_entry_header E f =
     bind_m (snap_err ''read entry name length'' (read_exact E 4 f)) (\<lambda>(nb, f1).
     let nlen = u32_from_le nb in
     if nlen = 0 \<or> 4096 < nlen then throw_m (Snapshot ''implausible entry name length'')
     else
       bind_m (snap_err ''read entry name'' (read_exact E (unat nlen) f1)) (\<lambda>(nameb, f2).
       case from_utf8 nameb of
         None \<Rightarrow> throw_m (Snapshot ''entry name is not UTF-8'')
       | Some name \<Rightarrow>
           bind_m (snap_err ''read entry length'' (read_exact E 8 f2)) (\<lambda>(lb, f3).
           return_m ((name, u64_from_le lb), f3))))"

definition is_normal :: "Component \<Rightarrow> bool" where
  "is_normal c = (case c of Normal _ \<Rightarrow> True | _ \<Rightarrow> False)"

definition safe_join :: "string \<Rightarrow> string \<Rightarrow> string result" where
  "safe_join dir name =
     (if is_absolute name then Inl (Snapshot (''absolute entry name '' @ name))
      else if \<not> list_all is_normal (components name)
      then Inl (Snapshot (''entry name '' @ name @ '' escapes the snapshot root''))
      else Inr (path_join dir name))"

function extract_loop ::
  "'b env_scheme \<Rightarrow> string \<Rightarrow> fspath \<Rightarrow> bytes \<Rightarrow> nat \<Rightarrow> Crc32 \<Rightarrow> (Crc32 \<times> bytes) io" where
  "extract_loop E name dst f remaining crc w =
     (if remaining = 0 then return_m (crc, f) w
      else bind_m (snap_err (''read '' @ name) (fd_read E (min (256 * 1024) remaining) f)) (\<lambda>chunk u.
        if chunk = [] then throw_m (Snapshot (''truncated entry '' @ name)) u
        else bind_m (snap_err ''write'' (fs_append E dst chunk)) (\<lambda>_ v.
          extract_loop E name dst (drop (length chunk) f) (remaining - length chunk)
            (crc32_update crc chunk) v) u) w)"
  by auto

termination
  by (relation "measure (\<lambda>(_, _, _, _, remaining, _). remaining)") auto

text \<open>The data of one entry, streamed into its file.\<close>

definition extract_data :: "'b env_scheme \<Rightarrow> EntryMeta \<Rightarrow> string \<Rightarrow> u64 \<Rightarrow> bytes \<Rightarrow> string \<Rightarrow> bytes io" where
  "extract_data E meta name len f1 dest =
     bind_m (snap_err (''create '' @ dest) (fs_write E (resolve E dest) [])) (\<lambda>_.
     bind_m (extract_loop E name (resolve E dest) f1 (unat len) crc32_new) (\<lambda>(crc, f2).
     bind_m (snap_err (''flush '' @ dest) (io_touch E)) (\<lambda>_.
     if crc32_finish crc \<noteq> em_crc32 meta
     then throw_m (Snapshot (''entry '' @ name @ '': checksum mismatch''))
     else return_m f2)))"

text \<open>One entry, after its header.\<close>

definition extract_body :: "'b env_scheme \<Rightarrow> string \<Rightarrow> EntryMeta \<Rightarrow> string \<Rightarrow> u64 \<Rightarrow> bytes \<Rightarrow> bytes io" where
  "extract_body E dir meta name len f1 =
     (if name \<noteq> em_name meta \<or> len \<noteq> em_len meta
      then throw_m (Snapshot ''manifest/payload disagree'')
      else
        bind_m (lift_m (safe_join dir name)) (\<lambda>dest.
        bind_m (case path_parent E dest of
                  Some parent \<Rightarrow> snap_err ''mkdir'' (fs_create_dir_all E parent)
                | None \<Rightarrow> return_m ()) (\<lambda>_.
        extract_data E meta name len f1 dest)))"

definition extract_one :: "'b env_scheme \<Rightarrow> string \<Rightarrow> EntryMeta \<Rightarrow> bytes \<Rightarrow> bytes io" where
  "extract_one E dir meta f =
     bind_m (read_entry_header E f) (\<lambda>((name, len), f1). extract_body E dir meta name len f1)"

primrec extract_entries :: "'b env_scheme \<Rightarrow> string \<Rightarrow> EntryMeta list \<Rightarrow> bytes \<Rightarrow> unit io" where
  "extract_entries E dir [] f = return_m ()"
| "extract_entries E dir (meta # metas) f =
     bind_m (extract_one E dir meta f) (\<lambda>f'. extract_entries E dir metas f')"

definition extract_all :: "'b env_scheme \<Rightarrow> SnapshotReader \<Rightarrow> string \<Rightarrow> unit io" where
  "extract_all E r dir =
     bind_m (snap_err (''mkdir '' @ dir) (fs_create_dir_all E (resolve E dir))) (\<lambda>_.
     bind_m (snap_err ''seek payload'' (io_touch E)) (\<lambda>_.
     extract_entries E dir (mf_entries (sr_manifest r)) (drop (sr_payload_start r) (sr_file r))))"

end
