(* ===== verification/Snapshot_Read.thy ===== *)
theory Snapshot_Read
  imports Snapshot
begin

text \<open>
  What the snapshot reader computes: opening and verifying implement pure functions of the file's
  bytes, entry headers are a self-delimiting codec, extraction never leaves its directory and
  reproduces the entries, and a damaged file is refused.
\<close>

declare copy_until_eof.simps [simp del] verify_loop.simps [simp del] extract_loop.simps [simp del]

lemma wp_snap_err [simp]: "wp (snap_err what m) Q R w = wp m Q (\<lambda>e. R (Snapshot (what @ '': '' @ e))) w"
  by (simp add: snap_err_def)

lemma wp_seq_snap:
  "wp m Q' (\<lambda>_ _. N) s \<Longrightarrow> (\<And>a t. Q' a t \<Longrightarrow> wp (f a) Q (\<lambda>_ _. N) t) \<Longrightarrow> wp (bind_m (snap_err what m) f) Q (\<lambda>_ _. N) s"
  by (simp only: wp_bind wp_snap_err) (erule wp_mono)

lemma implements_snap_err [mc_impl]:
  "implements E m r \<Longrightarrow>
     implements E (snap_err what m) (case r of Inl e \<Rightarrow> Inl (Snapshot (what @ '': '' @ e)) | Inr a \<Rightarrow> Inr a)"
  unfolding snap_err_def by (rule implements_map_err)

lemma keeps_snap_err [mc_keeps]: "keeps P m \<Longrightarrow> keeps P (snap_err what m)"
  unfolding snap_err_def by (rule keeps_map_err)

lemma crc32_update_append: "crc32_update (crc32_update c xs) ys = crc32_update c (xs @ ys)"
  by (cases c) simp

section \<open>What reading computes\<close>

definition parse_trailer :: "bytes \<Rightarrow> nat \<Rightarrow> Manifest \<Rightarrow> SnapshotReader result" where
  "parse_trailer b n m =
     (let tail = drop (length b - 12) b in
      if length b - 12 < 12 + n then Inl (Snapshot ''truncated snapshot: payload ends before it begins'')
      else if take 8 tail \<noteq> TRAILER then Inl (Snapshot ''missing trailer'')
      else Inr \<lparr>sr_file = b, sr_manifest = m, sr_payload_start = 12 + n, sr_payload_end = length b - 12,
                sr_stored_crc = u32_from_le (take 4 (drop 8 tail))\<rparr>)"

definition parse_snapshot :: "Manifest json \<Rightarrow> string \<Rightarrow> bytes \<Rightarrow> SnapshotReader result" where
  "parse_snapshot J path b =
     (let total = length b; mlen = u32_from_le (take 4 (drop 8 b)) in
      if total < 24 then Inl (Snapshot (path @ '': too small to be a snapshot''))
      else if take 6 b \<noteq> as_bytes ''MCSNAP''
      then Inl (Snapshot (path @ '': not a mincontainer snapshot (bad magic)''))
      else if take 8 b \<noteq> MAGIC then Inl (Snapshot (path @ '': snapshot format''))
      else if MAX_MANIFEST < mlen \<or> total < unat mlen then Inl (Snapshot ''implausible manifest length'')
      else if total - 12 < unat mlen then Inl (Snapshot ''read manifest: failed to fill whole buffer'')
      else case js_from J (of_bytes (take (unat mlen) (drop 12 b))) of
        Inl e \<Rightarrow> Inl (Snapshot (''manifest is not valid JSON: '' @ e))
      | Inr m \<Rightarrow> parse_trailer b (unat mlen) m)"

lemma length_MAGIC [simp]: "length MAGIC = 8" "length TRAILER = 8"
  by (simp_all add: MAGIC_def TRAILER_def)

lemma implements_bind_exact:
  assumes "n \<le> length rest" and "implements E (f (take n rest, drop n rest)) r"
  shows "implements E (bind_m (snap_err what (read_exact E n rest)) f) r"
proof -
  have "implements E (snap_err what (read_exact E n rest)) (Inr (take n rest, drop n rest))"
    using implements_snap_err [OF implements_read_exact [of E n rest], of what] assms(1) by simp
  from implements_bind [OF this, of f "\<lambda>_. r"] assms(2) show ?thesis by simp
qed

lemma implements_bind_short:
  assumes "length rest < n"
  shows "implements E (bind_m (snap_err what (read_exact E n rest)) f)
     (Inl (Snapshot (what @ '': failed to fill whole buffer'')))"
proof -
  have "implements E (snap_err what (read_exact E n rest)) (Inl (Snapshot (what @ '': failed to fill whole buffer'')))"
    using implements_snap_err [OF implements_read_exact [of E n rest], of what] assms(1) by simp
  from implements_bind [OF this, of f "\<lambda>_. undefined"] show ?thesis by simp
qed

lemma implements_bind_touch:
  assumes "implements E (f ()) r"
  shows "implements E (bind_m (snap_err what (io_touch E)) f) r"
  using implements_bind [OF implements_snap_err [OF implements_touch [of E], of what], of f "\<lambda>_. r"] assms
  by simp

lemma implements_if [mc_impl]:
  "(b \<Longrightarrow> implements E m r) \<Longrightarrow> (\<not> b \<Longrightarrow> implements E m' r') \<Longrightarrow>
     implements E (if b then m else m') (if b then r else r')"
  by simp

lemma open_trailer_implements:
  assumes "24 \<le> length b"
  shows "implements E (open_trailer E b n m) (parse_trailer b n m)"
proof (cases "length b - 12 < 12 + n")
  case True
  then show ?thesis
    by (simp add: open_trailer_def parse_trailer_def implements_throw)
next
  case False
  define tail where "tail = drop (length b - 12) b"
  have len: "8 \<le> length tail" "4 \<le> length (drop 8 tail)"
    using assms by (simp_all add: tail_def)
  have "implements E (bind_m (snap_err ''read trailer'' (read_exact E 8 tail)) (\<lambda>(tr, f3).
        bind_m (snap_err ''read trailer'' (read_exact E 4 f3)) (\<lambda>(crcb, _).
        if tr \<noteq> TRAILER then throw_m (Snapshot ''missing trailer'')
        else return_m
          \<lparr>sr_file = b, sr_manifest = m, sr_payload_start = 12 + n,
           sr_payload_end = length b - 12, sr_stored_crc = u32_from_le crcb\<rparr>)))
     (parse_trailer b n m)"
    by (rule implements_bind_exact [OF len(1)], unfold prod.case, rule implements_bind_exact [OF len(2)])
      (use False in \<open>simp add: parse_trailer_def Let_def tail_def implements_throw implements_return del: drop_drop\<close>)
  with False show ?thesis
    by (simp add: open_trailer_def Let_def tail_def implements_bind_touch)
qed

lemma read_manifest_implements:
  assumes "\<not> (length b < 24 \<or> take 6 b \<noteq> as_bytes ''MCSNAP'' \<or> take 8 b \<noteq> MAGIC)"
    and mlen: "mlen = u32_from_le (take 4 (drop 8 b))"
    and "\<not> (MAX_MANIFEST < mlen \<or> length b < unat mlen)"
  shows "implements E (bind_m (snap_err ''read manifest'' (read_exact E (unat mlen) (drop 12 b))) (\<lambda>(mbuf, _).
           case js_from (j_manifest E) (of_bytes mbuf) of
             Inl e \<Rightarrow> throw_m (Snapshot (''manifest is not valid JSON: '' @ e))
           | Inr manifest \<Rightarrow> open_trailer E b (unat mlen) manifest))
     (parse_snapshot (j_manifest E) path b)"
proof (cases "length b - 12 < unat mlen")
  case True
  with assms have "parse_snapshot (j_manifest E) path b
      = Inl (Snapshot (''read manifest'' @ '': failed to fill whole buffer''))"
    by (simp add: parse_snapshot_def Let_def)
  with True show ?thesis
    by (simp only:) (rule implements_bind_short, simp)
next
  case False
  define json where "json = js_from (j_manifest E) (of_bytes (take (unat mlen) (drop 12 b)))"
  have "implements E (case json of
        Inl e \<Rightarrow> throw_m (Snapshot (''manifest is not valid JSON: '' @ e))
      | Inr manifest \<Rightarrow> open_trailer E b (unat mlen) manifest)
     (parse_snapshot (j_manifest E) path b)"
    using assms False open_trailer_implements [of b E "unat mlen"]
    by (cases json) (simp_all add: parse_snapshot_def json_def Let_def implements_throw)
  with False show ?thesis
    by (intro implements_bind_exact) (simp_all add: json_def)
qed

lemma open_file_implements: "implements E (open_file E path b) (parse_snapshot (j_manifest E) path b)"
proof (cases "length b < 24 \<or> take 6 b \<noteq> as_bytes ''MCSNAP'' \<or> take 8 b \<noteq> MAGIC")
  case True
  then show ?thesis
    unfolding open_file_def parse_snapshot_def Let_def
    by (cases "length b < 24")
      (auto intro!: implements_bind_touch implements_bind_exact mc_impl)
next
  case False
  define mlen where "mlen = u32_from_le (take 4 (drop 8 b))"
  have len: "8 \<le> length b" "4 \<le> length (drop 8 b)" and drop12: "drop 4 (drop 8 b) = drop 12 b"
    using False by auto
  have "implements E (if MAX_MANIFEST < mlen \<or> length b < unat mlen
        then throw_m (Snapshot ''implausible manifest length'')
        else bind_m (snap_err ''read manifest'' (read_exact E (unat mlen) (drop 12 b))) (\<lambda>(mbuf, _).
           case js_from (j_manifest E) (of_bytes mbuf) of
             Inl e \<Rightarrow> throw_m (Snapshot (''manifest is not valid JSON: '' @ e))
           | Inr manifest \<Rightarrow> open_trailer E b (unat mlen) manifest))
     (parse_snapshot (j_manifest E) path b)"
  proof (cases "MAX_MANIFEST < mlen \<or> length b < unat mlen")
    case True
    with False show ?thesis
      by (simp add: parse_snapshot_def mlen_def Let_def implements_throw)
  next
    case ok: False
    then show ?thesis
      using read_manifest_implements [OF False mlen_def ok] by simp
  qed
  then have "implements E (bind_m (snap_err ''read manifest length'' (read_exact E 4 (drop 8 b))) (\<lambda>(lenb, f2).
         let mlen = u32_from_le lenb in
         if MAX_MANIFEST < mlen \<or> length b < unat mlen
         then throw_m (Snapshot ''implausible manifest length'')
         else
           bind_m (snap_err ''read manifest'' (read_exact E (unat mlen) f2)) (\<lambda>(mbuf, _).
           case js_from (j_manifest E) (of_bytes mbuf) of
             Inl e \<Rightarrow> throw_m (Snapshot (''manifest is not valid JSON: '' @ e))
           | Inr manifest \<Rightarrow> open_trailer E b (unat mlen) manifest)))
     (parse_snapshot (j_manifest E) path b)"
    unfolding Let_def by (intro implements_bind_exact len) (simp only: prod.case mlen_def drop12)
  with False len(1) show ?thesis
    unfolding open_file_def
    by (intro implements_bind_touch) (simp add: Let_def, intro implements_bind_exact, simp_all add: MAGIC_def Let_def)
qed

lemma snapshot_open_wp:
  "wp (snapshot_open E path)
     (\<lambda>r t. (\<exists>b. fget w (resolve E path) = Some (File b) \<and> parse_snapshot (j_manifest E) path b = Inr r)
        \<and> only_tick w t)
     (\<lambda>e t. (no_faults E \<and> is_file w (resolve E path) \<longrightarrow>
          (\<exists>b. fget w (resolve E path) = Some (File b) \<and> parse_snapshot (j_manifest E) path b = Inl e))
        \<and> only_tick w t) w"
  unfolding snapshot_open_def wp_bind wp_snap_err
proof (rule wp_mono [OF fs_read_wp'])
  fix b t
  assume b: "fget w (resolve E path) = Some (File b) \<and> only_tick w t"
  then show "wp (open_file E path b)
     (\<lambda>r t. (\<exists>b. fget w (resolve E path) = Some (File b) \<and> parse_snapshot (j_manifest E) path b = Inr r)
        \<and> only_tick w t)
     (\<lambda>e t. (no_faults E \<and> is_file w (resolve E path) \<longrightarrow>
          (\<exists>b. fget w (resolve E path) = Some (File b) \<and> parse_snapshot (j_manifest E) path b = Inl e))
        \<and> only_tick w t) t"
    by (intro wp_mono [OF implements_wp [OF open_file_implements]]) (auto intro: only_tick_trans)
qed auto

text \<open>The outcome of reading \<open>n\<close> bytes in chunks of any sizes, by peeling one chunk off.\<close>

definition counted_read :: "RuntimeError \<Rightarrow> nat \<Rightarrow> bytes \<Rightarrow> Crc32 \<Rightarrow> (Crc32 \<times> bytes) result" where
  "counted_read err n f crc =
     (if n \<le> length f then Inr (crc32_update crc (take n f), drop n f) else Inl err)"

lemma crc32_update_Nil [simp]: "crc32_update crc [] = crc"
  by (cases crc) simp

lemma counted_read_0 [simp]: "counted_read err 0 f crc = Inr (crc, f)"
  by (simp add: counted_read_def)

lemma counted_read_Nil: "0 < n \<Longrightarrow> counted_read err n [] crc = Inl err"
  by (simp add: counted_read_def)

lemma counted_read_step:
  assumes "c = take k f" and "k \<le> n"
  shows "counted_read err (n - length c) (drop (length c) f) (crc32_update crc c) = counted_read err n f crc"
proof (cases "n \<le> length f")
  case True
  with assms have "length c = k" by simp
  moreover have "take k f @ take (n - k) (drop k f) = take n f"
    using assms(2) by (simp add: take_add [symmetric])
  ultimately show ?thesis
    using True assms by (simp add: counted_read_def crc32_update_append)
next
  case False
  then show ?thesis
    using assms by (auto simp: counted_read_def)
qed

lemma verify_loop_unfold:
  "0 < n \<Longrightarrow> verify_loop E f n crc = bind_m (snap_err ''read'' (fd_read E (min (256 * 1024) n) f)) (\<lambda>chunk.
     if chunk = [] then throw_m (Snapshot ''truncated snapshot'')
     else verify_loop E (drop (length chunk) f) (n - length chunk) (crc32_update crc chunk))"
  by (intro ext, subst verify_loop.simps) (simp, intro bind_m_cong refl, simp)

lemma verify_loop_implements:
  "implements E (verify_loop E f n crc) (map_sum (\<lambda>e. e) fst (counted_read (Snapshot ''truncated snapshot'') n f crc))"
proof (induction n arbitrary: f crc rule: less_induct)
  case (less n)
  let ?r = "map_sum (\<lambda>e. e) fst (counted_read (Snapshot ''truncated snapshot'') n f crc)"
  show ?case
  proof (cases "n = 0")
    case True
    have "verify_loop E f 0 crc = return_m crc"
      by (rule ext, subst verify_loop.simps) simp
    with True show ?thesis by (simp add: implements_return)
  next
    case False
    show ?thesis
      unfolding implements_def
    proof
      fix w
      have "wp (if c = [] then throw_m (Snapshot ''truncated snapshot'')
            else verify_loop E (drop (length c) f) (n - length c) (crc32_update crc c))
          (\<lambda>a t. ?r = Inr a \<and> only_tick w t) (\<lambda>e t. (no_faults E \<longrightarrow> ?r = Inl e) \<and> only_tick w t) t"
        if c: "c = take k f" "k \<le> n" "0 < k" and t: "only_tick w t" for c k t
      proof (cases "c = []")
        case True
        with c False t show ?thesis by (simp add: counted_read_Nil)
      next
        case ne: False
        then have "n - length c < n" using False by (simp add: diff_less)
        from implements_wp [OF less [OF this], of "drop (length c) f" "crc32_update crc c" t]
        show ?thesis
          using ne t unfolding counted_read_step [OF c(1,2)]
          by (auto elim!: wp_mono intro: only_tick_trans)
      qed
      with False show "wp (verify_loop E f n crc) (\<lambda>a t. ?r = Inr a \<and> only_tick w t)
          (\<lambda>e t. (no_faults E \<longrightarrow> ?r = Inl e) \<and> only_tick w t) w"
        by (simp only: verify_loop_unfold wp_bind wp_snap_err)
          (rule wp_mono [OF fd_read_wp]; auto)
    qed
  qed
qed

definition verify_spec :: "SnapshotReader \<Rightarrow> unit result" where
  "verify_spec r =
     (let n = sr_payload_end r + 8 in
      if length (sr_file r) < n then Inl (Snapshot ''truncated snapshot'')
      else if crc32 (take n (sr_file r)) \<noteq> sr_stored_crc r
      then Inl (Snapshot ''checksum mismatch: snapshot is corrupt'') else Inr ())"

lemma verify_implements: "implements E (verify E r) (verify_spec r)"
proof -
  let ?n = "sr_payload_end r + 8"
  have "implements E (bind_m (verify_loop E (sr_file r) ?n crc32_new) (\<lambda>crc.
       if crc32_finish crc \<noteq> sr_stored_crc r then throw_m (Snapshot ''checksum mismatch: snapshot is corrupt'')
       else return_m ()))
     (case map_sum (\<lambda>e. e) fst (counted_read (Snapshot ''truncated snapshot'') ?n (sr_file r) crc32_new) of
        Inl e \<Rightarrow> Inl e
      | Inr crc \<Rightarrow> if crc32_finish crc \<noteq> sr_stored_crc r
          then Inl (Snapshot ''checksum mismatch: snapshot is corrupt'') else Inr ())"
    by (intro implements_bind verify_loop_implements mc_impl)
  then show ?thesis
    unfolding verify_def
    by (intro implements_bind_touch)
      (auto simp: verify_spec_def counted_read_def crc32_def Let_def split: if_splits)
qed

section \<open>Entry headers\<close>

definition parse_entry_header :: "bytes \<Rightarrow> RuntimeError + (string \<times> u64) \<times> bytes" where
  "parse_entry_header f =
     (let nlen = u32_from_le (take 4 f); f1 = drop 4 f; f2 = drop (unat nlen) f1 in
      if length f < 4 then Inl (Snapshot (''read entry name length'' @ '': failed to fill whole buffer''))
      else if nlen = 0 \<or> 4096 < nlen then Inl (Snapshot ''implausible entry name length'')
      else if length f1 < unat nlen then Inl (Snapshot (''read entry name'' @ '': failed to fill whole buffer''))
      else case from_utf8 (take (unat nlen) f1) of
        None \<Rightarrow> Inl (Snapshot ''entry name is not UTF-8'')
      | Some name \<Rightarrow>
          if length f2 < 8 then Inl (Snapshot (''read entry length'' @ '': failed to fill whole buffer''))
          else Inr ((name, u64_from_le (take 8 f2)), drop 8 f2))"

lemma implements_exact:
  assumes "n \<le> length rest \<Longrightarrow> implements E (f (take n rest, drop n rest)) r"
  shows "implements E (bind_m (snap_err what (read_exact E n rest)) f)
     (if length rest < n then Inl (Snapshot (what @ '': failed to fill whole buffer'')) else r)"
  using implements_bind_exact [of n rest E f r what] implements_bind_short [of rest n E what f] assms
  by simp

lemma read_entry_header_implements: "implements E (read_entry_header E f) (parse_entry_header f)"
proof -
  define nlen where "nlen = u32_from_le (take 4 f)"
  define f1 where "f1 = drop 4 f"
  have body: "implements E (case from_utf8 nameb of
         None \<Rightarrow> throw_m (Snapshot ''entry name is not UTF-8'')
       | Some name \<Rightarrow>
           bind_m (snap_err ''read entry length'' (read_exact E 8 f2)) (\<lambda>(lb, f3).
           return_m ((name, u64_from_le lb), f3)))
     (case from_utf8 nameb of
        None \<Rightarrow> Inl (Snapshot ''entry name is not UTF-8'')
      | Some name \<Rightarrow>
          if length f2 < 8 then Inl (Snapshot (''read entry length'' @ '': failed to fill whole buffer''))
          else Inr ((name, u64_from_le (take 8 f2)), drop 8 f2))" for nameb f2
  proof (cases "from_utf8 nameb")
    case None
    then show ?thesis by (simp add: implements_throw)
  next
    case (Some name)
    show ?thesis
      unfolding Some option.case by (rule implements_exact) (simp add: implements_return)
  qed
  have "implements E (read_entry_header E f)
     (if length f < 4 then Inl (Snapshot (''read entry name length'' @ '': failed to fill whole buffer''))
      else if nlen = 0 \<or> 4096 < nlen then Inl (Snapshot ''implausible entry name length'')
      else if length f1 < unat nlen then Inl (Snapshot (''read entry name'' @ '': failed to fill whole buffer''))
      else case from_utf8 (take (unat nlen) f1) of
        None \<Rightarrow> Inl (Snapshot ''entry name is not UTF-8'')
      | Some name \<Rightarrow>
          if length (drop (unat nlen) f1) < 8
          then Inl (Snapshot (''read entry length'' @ '': failed to fill whole buffer''))
          else Inr ((name, u64_from_le (take 8 (drop (unat nlen) f1))), drop 8 (drop (unat nlen) f1)))"
    unfolding read_entry_header_def Let_def
    by (intro implements_exact, unfold prod.case nlen_def [symmetric] f1_def [symmetric],
        intro implements_if implements_throw implements_exact, unfold prod.case, rule body)
  then show ?thesis
    by (simp only: parse_entry_header_def Let_def nlen_def f1_def)
qed

definition entry_header :: "string \<times> u64 \<Rightarrow> bytes" where
  "entry_header h = u32_to_le (word_of_nat (length (fst h))) @ as_bytes (fst h) @ u64_to_le (snd h)"

definition wf_name :: "string \<Rightarrow> bool" where
  "wf_name name = (0 < length name \<and> length name \<le> 4096 \<and> utf8_valid (as_bytes name))"

lemma parse_entry_header_enc:
  assumes "wf_name (fst h)"
  shows "parse_entry_header (entry_header h @ rest) = Inr (h, rest)"
proof -
  define nlen :: u32 where "nlen = word_of_nat (length (fst h))"
  have u: "unat nlen = length (fst h)"
    using assms by (simp add: nlen_def wf_name_def unat_of_nat)
  moreover from u assms have "nlen \<noteq> 0" "\<not> 4096 < nlen"
    by (auto simp: wf_name_def word_less_nat_alt unat_eq_0 [symmetric])
  ultimately show ?thesis
    using assms
    by (simp add: parse_entry_header_def entry_header_def nlen_def [symmetric] wf_name_def from_utf8_def)
qed

interpretation entry_codec: prefix_codec entry_header parse_entry_header "\<lambda>h. wf_name (fst h)"
  by unfold_locales (rule parse_entry_header_enc)

section \<open>Where extraction writes\<close>

fun normal_name :: "Component \<Rightarrow> string" where
  "normal_name (Normal s) = s"
| "normal_name _ = []"

definition names_of :: "string \<Rightarrow> string list" where
  "names_of name = map normal_name (components name)"

lemma safe_join_pieces:
  assumes "safe_join dir name = Inr p"
  shows "p = path_join dir name" "\<not> is_absolute name" "pieces name = map Normal (names_of name)"
proof -
  have ok: "\<not> is_absolute name" "list_all is_normal (components name)" "p = path_join dir name"
    using assms by (simp_all add: safe_join_def split: if_splits)
  have "list_all is_normal cs \<Longrightarrow> map Normal (map normal_name cs) = cs" for cs
    by (induction cs) (auto simp: is_normal_def split: Component.splits)
  with ok(2) have "components name = map Normal (names_of name)"
    by (simp add: names_of_def)
  moreover have "components name = pieces name"
    using ok(1,2) by (auto simp: components_pieces is_normal_def split: if_splits)
  ultimately show "pieces name = map Normal (names_of name)" by simp
qed (use assms in \<open>simp_all add: safe_join_def split: if_splits\<close>)

lemma safe_join_resolve: "safe_join dir name = Inr p \<Longrightarrow> resolve E p = resolve E dir @ names_of name"
  using safe_join_pieces [of dir name p] by (simp add: resolve_join)

lemma safe_join_parent:
  assumes "safe_join dir name = Inr p" and "names_of name \<noteq> []"
  shows "path_parent E p = Some (resolve E dir @ butlast (names_of name))"
proof -
  obtain ns n where ns: "names_of name = ns @ [n]"
    using assms(2) by (metis append_butlast_last_id)
  have "pieces p = (pieces dir @ map Normal ns) @ [Normal n]"
    using safe_join_pieces [OF assms(1)] ns by (simp add: pieces_join)
  from path_parent_pieces [OF this, of E] show ?thesis
    using safe_join_pieces(1,2) [OF assms(1)] ns
    by (simp add: is_absolute_join resolve_pieces)
qed

lemma safe_join_nonempty:
  assumes "safe_join dir name = Inr p" and "name \<noteq> []"
  shows "names_of name \<noteq> []"
proof
  assume "names_of name = []"
  then have c: "components name = []"
    by (simp add: names_of_def)
  obtain a rest where n: "name = a # rest"
    using assms(2) by (cases name) auto
  have a: "a \<noteq> CHR ''/''"
    using safe_join_pieces(2) [OF assms(1)] n by (simp add: is_absolute_def)
  define h where "h = a # hd (split_on (CHR ''/'') rest)"
  have split: "split_on (CHR ''/'') name = h # tl (split_on (CHR ''/'') rest)"
    by (simp only: n split_on_Cons_neq [OF a] h_def)
  have "h \<noteq> ''.''"
    using c split n a by (auto simp: components_def Let_def is_absolute_def split: if_splits)
  moreover have "piece_component h = []"
    using c split by (simp add: components_def Let_def)
  ultimately show False
    by (simp add: piece_component_def h_def split: if_splits)
qed

definition outside :: "'b env_scheme \<Rightarrow> string \<Rightarrow> world \<Rightarrow> fspath \<Rightarrow> bool" where
  "outside E dir w q \<longleftrightarrow>
     \<not> under (resolve E dir) q \<and> (under q (resolve E dir) \<longrightarrow> fget w q \<noteq> None)"

lemma under_comparable: "under q (d @ x) \<Longrightarrow> \<not> under d q \<Longrightarrow> under q d"
  by (auto simp: under_iff append_eq_append_conv2)

lemma keeps_outside_write:
  assumes "p = resolve E dir @ ns"
  shows "keeps (same_files (outside E dir w) (fget w)) (fs_write E p b)"
    "keeps (same_files (outside E dir w) (fget w)) (fs_append E p b)"
    "keeps (same_files (outside E dir w) (fget w)) (fs_create_dir_all E p)"
proof -
  have "\<not> outside E dir w p"
    by (simp add: outside_def assms)
  then show "keeps (same_files (outside E dir w) (fget w)) (fs_write E p b)"
    "keeps (same_files (outside E dir w) (fget w)) (fs_append E p b)"
    by (rule keeps_same_files_write)+
  have "fget w q \<noteq> None" if "outside E dir w q" "under q p" for q
    using that under_comparable [of q "resolve E dir" ns] assms by (auto simp: outside_def)
  then show "keeps (same_files (outside E dir w) (fget w)) (fs_create_dir_all E p)"
    by (rule keeps_same_files_mkdir)
qed

lemma keeps_tick_only:
  "keeps (same_files S g) (io_touch E)" "keeps (same_files S g) (fd_read E n f)"
  "keeps (same_files S g) (read_exact E n f)"
  unfolding io_touch_def fd_read_def read_exact_def
  by (rule keeps_same_files_io_op; simp add: no_work_def)+

lemma extract_loop_unfold:
  "0 < n \<Longrightarrow> extract_loop E name dst f n crc =
     bind_m (snap_err (''read '' @ name) (fd_read E (min (256 * 1024) n) f)) (\<lambda>chunk.
       if chunk = [] then throw_m (Snapshot (''truncated entry '' @ name))
       else bind_m (snap_err ''write'' (fs_append E dst chunk)) (\<lambda>_.
         extract_loop E name dst (drop (length chunk) f) (n - length chunk) (crc32_update crc chunk)))"
  by (intro ext, subst extract_loop.simps) (simp, intro bind_m_cong refl, simp)

lemma extract_loop_0: "extract_loop E name dst f 0 crc = return_m (crc, f)"
  by (rule ext, subst extract_loop.simps) simp

lemma keeps_extract_loop:
  assumes "dst = resolve E dir @ ns"
  shows "keeps (same_files (outside E dir w) (fget w)) (extract_loop E name dst f n crc)"
proof (induction n arbitrary: f crc rule: less_induct)
  case (less n)
  show ?case
  proof (cases "n = 0")
    case True
    then show ?thesis by (simp add: extract_loop_0 keeps_return)
  next
    case False
    then show ?thesis
      by (simp only: extract_loop_unfold)
        (intro mc_keeps keeps_tick_only keeps_outside_write [OF assms] less; simp add: diff_less)
  qed
qed

lemma keeps_implements:
  assumes "implements E m r"
  shows "keeps (same_files S g) m"
proof (rule keepsI)
  fix u
  assume "same_files S g u"
  moreover have "only_tick u (snd (m u))"
    using implements_wp [OF assms, of u] by (auto simp: wp_def split: prod.splits sum.splits)
  ultimately show "same_files S g (snd (m u))"
    by (simp add: same_files_def only_tick_fget)
qed

lemma bind_known:
  assumes "\<And>a. r = Inr a \<Longrightarrow> keeps P (f a)" and "implements E m r" and "keeps P m"
  shows "keeps P (bind_m m f)"
proof (rule keepsI)
  fix s
  assume "P s"
  with assms implements_wp [OF assms(2), of s] show "P (snd (bind_m m f s))"
    by (auto simp: bind_m_def wp_def keeps_def split: prod.splits sum.splits)
qed

lemma parse_entry_header_nonempty: "parse_entry_header f = Inr ((name, len), f') \<Longrightarrow> name \<noteq> []"
proof -
  assume p: "parse_entry_header f = Inr ((name, len), f')"
  define n where "n = unat (u32_from_le (take 4 f))"
  from p have "n \<noteq> 0" "n \<le> length (drop 4 f)" "name = of_bytes (take n (drop 4 f))"
    by (auto simp: parse_entry_header_def Let_def n_def unat_eq_0 from_utf8_def split: if_splits option.splits)
  then have "length name \<noteq> 0" by simp
  then show ?thesis by simp
qed

lemma bind_lift [simp]: "bind_m (lift_m (Inr a)) f = f a" "bind_m (lift_m (Inl e)) f = throw_m e"
  by (rule ext, simp add: bind_m_def lift_m_def throw_m_def)+

lemma keeps_extract_body:
  assumes "name \<noteq> []"
  shows "keeps (same_files (outside E dir w) (fget w)) (extract_body E dir meta name len f)"
proof (cases "safe_join dir name")
  case (Inl e)
  show ?thesis
    unfolding extract_body_def Inl bind_lift by (simp add: keeps_throw)
next
  case (Inr dest)
  note path = safe_join_resolve [OF Inr, of E] safe_join_parent [OF Inr safe_join_nonempty [OF Inr assms], of E]
  show ?thesis
    unfolding extract_body_def extract_data_def Inr bind_lift path option.case
    by (intro mc_keeps keeps_tick_only keeps_outside_write [OF refl] keeps_extract_loop [OF refl])
qed

lemma keeps_extract_one:
  "keeps (same_files (outside E dir w) (fget w)) (extract_one E dir meta f)"
proof -
  have k: "keeps (same_files (outside E dir w) (fget w)) ((\<lambda>((name, len), f1). extract_body E dir meta name len f1) h)"
    if "parse_entry_header f = Inr h" for h
    using that by (cases h) (auto intro!: keeps_extract_body dest: parse_entry_header_nonempty)
  show ?thesis
    unfolding extract_one_def
    by (rule bind_known [where r = "parse_entry_header f" and E = E])
      (rule k read_entry_header_implements keeps_implements [OF read_entry_header_implements], assumption?)+
qed

lemma keeps_extract_entries:
  "keeps (same_files (outside E dir w) (fget w)) (extract_entries E dir metas f)"
  by (induction metas arbitrary: f) (auto intro!: mc_keeps keeps_extract_one)

lemma extract_all_outside:
  assumes "\<not> under (resolve E dir) q" and "fget w q \<noteq> None \<or> \<not> under q (resolve E dir)"
  shows "fget (snd (extract_all E r dir w)) q = fget w q"
proof -
  have mkdir: "keeps (same_files (outside E dir w) (fget w)) (fs_create_dir_all E (resolve E dir))"
    by (rule keeps_outside_write [where ns = "[]"]) simp
  have "keeps (same_files (outside E dir w) (fget w)) (extract_all E r dir)"
    unfolding extract_all_def
    by (intro mc_keeps keeps_tick_only keeps_extract_entries mkdir)
  from keepsD [OF this, of w] show ?thesis
    using assms by (auto simp: same_files_def outside_def)
qed

text \<open>
  C8: unpacking a snapshot is confined to its directory. Whatever bytes and whatever manifest the
  snapshot has, trusted or not, and whatever I/O faults strike, every file outside the target
  directory keeps its content; the only nodes created outside it are missing parent directories of
  the target itself.
\<close>
theorem extract_all_confined:
  assumes "\<not> under (resolve E dir) q" and "fget w q \<noteq> None \<or> \<not> under q (resolve E dir)"
  shows "fget (snd (extract_all E r dir w)) q = fget w q"
  by (rule extract_all_outside [OF assms])

section \<open>What extraction writes\<close>

lemma extract_loop_wp:
  assumes "fget w dst = Some (File old)" and err: "err = Snapshot (''truncated entry '' @ name)"
  shows "wp (extract_loop E name dst f n crc)
     (\<lambda>a t. counted_read err n f crc = Inr a
        \<and> fget t = (fget w)(dst \<mapsto> File (old @ take n f)))
     (\<lambda>_ t. no_faults E \<longrightarrow> length f < n) w"
  using assms(1)
proof (induction n arbitrary: f crc old w rule: less_induct)
  case (less n)
  show ?case
  proof (cases "n = 0")
    case True
    with less.prems show ?thesis
      by (simp add: extract_loop_0 fun_upd_idem)
  next
    case False
    have "wp (if c = [] then throw_m err
          else bind_m (snap_err ''write'' (fs_append E dst c)) (\<lambda>_.
            extract_loop E name dst (drop (length c) f) (n - length c) (crc32_update crc c)))
        (\<lambda>a t. counted_read err n f crc = Inr a \<and> fget t = (fget w)(dst \<mapsto> File (old @ take n f)))
        (\<lambda>_ t. no_faults E \<longrightarrow> length f < n) t"
      if c: "c = take k f" "k \<le> n" "0 < k" and t: "only_tick w t" for c k t
    proof (cases "c = []")
      case True
      with c False show ?thesis by simp
    next
      case ne: False
      then have lt: "n - length c < n" using False by (simp add: diff_less)
      have ft: "fget t dst = Some (File old)"
        using less.prems t by (simp add: only_tick_fget)
      have IH: "wp (extract_loop E name dst (drop (length c) f) (n - length c) (crc32_update crc c))
          (\<lambda>a v. counted_read err n f crc = Inr a \<and> fget v = (fget w)(dst \<mapsto> File (old @ take n f)))
          (\<lambda>_ v. no_faults E \<longrightarrow> length f < n) u"
        if u: "fget u = (fget t)(dst \<mapsto> File (old @ c))" for u
      proof -
        have "fget u dst = Some (File (old @ c))" by (simp add: u)
        note ih = less.IH [OF lt this, of "drop (length c) f" "crc32_update crc c"]
        have "c @ take (n - length c) (drop (length c) f) = take n f"
          using c by (cases "k \<le> length f") (simp_all add: take_add [symmetric])
        with u t show ?thesis
          by (intro wp_mono [OF ih])
            (auto simp: counted_read_step [OF c(1,2)] only_tick_fget)
      qed
      show ?thesis
        using ne by (simp, intro wp_mono [OF fs_append_wp [OF ft]] IH) auto
    qed
    note step = this
    have n: "0 < n" using False by simp
    show ?thesis
      unfolding extract_loop_unfold [OF n] wp_bind wp_snap_err err [symmetric]
      by (rule wp_mono [OF fd_read_wp], elim conjE exE, rule step) (use n in simp_all)
  qed
qed

lemma copy_until_eof_unfold:
  "copy_until_eof E buf rw ww dst src crc copied =
     bind_m (snap_err rw (fd_read E buf src)) (\<lambda>chunk.
       if chunk = [] then return_m (crc, copied)
       else bind_m (snap_err ww (fs_append E dst chunk)) (\<lambda>_.
            copy_until_eof E buf rw ww dst (drop (length chunk) src)
              (crc32_update crc chunk) (copied + word_of_nat (length chunk))))"
  by (intro ext, subst copy_until_eof.simps, rule bind_m_cong) simp_all

lemma copy_until_eof_wp:
  assumes "fget w dst = Some (File old)" and "0 < buf"
  shows "wp (copy_until_eof E buf rw ww dst src crc copied)
     (\<lambda>a t. a = (crc32_update crc src, copied + word_of_nat (length src))
        \<and> fget t = (fget w)(dst \<mapsto> File (old @ src)))
     (\<lambda>_ _. \<not> no_faults E) w"
  using assms(1)
proof (induction "length src" arbitrary: src crc copied old w rule: less_induct)
  case less
  have "wp (if c = [] then return_m (crc, copied)
       else bind_m (snap_err ww (fs_append E dst c)) (\<lambda>_.
            copy_until_eof E buf rw ww dst (drop (length c) src)
              (crc32_update crc c) (copied + word_of_nat (length c))))
     (\<lambda>a t. a = (crc32_update crc src, copied + word_of_nat (length src))
        \<and> fget t = (fget w)(dst \<mapsto> File (old @ src))) (\<lambda>_ _. \<not> no_faults E) t"
    if c: "c = take k src" "0 < k" and t: "only_tick w t" for c k t
  proof (cases "src = []")
    case True
    with less.prems c t show ?thesis
      by (simp add: only_tick_fget fun_upd_idem)
  next
    case False
    with c have ne: "c \<noteq> []" by simp
    have ft: "fget t dst = Some (File old)"
      using less.prems t by (simp add: only_tick_fget)
    have src: "c @ drop (length c) src = src"
      using c by (cases "k \<le> length src") simp_all
    have IH: "wp (copy_until_eof E buf rw ww dst (drop (length c) src)
              (crc32_update crc c) (copied + word_of_nat (length c)))
     (\<lambda>a t. a = (crc32_update crc src, copied + word_of_nat (length src))
        \<and> fget t = (fget w)(dst \<mapsto> File (old @ src))) (\<lambda>_ _. \<not> no_faults E) u"
      if u: "fget u = (fget t)(dst \<mapsto> File (old @ c))" for u
    proof -
      have lt: "length (drop (length c) src) < length src"
        using False ne by simp
      have "fget u dst = Some (File (old @ c))" by (simp add: u)
      note ih = less.hyps [OF lt this, of "crc32_update crc c" "copied + word_of_nat (length c)"]
      have "length c + length (drop (length c) src) = length src"
        using arg_cong [OF src, of length] by simp
      then have "word_of_nat (length c) + word_of_nat (length (drop (length c) src)) = (word_of_nat (length src) :: u64)"
        by (metis of_nat_add)
      then show ?thesis
        using u t src
        by (intro wp_mono [OF ih]) (auto simp: crc32_update_append only_tick_fget add.assoc)
    qed
    show ?thesis
      using ne False by (simp, intro wp_mono [OF fs_append_wp [OF ft]] IH) auto
  qed
  note step = this
  show ?case
    unfolding copy_until_eof_unfold [of E buf rw ww dst src crc copied] wp_bind wp_snap_err
    by (rule wp_mono [OF fd_read_wp], elim conjE exE, rule step) (use assms(2) in simp_all)
qed

type_synonym entry = "string \<times> bytes"

definition entry_bytes :: "entry \<Rightarrow> bytes" where
  "entry_bytes e = entry_header (fst e, word_of_nat (length (snd e))) @ snd e"

definition meta_of :: "entry \<Rightarrow> EntryMeta" where
  "meta_of e = \<lparr>em_name = fst e, em_len = word_of_nat (length (snd e)), em_crc32 = crc32 (snd e)\<rparr>"

definition safe_name :: "string \<Rightarrow> bool" where
  "safe_name name \<longleftrightarrow> \<not> is_absolute name \<and> list_all is_normal (components name)"

definition wf_entry :: "entry \<Rightarrow> bool" where
  "wf_entry e \<longleftrightarrow> wf_name (fst e) \<and> safe_name (fst e) \<and> length (snd e) < 2 ^ 64"

text \<open>No entry is another's directory, so every entry can be a file.\<close>

definition clash :: "entry \<Rightarrow> entry \<Rightarrow> bool" where
  "clash e e' \<longleftrightarrow> under (names_of (fst e)) (names_of (fst e')) \<or> under (names_of (fst e')) (names_of (fst e))"

fun clash_free :: "entry list \<Rightarrow> bool" where
  "clash_free [] = True"
| "clash_free (e # es) = (list_all (\<lambda>e'. \<not> clash e e') es \<and> clash_free es)"

text \<open>The tree below the target while some entries have been unpacked.\<close>

definition unpacked :: "fspath \<Rightarrow> entry set \<Rightarrow> (fspath \<Rightarrow> node option) \<Rightarrow> bool" where
  "unpacked d es g \<longleftrightarrow>
     (\<forall>q b. under q d \<longrightarrow> g q \<noteq> Some (File b))
     \<and> (\<forall>q b. under d q \<and> g q = Some (File b) \<longrightarrow> (\<exists>e\<in>es. q = d @ names_of (fst e)))
     \<and> (\<forall>q. under d q \<and> g q = Some Dir \<longrightarrow>
          q = d \<or> (\<exists>e\<in>es. under q (d @ names_of (fst e)) \<and> q \<noteq> d @ names_of (fst e)))
     \<and> (\<forall>e\<in>es. g (d @ names_of (fst e)) = Some (File (snd e)))"

definition with_dirs :: "fspath \<Rightarrow> (fspath \<Rightarrow> node option) \<Rightarrow> fspath \<Rightarrow> node option" where
  "with_dirs p g = (\<lambda>q. if under q p \<and> g q = None then Some Dir else g q)"

lemma unpacked_no_file:
  assumes u: "unpacked d es g" and nc: "\<forall>e\<in>es. \<not> under (names_of (fst e)) ns" and "under q (d @ butlast ns)"
  shows "g q \<noteq> Some (File b)"
proof
  assume f: "g q = Some (File b)"
  show False
  proof (cases "under d q")
    case True
    with u f obtain e where e: "e \<in> es" "q = d @ names_of (fst e)"
      unfolding unpacked_def by blast
    have "under (names_of (fst e)) (butlast ns)"
      using assms(3) e by simp
    then have "under (names_of (fst e)) ns"
      by (rule under_trans) simp
    then show False
      using nc e by blast
  next
    case False
    then have "under q d"
      using assms(3) under_comparable by blast
    with u f show False unfolding unpacked_def by blast
  qed
qed

lemma unpacked_not_dir:
  assumes u: "unpacked d es g" and nc: "\<forall>e\<in>es. \<not> under ns (names_of (fst e))" and ns: "ns \<noteq> []"
  shows "with_dirs (d @ butlast ns) g (d @ ns) \<noteq> Some Dir"
proof
  assume "with_dirs (d @ butlast ns) g (d @ ns) = Some Dir"
  moreover have "\<not> under ns (butlast ns)"
    using ns under_length [of ns "butlast ns"] by (cases ns) auto
  ultimately have "g (d @ ns) = Some Dir"
    by (simp add: with_dirs_def split: if_splits)
  with u ns obtain e where "e \<in> es" "under (d @ ns) (d @ names_of (fst e))"
    unfolding unpacked_def by (metis append_self_conv under_append)
  with nc show False by simp
qed

lemma unpacked_add:
  assumes u: "unpacked d es g" and ns: "ns = names_of (fst e)" "ns \<noteq> []"
    and nc: "\<forall>e'\<in>es. \<not> clash e e'"
  shows "unpacked d (insert e es) ((with_dirs (d @ butlast ns) g)(d @ ns \<mapsto> File (snd e)))"
    (is "unpacked d _ ?g")
proof -
  have nu: "\<not> under (d @ ns) d"
    using ns by simp
  have other: "?g q = with_dirs (d @ butlast ns) g q" if "q \<noteq> d @ ns" for q
    using that by simp
  have keep: "e' \<in> es \<Longrightarrow> d @ names_of (fst e') \<noteq> d @ ns" for e'
    using nc ns by (auto simp: clash_def)
  show ?thesis
    unfolding unpacked_def
  proof (intro conjI allI impI ballI; (elim conjE)?)
    fix q b
    assume q: "under q d"
    then have "q \<noteq> d @ ns" using nu by auto
    then show "?g q \<noteq> Some (File b)"
      using u q by (auto simp: with_dirs_def unpacked_def split: if_splits)
  next
    fix q b
    assume "under d q" "?g q = Some (File b)"
    then show "\<exists>e\<in>insert e es. q = d @ names_of (fst e)"
      using u ns by (cases "q = d @ ns") (auto simp: with_dirs_def unpacked_def split: if_splits)
  next
    fix q
    assume q: "under d q" "?g q = Some Dir"
    then have ne: "q \<noteq> d @ ns" by auto
    show "q = d \<or> (\<exists>e\<in>insert e es. under q (d @ names_of (fst e)) \<and> q \<noteq> d @ names_of (fst e))"
    proof (cases "g q = Some Dir")
      case True
      with u q show ?thesis unfolding unpacked_def by blast
    next
      case False
      with q ne have "under q (d @ butlast ns)"
        by (auto simp: with_dirs_def split: if_splits)
      then have "under q (d @ ns)"
        by (rule under_trans) simp
      with ne ns show ?thesis by blast
    qed
  next
    fix e'
    assume "e' \<in> insert e es"
    then show "?g (d @ names_of (fst e')) = Some (File (snd e'))"
      using u keep ns by (cases "e' = e") (auto simp: with_dirs_def unpacked_def)
  qed
qed

lemma safe_name_join: "safe_name name \<Longrightarrow> safe_join dir name = Inr (path_join dir name)"
  by (simp add: safe_join_def safe_name_def)

lemma touch_wp: "wp (io_touch E) (\<lambda>_ v. fget v = fget u) (\<lambda>_ _. \<not> no_faults E) u"
  using implements_wp [OF implements_touch, of E u] by (rule wp_mono) (auto simp: only_tick_fget)

lemma extract_data_wp:
  assumes "can_create v (resolve E p)" and "length data < 2 ^ 64" and "em_crc32 meta = crc32 data"
  shows "wp (extract_data E meta name (word_of_nat (length data)) (data @ rest) p)
     (\<lambda>f' t. f' = rest \<and> fget t = (fget v)(resolve E p \<mapsto> File data)) (\<lambda>_ _. \<not> no_faults E) v"
proof -
  let ?p = "resolve E p"
  have len: "unat (word_of_nat (length data) :: u64) = length data"
    using assms(2) by (simp add: unat_of_nat)
  have loop: "wp (bind_m (extract_loop E name ?p (data @ rest) (length data) crc32_new) (\<lambda>(crc, f2).
     bind_m (snap_err (''flush '' @ p) (io_touch E)) (\<lambda>_.
     if crc32_finish crc \<noteq> em_crc32 meta
     then throw_m (Snapshot (''entry '' @ name @ '': checksum mismatch''))
     else return_m f2))) (\<lambda>f' t. f' = rest \<and> fget t = (fget v)(?p \<mapsto> File data)) (\<lambda>_ _. \<not> no_faults E) t"
    if t: "fget t = (fget v)(?p \<mapsto> File [])" for t
  proof -
    have "fget t ?p = Some (File [])" by (simp add: t)
    note loop = extract_loop_wp [OF this refl, of E name "data @ rest" "length data" crc32_new]
    show ?thesis
      unfolding wp_bind
      by (rule wp_mono [OF loop])
        (auto simp: counted_read_def crc32_def assms(3) t intro!: wp_mono [OF touch_wp])
  qed
  have "wp (fs_write E ?p []) (\<lambda>_ t. fget t = (fget v)(?p \<mapsto> File [])) (\<lambda>_ _. \<not> no_faults E) v"
    using assms(1) by (intro wp_mono [OF fs_create_wp]) auto
  then show ?thesis
    unfolding extract_data_def len
    by (subst wp_bind, subst wp_snap_err) (erule wp_mono, erule loop)
qed

lemma extract_body_wp:
  assumes e: "wf_entry e" and u: "unpacked d es (fget w)" and d: "d = resolve E dir"
    and nc: "\<forall>e'\<in>es. \<not> clash e e'"
  shows "wp (extract_body E dir (meta_of e) (fst e) (word_of_nat (length (snd e))) (snd e @ rest))
     (\<lambda>f' t. f' = rest \<and> unpacked d (insert e es) (fget t)) (\<lambda>_ _. \<not> no_faults E) w"
proof -
  define ns where "ns = names_of (fst e)"
  define p where "p = path_join dir (fst e)"
  have join: "safe_join dir (fst e) = Inr p"
    using e by (simp add: p_def wf_entry_def safe_name_join)
  have "fst e \<noteq> []"
    using e by (auto simp: wf_entry_def wf_name_def)
  then have ne: "ns \<noteq> []"
    using safe_join_nonempty [OF join] by (simp add: ns_def)
  have path: "resolve E p = d @ ns" "path_parent E p = Some (d @ butlast ns)"
    using safe_join_resolve [OF join, of E] safe_join_parent [OF join, of E] ne by (simp_all add: ns_def d)
  have nofile: "\<not> is_file w q" if "under q (d @ butlast ns)" for q
    using unpacked_no_file [OF u _ that] nc by (auto simp: clash_def ns_def node_cases_file)
  have notdir: "with_dirs (d @ butlast ns) (fget w) (d @ ns) \<noteq> Some Dir"
    using unpacked_not_dir [OF u _ ne] nc by (auto simp: clash_def ns_def)
  have data: "wp (extract_data E (meta_of e) (fst e) (word_of_nat (length (snd e))) (snd e @ rest) p)
      (\<lambda>f' t. f' = rest \<and> unpacked d (insert e es) (fget t)) (\<lambda>_ _. \<not> no_faults E) v"
    if v: "fget v = with_dirs (d @ butlast ns) (fget w)" for v
  proof -
    have "fget v (d @ butlast ns) = Some Dir"
      using v nofile [of "d @ butlast ns"] by (auto simp: with_dirs_def node_cases_file) (metis node.exhaust)
    then have "can_create v (resolve E p)"
      using notdir v ne by (simp add: can_create_def is_dir_def butlast_append path)
    then show ?thesis
      using e unpacked_add [OF u ns_def ne nc] v
      by (intro wp_mono [OF extract_data_wp]) (auto simp: wf_entry_def meta_of_def path)
  qed
  have mkdir: "wp (fs_create_dir_all E (d @ butlast ns)) (\<lambda>_ v. fget v = with_dirs (d @ butlast ns) (fget w))
      (\<lambda>_ _. \<not> no_faults E) w"
    by (rule wp_mono [OF fs_mkdir_wp]) (use nofile in \<open>auto simp: with_dirs_def\<close>)
  have agree: "(fst e \<noteq> em_name (meta_of e) \<or> word_of_nat (length (snd e)) \<noteq> em_len (meta_of e)) = False"
    by (simp add: meta_of_def)
  show ?thesis
    unfolding extract_body_def agree if_False join bind_lift path option.case wp_bind wp_snap_err
    by (rule wp_mono [OF mkdir], erule data)
qed

lemma extract_entries_wp:
  assumes "list_all wf_entry es" and "clash_free es" and "\<forall>e\<in>set es. \<forall>e'\<in>done. \<not> clash e e'"
    and "unpacked d done (fget w)" and d: "d = resolve E dir"
  shows "wp (extract_entries E dir (map meta_of es) (concat (map entry_bytes es) @ rest))
     (\<lambda>_ t. unpacked d (done \<union> set es) (fget t)) (\<lambda>_ _. \<not> no_faults E) w"
  using assms(1-4)
proof (induction es arbitrary: "done" w)
  case Nil
  then show ?case by simp
next
  case (Cons e es)
  define tail where "tail = concat (map entry_bytes es) @ rest"
  have e: "wf_entry e" "\<forall>e'\<in>done. \<not> clash e e'"
    using Cons.prems by simp_all
  have IH: "wp (extract_entries E dir (map meta_of es) tail)
      (\<lambda>_ t. unpacked d (done \<union> set (e # es)) (fget t)) (\<lambda>_ _. \<not> no_faults E) t"
    if "unpacked d (insert e done) (fget t)" for t
  proof -
    have "clash x y = clash y x" for x y
      by (auto simp: clash_def)
    with Cons.prems have "\<forall>x\<in>set es. \<forall>y\<in>insert e done. \<not> clash x y"
      by (auto simp: list_all_iff)
    with Cons.IH [of "insert e done" t] Cons.prems that show ?thesis
      by (simp add: tail_def)
  qed
  have h: "parse_entry_header (entry_bytes e @ tail)
      = Inr ((fst e, word_of_nat (length (snd e))), snd e @ tail)"
    using e(1) parse_entry_header_enc [of "(fst e, word_of_nat (length (snd e)))" "snd e @ tail"]
    by (simp add: wf_entry_def entry_bytes_def)
  have "wp (extract_one E dir (meta_of e) (entry_bytes e @ tail))
      (\<lambda>f' t. f' = tail \<and> unpacked d (insert e done) (fget t)) (\<lambda>_ _. \<not> no_faults E) w"
    unfolding extract_one_def wp_bind
    using Cons.prems(4) e
    by (intro wp_mono [OF implements_wp [OF read_entry_header_implements]])
      (auto simp: h only_tick_fget intro!: extract_body_wp [OF _ _ d])
  then show ?case
    by (simp add: tail_def [symmetric]) (erule wp_mono, use IH in auto)
qed

section \<open>The format\<close>

definition snapshot_head :: "string \<Rightarrow> entry list \<Rightarrow> bytes" where
  "snapshot_head json es =
     MAGIC @ u32_to_le (word_of_nat (length json)) @ as_bytes json @ concat (map entry_bytes es) @ TRAILER"

definition snapshot_bytes :: "string \<Rightarrow> entry list \<Rightarrow> bytes" where
  "snapshot_bytes json es = snapshot_head json es @ u32_to_le (crc32 (snapshot_head json es))"

definition fresh_target :: "fspath \<Rightarrow> (fspath \<Rightarrow> node option) \<Rightarrow> bool" where
  "fresh_target d g \<longleftrightarrow> (\<forall>q b. under q d \<longrightarrow> g q \<noteq> Some (File b)) \<and> (\<forall>q. under d q \<and> q \<noteq> d \<longrightarrow> g q = None)"

lemma extract_all_wp:
  assumes "list_all wf_entry es" and "clash_free es" and "fresh_target d (fget w)" and d: "d = resolve E dir"
    and "mf_entries (sr_manifest r) = map meta_of es"
    and "drop (sr_payload_start r) (sr_file r) = concat (map entry_bytes es) @ rest"
  shows "wp (extract_all E r dir) (\<lambda>_ t. unpacked d (set es) (fget t)) (\<lambda>_ _. \<not> no_faults E) w"
proof -
  have nofile: "\<not> is_file w q" if "under q d" for q
    using assms(3) that by (auto simp: fresh_target_def node_cases_file)
  have mkdir: "wp (fs_create_dir_all E d) (\<lambda>_ v. unpacked d {} (fget v)) (\<lambda>_ _. \<not> no_faults E) w"
    by (rule wp_mono [OF fs_mkdir_wp])
      (use nofile assms(3) in \<open>auto simp: unpacked_def fresh_target_def dest: under_antisym split: if_splits\<close>)
  have entries: "wp (extract_entries E dir (map meta_of es) (concat (map entry_bytes es) @ rest))
      (\<lambda>_ t. unpacked d (set es) (fget t)) (\<lambda>_ _. \<not> no_faults E) v"
    if "unpacked d {} (fget v)" for v
    using extract_entries_wp [OF assms(1,2) _ that d] by simp
  show ?thesis
    unfolding extract_all_def wp_bind wp_snap_err assms(5,6) d [symmetric]
    by (rule wp_mono [OF mkdir], rule wp_mono [OF touch_wp]) (simp_all add: entries)
qed

lemma parse_snapshot_bytes:
  assumes "unat MAX_MANIFEST \<ge> length json" and "js_from J json = Inr m"
  shows "\<exists>r. parse_snapshot J path (snapshot_bytes json es) = Inr r \<and> sr_manifest r = m
     \<and> drop (sr_payload_start r) (sr_file r)
         = concat (map entry_bytes es) @ TRAILER @ u32_to_le (crc32 (snapshot_head json es))
     \<and> verify_spec r = Inr ()"
proof -
  define pay where "pay = concat (map entry_bytes es)"
  define n :: u32 where "n = word_of_nat (length json)"
  define c where "c = crc32 (snapshot_head json es)"
  let ?b = "snapshot_bytes json es"
  have max: "length json \<le> 8388608"
    using assms(1) by (simp add: MAX_MANIFEST_def)
  then have n: "unat n = length json"
    by (simp add: n_def unat_of_nat)
  have b: "?b = MAGIC @ u32_to_le n @ as_bytes json @ pay @ TRAILER @ u32_to_le c"
    by (simp add: snapshot_bytes_def snapshot_head_def n_def pay_def c_def)
  have len: "length ?b = 24 + length json + length pay"
    by (simp add: b)
  have head: "take 6 ?b = as_bytes ''MCSNAP''" "take 8 ?b = MAGIC" "take 4 (drop 8 ?b) = u32_to_le n"
    "take (length json) (drop 12 ?b) = as_bytes json"
    by (simp_all add: b MAGIC_def)
  have tail: "drop (length ?b - 12) ?b = TRAILER @ u32_to_le c"
    by (simp add: len) (simp add: b)
  have covered: "take (length ?b - 12 + 8) ?b = snapshot_head json es"
    by (simp add: len) (simp add: snapshot_bytes_def snapshot_head_def pay_def)
  have "\<not> MAX_MANIFEST < n"
    using assms(1) n by (simp add: word_less_nat_alt)
  moreover have "parse_trailer ?b (length json) m = Inr \<lparr>sr_file = ?b, sr_manifest = m,
      sr_payload_start = 12 + length json, sr_payload_end = length ?b - 12, sr_stored_crc = c\<rparr>"
    unfolding parse_trailer_def Let_def tail by (simp add: len)
  ultimately have "parse_snapshot J path ?b = Inr \<lparr>sr_file = ?b, sr_manifest = m, sr_payload_start = 12 + length json,
      sr_payload_end = length ?b - 12, sr_stored_crc = c\<rparr>"
    using assms(2) by (simp add: parse_snapshot_def Let_def head n) (simp add: len)
  moreover have "drop (12 + length json) ?b = pay @ TRAILER @ u32_to_le c"
    by (simp add: b)
  ultimately show ?thesis
    using covered by (simp add: verify_spec_def Let_def pay_def c_def len)
qed

section \<open>Corruption\<close>

definition accepts :: "Manifest json \<Rightarrow> string \<Rightarrow> bytes \<Rightarrow> bool" where
  "accepts J path b = (case parse_snapshot J path b of Inl _ \<Rightarrow> False | Inr r \<Rightarrow> verify_spec r = Inr ())"

lemma accepts_split:
  assumes "accepts J path b"
  obtains a where "b = a @ TRAILER @ u32_to_le (crc32 (a @ TRAILER))"
proof -
  define a where "a = take (length b - 12) b"
  define t where "t = drop (length b - 12) b"
  have b: "b = a @ t" by (simp add: a_def t_def)
  obtain r where r: "parse_snapshot J path b = Inr r" "verify_spec r = Inr ()"
    using assms by (auto simp: accepts_def split: sum.splits)
  from r(1) have len: "24 \<le> length b" and tr: "take 8 t = TRAILER"
    and rd: "sr_file r = b" "sr_payload_end r = length b - 12" "sr_stored_crc r = u32_from_le (take 4 (drop 8 t))"
    by (auto simp: parse_snapshot_def parse_trailer_def Let_def t_def [symmetric] split: if_splits sum.splits)
  have lt: "length t = 12" "length a = length b - 12"
    using len by (simp_all add: t_def a_def)
  have t: "t = TRAILER @ drop 8 t" and l4: "length (drop 8 t) = 4"
    using tr lt by (metis append_take_drop_id, simp)
  have "take (length b - 12 + 8) b = a @ take 8 t"
    using lt by (simp add: b)
  then have "crc32 (a @ TRAILER) = u32_from_le (drop 8 t)"
    using r(2) rd l4 tr by (simp add: verify_spec_def Let_def split: if_splits)
  then have "u32_to_le (crc32 (a @ TRAILER)) = drop 8 t"
    using u32_to_le_from_le [OF l4] by simp
  with b t have "b = a @ TRAILER @ u32_to_le (crc32 (a @ TRAILER))"
    by simp
  then show ?thesis by (rule that)
qed

lemma append_cancel_len: "xs @ ys = us @ vs \<Longrightarrow> length xs = length us \<Longrightarrow> xs = us \<and> ys = vs"
  by simp

lemma burst_rejected:
  assumes len: "length xs = length ys" "length xs \<le> 4" and ne: "xs \<noteq> ys"
    and ok: "accepts J path (pre @ xs @ post)"
  shows "\<not> accepts J path (pre @ ys @ post)"
proof
  assume "accepts J path (pre @ ys @ post)"
  then obtain a' where a': "pre @ ys @ post = a' @ TRAILER @ u32_to_le (crc32 (a' @ TRAILER))"
    by (rule accepts_split)
  obtain a where a: "pre @ xs @ post = a @ TRAILER @ u32_to_le (crc32 (a @ TRAILER))"
    using ok by (rule accepts_split)
  have la: "length a = length a'"
    using arg_cong [OF a, of length] arg_cong [OF a', of length] len(1) by simp
  show False
  proof (cases "length post < 4")
    case True
    have "length a \<le> length pre"
      using arg_cong [OF a, of length] len(2) True by simp
    then have "take (length a) (pre @ xs @ post) = take (length a) (pre @ ys @ post)"
      by simp
    then have eq: "a = a'"
      unfolding a a' using la by simp
    have "pre @ xs @ post = pre @ ys @ post"
      by (simp only: a a' eq)
    with ne len(1) show False by simp
  next
    case False
    define p1 p2 where "p1 = take (length post - 4) post" and "p2 = drop (length post - 4) post"
    have p: "post = p1 @ p2" "length p2 = 4"
      using False by (simp_all add: p1_def p2_def)
    have "(pre @ xs @ p1) @ p2 = (a @ TRAILER) @ u32_to_le (crc32 (a @ TRAILER))"
      using a p by simp
    then have x: "pre @ xs @ p1 = a @ TRAILER" "p2 = u32_to_le (crc32 (a @ TRAILER))"
      using p(2) by (simp_all only: append_eq_append_conv length_u32_to_le simp_thms)
    have "(pre @ ys @ p1) @ p2 = (a' @ TRAILER) @ u32_to_le (crc32 (a' @ TRAILER))"
      using a' p by simp
    then have y: "pre @ ys @ p1 = a' @ TRAILER" "p2 = u32_to_le (crc32 (a' @ TRAILER))"
      using p(2) by (simp_all only: append_eq_append_conv length_u32_to_le simp_thms)
    have "crc32 (a @ TRAILER) = crc32 (a' @ TRAILER)"
      using x(2) y(2) u32_le_roundtrip by metis
    then have "crc32 (pre @ xs @ p1) = crc32 (pre @ ys @ p1)"
      by (simp only: x(1) y(1))
    then show False
      using crc.burst_detected [OF len ne, of crc32_new pre p1] by (simp add: crc32_def)
  qed
qed

lemma open_verify_wp:
  "wp (bind_m (snapshot_open E path) (verify E))
     (\<lambda>_ t. (\<exists>b. fget w (resolve E path) = Some (File b) \<and> accepts (j_manifest E) path b) \<and> only_tick w t)
     (\<lambda>_ t. only_tick w t) w"
  unfolding wp_bind
  by (rule wp_mono [OF snapshot_open_wp])
    (auto simp: accepts_def intro!: wp_mono [OF implements_wp [OF verify_implements]] intro: only_tick_trans)

text \<open>
  C4: a damaged snapshot is refused before anything acts on it. If a snapshot file opens and
  verifies, then after changing its content anywhere within four consecutive bytes, header,
  manifest, payload, trailer or checksum included, opening and verifying it reports an error
  under every pattern of I/O faults, and has changed nothing on the host.
\<close>
theorem corrupted_snapshot_rejected:
  assumes "accepts (j_manifest E) path (pre @ xs @ post)"
    and "length xs = length ys" and "length xs \<le> 4" and "xs \<noteq> ys"
    and "fget w (resolve E path) = Some (File (pre @ ys @ post))"
  shows "isl (fst (bind_m (snapshot_open E path) (verify E) w))
     \<and> fs (snd (bind_m (snapshot_open E path) (verify E) w)) = fs w
     \<and> events (snd (bind_m (snapshot_open E path) (verify E) w)) = events w"
proof -
  have "\<not> accepts (j_manifest E) path (pre @ ys @ post)"
    using burst_rejected [OF assms(2-4,1)] .
  with open_verify_wp [of E path w] assms(5) show ?thesis
    by (auto simp: wp_def only_tick_same split: prod.splits sum.splits)
qed

text \<open>
  C30: opening a snapshot refines a pure parser of the file's bytes. A reader it returns is the
  parser's answer under every pattern of faults and of short reads; without faults the outcome is
  the parser's, each of its error cases included; and opening changes nothing on the host.
\<close>
theorem snapshot_open_refines_parser:
  assumes "fget w (resolve E path) = Some (File b)"
  shows "let (res, t) = snapshot_open E path w
     in (\<forall>r. res = Inr r \<longrightarrow> parse_snapshot (j_manifest E) path b = Inr r)
        \<and> (no_faults E \<longrightarrow> res = parse_snapshot (j_manifest E) path b)
        \<and> fs t = fs w \<and> events t = events w"
  using snapshot_open_wp [of E path w] assms
  by (auto simp: wp_def only_tick_same is_file_def split: prod.splits sum.splits)

text \<open>
  entry headers are self-delimiting: two sequences of the same number of headers the reader
  accepts, with any data after them, are equal byte for byte only if they are the same headers
  with the same data after them.
\<close>
theorem entry_headers_unambiguous:
  assumes "list_all (\<lambda>h. wf_name (fst h)) hs" and "list_all (\<lambda>h. wf_name (fst h)) hs'"
    and "length hs = length hs'"
    and "concat (map entry_header hs) @ rest = concat (map entry_header hs') @ rest'"
  shows "hs = hs' \<and> rest = rest'"
  using assms by (rule entry_codec.stream_unique)

theorem entry_headers_unambiguous_witness:
  "concat (map entry_header [(''a'', 1)]) @ [5] = concat (map entry_header [(''a'', 1)]) @ [5] \<and> [(''a'', 1 :: u64)] = [(''a'', 1)]"
proof -
  have "list_all (\<lambda>h. wf_name (fst h)) [(''a'', 1 :: u64)]"
    by (simp add: wf_name_def as_bytes_def utf8_valid_ascii)
  from entry_headers_unambiguous [OF this this refl refl, of "[5]"] show ?thesis by simp
qed

section \<open>A concrete host\<close>

definition demo_entries :: "entry list" where
  "demo_entries = [(''images/core.img'', [1, 2, 3]), (''io/stdout'', [])]"

definition demo_manifest :: Manifest where
  "demo_manifest =
     \<lparr>mf_format_version = 1, mf_producer = ''mincontainer/0.1.0'', mf_engine = ''criu'', mf_engine_version = ''3.17'',
      mf_created_at = ''t1'', mf_source_host = ''node'', mf_source_arch = ''x86_64'', mf_source_kernel = ''6.1.0'',
      mf_container_id = ''c1'', mf_config = demo_config, mf_lifecycle = demo_state,
      mf_cgroup = \<lparr>cg_memory_max = ''max'', cg_memory_peak = 0, cg_cpu_max = ''max'', cg_pids_max = ''max'',
                   cg_cpu_usage_usec = 0\<rparr>,
      mf_namespaces = \<lparr>ns_pid = None, ns_mnt = None, ns_net = None, ns_uts = None, ns_ipc = None\<rparr>,
      mf_mounts = [], mf_open_fds = [], mf_checkpoint_pid = 42, mf_dump_ms = 0,
      mf_entries = map meta_of demo_entries\<rparr>"

definition demo_snenv :: snenv where
  "demo_snenv = senv.extend demo_senv (snenv.fields
     \<lparr>js_to = \<lambda>_. Inr ''{}'', js_from = \<lambda>_. Inr demo_manifest\<rparr>)"

lemma demo_snenv_sel [simp]:
  "faulty demo_snenv = (\<lambda>_. None)" "e_cwd demo_snenv = []"
  "j_manifest demo_snenv = \<lparr>js_to = \<lambda>_. Inr ''{}'', js_from = \<lambda>_. Inr demo_manifest\<rparr>"
  by (simp_all add: demo_snenv_def senv.defs snenv.defs demo_senv_def)

lemma demo_snenv_no_faults [simp]: "no_faults demo_snenv"
  by (simp add: no_faults_def)

lemma demo_snenv_resolve: "resolve demo_snenv p = foldl resolve_step [] (components p)"
  by (simp add: resolve_def)

definition demo_reader :: SnapshotReader where
  "demo_reader = \<lparr>sr_file = snapshot_bytes ''{}'' [], sr_manifest = demo_manifest, sr_payload_start = 14,
     sr_payload_end = 14, sr_stored_crc = 0\<rparr>"

theorem extract_all_confined_witness:
  "fget (snd (extract_all demo_snenv demo_reader ''/stage'' demo_world)) [''h''] = Some Dir"
proof -
  have "resolve demo_snenv ''/stage'' = [''stage'']"
    unfolding demo_snenv_resolve by code_simp
  moreover have "fget demo_world [''h''] = Some Dir"
    by code_simp
  ultimately show ?thesis
    using extract_all_confined [of demo_snenv "''/stage''" "[''h'']" demo_world demo_reader] by simp
qed

lemma accepts_snapshot_bytes:
  "js_from J json = Inr m \<Longrightarrow> length json \<le> unat MAX_MANIFEST \<Longrightarrow> accepts J path (snapshot_bytes json es)"
  using parse_snapshot_bytes [of json J m path es] by (auto simp: accepts_def)

theorem snapshot_open_refines_parser_witness:
  "fst (snapshot_open demo_snenv ''/h/x'' (demo_world\<lparr>fs := [([''h'', ''x''], File [1, 2, 3])]\<rparr>))
     = Inl (Snapshot ''/h/x: too small to be a snapshot'')"
proof -
  have "resolve demo_snenv ''/h/x'' = [''h'', ''x'']"
    unfolding demo_snenv_resolve by code_simp
  then show ?thesis
    using snapshot_open_refines_parser [of "demo_world\<lparr>fs := [([''h'', ''x''], File [1, 2, 3])]\<rparr>" demo_snenv "''/h/x''" "[1, 2, 3]"]
    by (simp add: fget_def parse_snapshot_def Let_def split: prod.splits)
qed

theorem corrupted_snapshot_rejected_witness:
  "isl (fst (bind_m (snapshot_open demo_snenv ''/h/x'') (verify demo_snenv)
     (demo_world\<lparr>fs := [([''h'', ''x''], File (MAGIC @ [9, 9, 9, 9] @ as_bytes ''{}'' @ TRAILER
        @ u32_to_le (crc32 (snapshot_head ''{}'' []))))]\<rparr>)))"
proof -
  let ?post = "as_bytes ''{}'' @ TRAILER @ u32_to_le (crc32 (snapshot_head ''{}'' []))"
  have "accepts (j_manifest demo_snenv) ''/h/x'' (snapshot_bytes ''{}'' [])"
    by (rule accepts_snapshot_bytes [where m = demo_manifest]) (simp_all add: MAX_MANIFEST_def)
  then have ok: "accepts (j_manifest demo_snenv) ''/h/x'' (MAGIC @ u32_to_le 2 @ ?post)"
    by (simp add: snapshot_bytes_def snapshot_head_def)
  have "resolve demo_snenv ''/h/x'' = [''h'', ''x'']"
    unfolding demo_snenv_resolve by code_simp
  moreover have "u32_to_le 2 \<noteq> [9, 9, 9, 9]"
    by code_simp
  ultimately show ?thesis
    using corrupted_snapshot_rejected [OF ok, of "[9, 9, 9, 9]"
        "demo_world\<lparr>fs := [([''h'', ''x''], File (MAGIC @ [9, 9, 9, 9] @ ?post))]\<rparr>"]
    by (simp add: fget_def)
qed

end
