(* ===== verification/Snapshot_Write.thy ===== *)
theory Snapshot_Write
  imports Snapshot_Read
begin

text \<open>
  What the snapshot writer produces, and the round trip: entries written, assembled, opened,
  verified and extracted come back as they went in.
\<close>

section \<open>One entry\<close>

lemma write_entry_wp:
  assumes scratch: "fget w (sw_scratch_path sw) = Some (File old)" "sw_scratch sw"
  shows "wp (write_entry E sw name len src)
     (\<lambda>sw' t. len = word_of_nat (length src) \<and> (\<forall>e\<in>set (sw_entries sw). em_name e \<noteq> name)
        \<and> sw' = sw\<lparr>sw_entries := sw_entries sw @ [\<lparr>em_name = name, em_len = len, em_crc32 = crc32 src\<rparr>]\<rparr>
        \<and> fget t = (fget w)(sw_scratch_path sw \<mapsto> File (old @ entry_header (name, len) @ src)))
     (\<lambda>_ _. no_faults E \<longrightarrow> len \<noteq> word_of_nat (length src) \<or> (\<exists>e\<in>set (sw_entries sw). em_name e = name)) w"
    (is "wp _ ?Q ?R w")
proof (cases "\<exists>e\<in>set (sw_entries sw). em_name e = name")
  case True
  then show ?thesis
    by (simp add: write_entry_def list_ex_iff)
next
  case False
  let ?p = "sw_scratch_path sw"
  let ?h1 = "u32_to_le (word_of_nat (length name))"
  have hdr: "wp (bind_m (fs_append E ?p ?h1) (\<lambda>_. bind_m (fs_append E ?p (as_bytes name)) (\<lambda>_.
        fs_append E ?p (u64_to_le len))))
      (\<lambda>_ t. fget t = (fget w)(?p \<mapsto> File (old @ entry_header (name, len)))) (\<lambda>_ _. \<not> no_faults E) w"
    unfolding wp_bind
    by (rule wp_mono [OF fs_append_wp [OF scratch(1)]],
        rule wp_mono [OF fs_append_wp [where old = "old @ ?h1"]], simp,
        rule wp_mono [OF fs_append_wp [where old = "old @ ?h1 @ as_bytes name"]])
      (auto simp: entry_header_def)
  have copy: "wp (copy_until_eof E (256 * 1024) rw ww ?p src crc32_new 0)
      (\<lambda>a t. a = (crc32_update crc32_new src, word_of_nat (length src))
        \<and> fget t = (fget w)(?p \<mapsto> File (old @ entry_header (name, len) @ src))) (\<lambda>_ _. \<not> no_faults E) t"
    if t: "fget t = (fget w)(?p \<mapsto> File (old @ entry_header (name, len)))" for t rw ww
    by (rule wp_mono [OF copy_until_eof_wp [where old = "old @ entry_header (name, len)"]]) (auto simp: t)
  have new: "list_ex (\<lambda>e. em_name e = name) (sw_entries sw) = False"
    using False by (simp add: list_ex_iff)
  have opn: "(\<not> sw_scratch sw) = False"
    using scratch(2) by simp
  have check: "wp (bind_m (copy_until_eof E (256 * 1024) rw ww ?p src crc32_new 0) (\<lambda>(crc, copied).
        if copied \<noteq> len then throw_m (Snapshot (name @ '': declared length differs from bytes read''))
        else return_m (sw\<lparr>sw_entries := sw_entries sw
               @ [\<lparr>em_name = name, em_len = len, em_crc32 = crc32_finish crc\<rparr>]\<rparr>))) ?Q ?R t"
    if t: "fget t = (fget w)(?p \<mapsto> File (old @ entry_header (name, len)))" for t rw ww
    unfolding wp_bind by (rule wp_mono [OF copy [OF t]]) (use False in \<open>auto simp: crc32_def\<close>)
  show ?thesis
    unfolding write_entry_def new opn if_False
  proof (rule wp_seq)
    show "wp (snap_err (''write entry header '' @ name)
        (bind_m (fs_append E ?p ?h1) (\<lambda>_. bind_m (fs_append E ?p (as_bytes name)) (\<lambda>_.
          fs_append E ?p (u64_to_le len)))))
        (\<lambda>_ t. fget t = (fget w)(?p \<mapsto> File (old @ entry_header (name, len)))) ?R w"
      unfolding wp_snap_err by (rule wp_mono [OF hdr]) auto
  qed (erule check)
qed

text \<open>
  the writer refuses an entry whose name it already has and an entry whose source did not
  deliver exactly the declared number of bytes, so neither ever reaches the entry table; and
  otherwise, without I/O faults, it records the entry's name, length and CRC-32.
\<close>
theorem write_entry_checks:
  assumes "fget w (sw_scratch_path sw) = Some (File old)" and "sw_scratch sw"
  shows "(fst (write_entry E sw name len src w) = Inr sw' \<longrightarrow>
        len = word_of_nat (length src) \<and> (\<forall>e\<in>set (sw_entries sw). em_name e \<noteq> name)
        \<and> sw_entries sw' = sw_entries sw @ [\<lparr>em_name = name, em_len = len, em_crc32 = crc32 src\<rparr>])
    \<and> (no_faults E \<and> len = word_of_nat (length src) \<and> (\<forall>e\<in>set (sw_entries sw). em_name e \<noteq> name)
        \<longrightarrow> (\<exists>sw'. fst (write_entry E sw name len src w) = Inr sw'))"
  using write_entry_wp [OF assms, of E name len src]
  by (auto simp: wp_def split: prod.splits sum.splits)

section \<open>A sequence of entries\<close>

text \<open>What a caller does between creating a writer and finishing it.\<close>

primrec add_all :: "'b env_scheme \<Rightarrow> SnapshotWriter \<Rightarrow> entry list \<Rightarrow> SnapshotWriter io" where
  "add_all E sw [] = return_m sw"
| "add_all E sw (e # es) = bind_m (add_bytes E sw (fst e) (snd e)) (\<lambda>sw'. add_all E sw' es)"

lemma add_all_wp:
  assumes "fget w (sw_scratch_path sw) = Some (File old)" and "sw_scratch sw"
    and "distinct (map em_name (sw_entries sw) @ map fst es)"
  shows "wp (add_all E sw es)
     (\<lambda>sw' t. sw' = sw\<lparr>sw_entries := sw_entries sw @ map meta_of es\<rparr>
        \<and> fget t = (fget w)(sw_scratch_path sw \<mapsto> File (old @ concat (map entry_bytes es))))
     (\<lambda>_ _. \<not> no_faults E) w"
  using assms
proof (induction es arbitrary: sw old w)
  case Nil
  then show ?case by (simp add: fun_upd_idem)
next
  case (Cons e es)
  have new: "\<not> (\<exists>m\<in>set (sw_entries sw). em_name m = fst e)"
    using Cons.prems(3) by (auto simp: image_iff)
  have step: "wp (add_bytes E sw (fst e) (snd e))
      (\<lambda>sw' t. sw' = sw\<lparr>sw_entries := sw_entries sw @ [meta_of e]\<rparr>
        \<and> fget t = (fget w)(sw_scratch_path sw \<mapsto> File (old @ entry_bytes e))) (\<lambda>_ _. \<not> no_faults E) w"
    unfolding add_bytes_def
    by (rule wp_mono [OF write_entry_wp [OF Cons.prems(1,2)]])
      (use new in \<open>auto simp: meta_of_def entry_bytes_def\<close>)
  have IH: "wp (add_all E (sw\<lparr>sw_entries := sw_entries sw @ [meta_of e]\<rparr>) es)
      (\<lambda>sw' t. sw' = sw\<lparr>sw_entries := sw_entries sw @ map meta_of (e # es)\<rparr>
        \<and> fget t = (fget w)(sw_scratch_path sw \<mapsto> File (old @ concat (map entry_bytes (e # es)))))
      (\<lambda>_ _. \<not> no_faults E) t"
    if t: "fget t = (fget w)(sw_scratch_path sw \<mapsto> File (old @ entry_bytes e))" for t
    by (rule wp_mono [OF Cons.IH [where old = "old @ entry_bytes e"]])
      (use t Cons.prems in \<open>auto simp: meta_of_def\<close>)
  show ?case
    unfolding add_all.simps wp_bind
    by (rule wp_mono [OF step]) (use IH in auto)
qed

section \<open>Where the writer puts its files\<close>

lemma slash_paths:
  assumes "p \<noteq> []" and "simple_name n"
  shows "resolve E (p @ ''/'' @ n) = resolve E p @ [n]" "path_parent E (p @ ''/'' @ n) = Some (resolve E p)"
    "file_name (p @ ''/'' @ n) = Some n"
proof -
  have pc: "pieces (p @ ''/'' @ n) = pieces p @ [Normal n]"
    using assms(2) by (simp only: pieces_slash pieces_simple)
  show "resolve E (p @ ''/'' @ n) = resolve E p @ [n]"
    using assms by (rule resolve_slash_simple)
  have "is_absolute (p @ ''/'' @ n) = is_absolute p"
    using assms(1) by (cases p) (simp_all add: is_absolute_def)
  then show "path_parent E (p @ ''/'' @ n) = Some (resolve E p)"
    using path_parent_pieces [OF pc, of E] by (simp only: resolve_pieces)
  show "file_name (p @ ''/'' @ n) = Some n"
    by (simp only: file_name_def components_pieces pc) simp
qed

lemma file_stem_differs: "file_stem n @ ''.mcsnap.part'' \<noteq> n"
proof
  assume eq: "file_stem n @ ''.mcsnap.part'' = n"
  have "rsplit_once (CHR ''.'') ((file_stem n @ ''.mcsnap'') @ CHR ''.'' # ''part'') = Some (file_stem n @ ''.mcsnap'', ''part'')"
    by (rule rsplit_once_last) simp
  then obtain s where s: "rsplit_once (CHR ''.'') n = Some (s, ''part'')" "s = file_stem n @ ''.mcsnap''"
    using eq by simp
  from s(2) have "s \<noteq> []" by simp
  then have "file_stem n = s"
    unfolding file_stem_def s(1) by simp
  with s(2) show False by simp
qed

lemma file_stem_set: "set (file_stem n) \<subseteq> set n"
proof -
  have "rsplit_once c n = Some (a, b) \<Longrightarrow> set a \<subseteq> set n" for c a b
    by (induction n arbitrary: a) (auto split: option.splits if_splits)
  then show ?thesis
    by (auto simp: file_stem_def split: option.splits)
qed

lemma with_extension_slash:
  assumes "p \<noteq> []" and "simple_name n"
  shows "with_extension (p @ ''/'' @ n) ''mcsnap.part'' = p @ ''/'' @ (file_stem n @ ''.mcsnap.part'')"
proof -
  have ne: "n \<noteq> []" "CHR ''/'' \<notin> set n"
    using assms(2) by (auto simp: simple_name_def)
  moreover from ne have "last n \<noteq> CHR ''/''"
    by (metis last_in_set)
  ultimately have "dropWhile (\<lambda>c. c = CHR ''/'') (rev (p @ ''/'' @ n)) = rev (p @ ''/'' @ n)"
    by (cases n rule: rev_cases) auto
  then show ?thesis
    unfolding with_extension_def slash_paths(3) [OF assms] option.case Let_def by simp
qed

lemma simple_scratch: "simple_name n \<Longrightarrow> simple_name (file_stem n @ ''.mcsnap.part'')"
  using file_stem_set [of n] by (auto simp: simple_name_def)

section \<open>Assembling the file\<close>

lemma crc_append_wp:
  assumes "fget w p = Some (File old)" and "crc = crc32_update crc32_new old"
  shows "wp (crc_append E p b crc)
     (\<lambda>c t. c = crc32_update crc32_new (old @ b) \<and> fget t = (fget w)(p \<mapsto> File (old @ b))) (\<lambda>_ _. \<not> no_faults E) w"
  unfolding crc_append_def wp_bind wp_return
  by (rule wp_mono [OF fs_append_wp [OF assms(1)]]) (auto simp: assms(2) crc32_update_append)

lemma remove_scratch_wp:
  "wp (ignore_m (fs_remove_file E p)) (\<lambda>_ t. (\<forall>q. q \<noteq> p \<longrightarrow> fget t q = fget w q)) R w"
  unfolding wp_ignore by (rule wp_mono [OF fs_remove_file_wp]) auto

definition assembled :: "string \<Rightarrow> bytes \<Rightarrow> bytes" where
  "assembled json pay =
     (let h = MAGIC @ u32_to_le (word_of_nat (length json)) @ as_bytes json @ pay @ TRAILER
      in h @ u32_to_le (crc32 h))"

lemma finish_body_wp:
  assumes scratch: "fget w p = Some (File pay)" "p = sw_scratch_path sw" "sw_scratch sw"
    and d: "d = resolve E dest" "d \<noteq> p" "can_create w d"
    and json: "to_json (j_manifest E) (build (sw_entries sw)) = Inr json" "\<not> MAX_MANIFEST < word_of_nat (length json)"
  shows "wp (finish_body E sw dest build)
     (\<lambda>m t. m = build (sw_entries sw) \<and> fget t d = Some (File (assembled json pay))
        \<and> (\<forall>q. q \<noteq> d \<and> q \<noteq> p \<longrightarrow> fget t q = fget w q)) (\<lambda>_ _. \<not> no_faults E) w"
proof -
  let ?len = "u32_to_le (word_of_nat (length json))"
  let ?h = "MAGIC @ ?len @ as_bytes json"
  let ?up = "\<lambda>b. (fget w)(d \<mapsto> File b)"
  have small: "(MAX_MANIFEST < (word_of_nat (length json) :: u32)) = False"
    using json(2) by simp
  have opn: "(\<not> sw_scratch sw) = False" using scratch(3) by simp
  have create: "wp (fs_write E d []) (\<lambda>_ t. fget t = ?up []) (\<lambda>_ _. \<not> no_faults E) t" if "fget t = fget w" for t
    by (rule wp_mono [OF fs_create_wp]) (use that d in \<open>auto simp: can_create_def is_dir_def\<close>)
  have header: "wp (bind_m (crc_append E d MAGIC crc32_new) (\<lambda>c. bind_m (crc_append E d ?len c) (\<lambda>c.
        crc_append E d (as_bytes json) c)))
      (\<lambda>c t. c = crc32_update crc32_new ?h \<and> fget t = ?up ?h) (\<lambda>_ _. \<not> no_faults E) t" if t: "fget t = ?up []" for t
    unfolding wp_bind
    by (rule wp_mono [OF crc_append_wp [where old = "[]"]], simp_all add: t,
        rule wp_mono [OF crc_append_wp [where old = MAGIC]], simp_all,
        rule wp_mono [OF crc_append_wp [where old = "MAGIC @ ?len"]], simp_all)
  have payload: "wp (fs_read E p) (\<lambda>b t. b = pay \<and> fget t = ?up ?h) (\<lambda>_ _. \<not> no_faults E) t" if t: "fget t = ?up ?h" for t
    by (rule wp_mono [OF fs_read_wp'])
      (use t scratch(1) d(2) in \<open>auto simp: only_tick_fget node_cases_file\<close>)
  have copy: "wp (copy_until_eof E (8 * 1024) rw ww d pay (crc32_update crc32_new ?h) 0)
      (\<lambda>a t. fst a = crc32_update crc32_new (?h @ pay) \<and> fget t = ?up (?h @ pay)) (\<lambda>_ _. \<not> no_faults E) t"
    if t: "fget t = ?up ?h" for t rw ww
    by (rule wp_mono [OF copy_until_eof_wp [where old = ?h]]) (auto simp: t crc32_update_append)
  have trailer: "wp (crc_append E d TRAILER (crc32_update crc32_new (?h @ pay)))
      (\<lambda>c t. crc32_finish c = crc32 (?h @ pay @ TRAILER) \<and> fget t = ?up (?h @ pay @ TRAILER)) (\<lambda>_ _. \<not> no_faults E) t"
    if t: "fget t = ?up (?h @ pay)" for t
    by (rule wp_mono [OF crc_append_wp [where old = "?h @ pay"]]) (auto simp: t crc32_def)
  have crc: "wp (fs_append E d (u32_to_le (crc32 (?h @ pay @ TRAILER))))
      (\<lambda>_ t. fget t = ?up (assembled json pay)) (\<lambda>_ _. \<not> no_faults E) t" if t: "fget t = ?up (?h @ pay @ TRAILER)" for t
    by (rule wp_mono [OF fs_append_wp [where old = "?h @ pay @ TRAILER"]]) (auto simp: t assembled_def Let_def)
  have fin: "wp (bind_m (ignore_m (fs_remove_file E p)) (\<lambda>_. return_m m)) (\<lambda>m' t. m' = m
      \<and> fget t d = Some (File (assembled json pay)) \<and> (\<forall>q. q \<noteq> d \<and> q \<noteq> p \<longrightarrow> fget t q = fget w q))
      (\<lambda>_ _. \<not> no_faults E) t" if t: "fget t = ?up (assembled json pay)" for t and m :: Manifest
    by (rule wp_seq [OF remove_scratch_wp]) (use t d(2) in auto)
  have tail: "wp (bind_m (snap_err ''write trailer'' (crc_append E d TRAILER c)) (\<lambda>c.
        bind_m (snap_err ''write crc'' (fs_append E d (u32_to_le (crc32_finish c)))) (\<lambda>_.
        bind_m (snap_err ''flush'' (io_touch E)) (\<lambda>_.
        bind_m (ignore_m (fs_remove_file E p)) (\<lambda>_. return_m m))))) (\<lambda>m' t. m' = m
      \<and> fget t d = Some (File (assembled json pay)) \<and> (\<forall>q. q \<noteq> d \<and> q \<noteq> p \<longrightarrow> fget t q = fget w q))
      (\<lambda>_ _. \<not> no_faults E) t"
    if t: "fget t = ?up (?h @ pay)" "c = crc32_update crc32_new (?h @ pay)" for t c and m :: Manifest
    unfolding t(2)
    by (rule wp_seq_snap [OF trailer [OF t(1)]], elim conjE, simp only:,
        rule wp_seq_snap [OF crc], assumption, rule wp_seq_snap [OF touch_wp], rule fin, simp only:)
  show ?thesis
    unfolding finish_body_def opn if_False Let_def json(1) bind_lift small d(1) [symmetric] scratch(2) [symmetric]
    by (rule wp_seq_snap [OF touch_wp], rule wp_seq_snap [OF create], assumption,
        rule wp_seq_snap [OF header], assumption, elim conjE, simp only:,
        rule wp_seq_snap [OF payload], assumption, elim conjE, simp only:,
        rule wp_seq [OF copy], assumption, unfold split_beta, rule tail, blast+)
qed

lemma manifest_fits: "length json \<le> unat MAX_MANIFEST \<Longrightarrow> \<not> MAX_MANIFEST < word_of_nat (length json)"
  by (simp add: MAX_MANIFEST_def word_less_nat_alt unat_of_nat)

lemma finish_wp:
  assumes "fget w p = Some (File pay)" "p = sw_scratch_path sw" "sw_scratch sw"
    and "d = resolve E dest" "d \<noteq> p" "can_create w d"
    and "to_json (j_manifest E) (build (sw_entries sw)) = Inr json" "\<not> MAX_MANIFEST < word_of_nat (length json)"
  shows "wp (finish E sw dest build)
     (\<lambda>m t. m = build (sw_entries sw) \<and> fget t d = Some (File (assembled json pay))
        \<and> (\<forall>q. q \<noteq> d \<and> q \<noteq> p \<longrightarrow> fget t q = fget w q)) (\<lambda>_ _. \<not> no_faults E) w"
  unfolding finish_def SnapshotWriter_drop_def wp_bind wp_try
  by (rule wp_mono [OF finish_body_wp [OF assms(1-6), where build = build, OF assms(7,8)]];
      rule wp_mono [OF remove_scratch_wp])
    (use assms(2,5) in auto)

text \<open>Whatever goes wrong, a success means that the destination holds the assembled file.\<close>

lemma finish_body_success:
  assumes scratch: "fget w p = Some (File pay)" "p = sw_scratch_path sw" "sw_scratch sw"
    and d: "d = resolve E dest" "d \<noteq> p"
  shows "wp (finish_body E sw dest build)
     (\<lambda>m t. m = build (sw_entries sw) \<and> (\<exists>json. to_json (j_manifest E) m = Inr json
          \<and> fget t d = Some (File (assembled json pay)))
        \<and> (\<forall>q. q \<noteq> d \<and> q \<noteq> p \<longrightarrow> fget t q = fget w q)) (\<lambda>_ _. True) w"
proof (cases "to_json (j_manifest E) (build (sw_entries sw))")
  case (Inl e)
  then show ?thesis
    by (simp add: finish_body_def Let_def scratch(3)) (rule wp_mono [OF touch_wp], simp_all)
next
  case (Inr json)
  show ?thesis
  proof (cases "MAX_MANIFEST < word_of_nat (length json) \<or> \<not> can_create w d")
    case True
    have create: "wp (fs_write E d []) (\<lambda>_ _. can_create w d) (\<lambda>_ _. True) t" if "fget t = fget w" for t
      by (rule wp_mono [OF fs_create_wp]) (use that in \<open>auto simp: can_create_def is_dir_def\<close>)
    have any: "wp m Q (\<lambda>_ _. True) t" if "can_create w d" "MAX_MANIFEST < word_of_nat (length json) = False"
      for m :: "'x io" and Q t using True that by simp
    have opn: "(\<not> sw_scratch sw) = False" using scratch(3) by simp
    show ?thesis
      unfolding finish_body_def Let_def Inr bind_lift d(1) [symmetric] opn if_False
      by (rule wp_seq [where Q' = "\<lambda>_ t. fget t = fget w"], simp, rule wp_mono [OF touch_wp], simp, simp,
          cases "MAX_MANIFEST < (word_of_nat (length json) :: u32)", simp, simp only: if_False,
          rule wp_seq [where Q' = "\<lambda>_ _. can_create w d"], unfold wp_snap_err, erule create, rule any, simp_all)
  next
    case False
    with Inr show ?thesis
      by (intro wp_mono [OF finish_body_wp [OF scratch d, where build = build and json = json]]) auto
  qed
qed

lemma finish_success:
  assumes "fget w p = Some (File pay)" "p = sw_scratch_path sw" "sw_scratch sw"
    and "d = resolve E dest" "d \<noteq> p"
  shows "wp (finish E sw dest build)
     (\<lambda>m t. m = build (sw_entries sw) \<and> (\<exists>json. to_json (j_manifest E) m = Inr json
          \<and> fget t d = Some (File (assembled json pay)))
        \<and> (\<forall>q. q \<noteq> d \<and> q \<noteq> p \<longrightarrow> fget t q = fget w q)) (\<lambda>_ _. True) w"
  unfolding finish_def SnapshotWriter_drop_def wp_bind wp_try
  by (rule wp_mono [OF finish_body_success [OF assms, where build = build]];
      rule wp_mono [OF remove_scratch_wp])
    (use assms(2,5) in auto)

definition write_snapshot ::
  "'b snenv_scheme \<Rightarrow> string \<Rightarrow> entry list \<Rightarrow> (EntryMeta list \<Rightarrow> Manifest) \<Rightarrow> Manifest io" where
  "write_snapshot E dest es build =
     bind_m (SnapshotWriter_new E dest) (\<lambda>sw.
     bind_m (add_all E sw es) (\<lambda>sw'.
     finish E sw' dest build))"

text \<open>The directory of the snapshot can be made and both of its files can be created there.\<close>

definition writable_dest :: "fspath \<Rightarrow> string \<Rightarrow> (fspath \<Rightarrow> node option) \<Rightarrow> bool" where
  "writable_dest p n g \<longleftrightarrow>
     (\<forall>q b. under q p \<longrightarrow> g q \<noteq> Some (File b)) \<and> g (p @ [n]) \<noteq> Some Dir
     \<and> g (p @ [file_stem n @ ''.mcsnap.part'']) \<noteq> Some Dir"

lemma SnapshotWriter_new_wp:
  assumes "p \<noteq> []" "simple_name n" and wr: "writable_dest (resolve E p) n (fget w)"
  shows "wp (SnapshotWriter_new E (p @ ''/'' @ n))
     (\<lambda>sw t. sw = \<lparr>sw_scratch_path = resolve E p @ [file_stem n @ ''.mcsnap.part''], sw_scratch = True, sw_entries = []\<rparr>
        \<and> fget t = (with_dirs (resolve E p) (fget w))(resolve E p @ [file_stem n @ ''.mcsnap.part''] \<mapsto> File []))
     (\<lambda>_ _. \<not> no_faults E) w"
proof -
  let ?d = "resolve E p" and ?s = "file_stem n @ ''.mcsnap.part''"
  have scratch: "resolve E (with_extension (p @ ''/'' @ n) ''mcsnap.part'') = ?d @ [?s]"
    unfolding with_extension_slash [OF assms(1,2)]
    by (rule slash_paths(1) [OF assms(1) simple_scratch [OF assms(2)]])
  have mkdir: "wp (fs_create_dir_all E ?d) (\<lambda>_ v. fget v = with_dirs ?d (fget w)) (\<lambda>_ _. \<not> no_faults E) w"
    by (rule wp_mono [OF fs_mkdir_wp])
      (use wr in \<open>auto simp: with_dirs_def writable_dest_def node_cases_file\<close>)
  have create: "wp (fs_write E (?d @ [?s]) []) (\<lambda>_ t. fget t = (with_dirs ?d (fget w))(?d @ [?s] \<mapsto> File []))
      (\<lambda>_ _. \<not> no_faults E) v" if v: "fget v = with_dirs ?d (fget w)" for v
  proof -
    have "fget v ?d = Some Dir"
      using v wr by (auto simp: with_dirs_def writable_dest_def) (metis node.exhaust under_refl)
    moreover have "fget v (?d @ [?s]) \<noteq> Some Dir"
      using v wr by (simp add: with_dirs_def writable_dest_def)
    ultimately have "can_create v (?d @ [?s])"
      by (simp add: can_create_def is_dir_def)
    then show ?thesis
      by (intro wp_mono [OF fs_create_wp]) (auto simp: v)
  qed
  show ?thesis
    unfolding SnapshotWriter_new_def Let_def scratch slash_paths(2) [OF assms(1,2)] option.case
    by (rule wp_seq_snap [OF mkdir], rule wp_seq_snap [OF create]) simp_all
qed

lemma clash_free_distinct: "clash_free es \<Longrightarrow> distinct (map fst es)"
  by (induction es) (auto simp: list_all_iff clash_def)

lemma write_snapshot_wp:
  assumes p: "p \<noteq> []" "simple_name n" and wr: "writable_dest (resolve E p) n (fget w)"
    and "distinct (map fst es)"
    and json: "to_json (j_manifest E) (build (map meta_of es)) = Inr json" "length json \<le> unat MAX_MANIFEST"
  shows "wp (write_snapshot E (p @ ''/'' @ n) es build)
     (\<lambda>m t. m = build (map meta_of es) \<and> fget t (resolve E p @ [n]) = Some (File (snapshot_bytes json es))
        \<and> (\<forall>q. q \<noteq> resolve E p @ [n] \<and> q \<noteq> resolve E p @ [file_stem n @ ''.mcsnap.part'']
             \<longrightarrow> fget t q = with_dirs (resolve E p) (fget w) q))
     (\<lambda>_ _. \<not> no_faults E) w"
proof -
  let ?d = "resolve E p" and ?s = "file_stem n @ ''.mcsnap.part''"
  define sw where "sw = \<lparr>sw_scratch_path = ?d @ [?s], sw_scratch = True, sw_entries = []\<rparr>"
  define pay where "pay = concat (map entry_bytes es)"
  have ne: "?s \<noteq> n" by (rule file_stem_differs)
  have add: "wp (add_all E sw es) (\<lambda>sw' t. sw' = sw\<lparr>sw_entries := map meta_of es\<rparr>
      \<and> fget t = (with_dirs ?d (fget w))(?d @ [?s] \<mapsto> File pay)) (\<lambda>_ _. \<not> no_faults E) t"
    if t: "fget t = (with_dirs ?d (fget w))(?d @ [?s] \<mapsto> File [])" for t
    by (rule wp_mono [OF add_all_wp [where old = "[]"]])
      (use t assms(4) in \<open>auto simp: sw_def pay_def\<close>)
  have fin: "wp (finish E (sw\<lparr>sw_entries := map meta_of es\<rparr>) (p @ ''/'' @ n) build)
      (\<lambda>m t. m = build (map meta_of es) \<and> fget t (?d @ [n]) = Some (File (snapshot_bytes json es))
        \<and> (\<forall>q. q \<noteq> ?d @ [n] \<and> q \<noteq> ?d @ [?s] \<longrightarrow> fget t q = with_dirs ?d (fget w) q)) (\<lambda>_ _. \<not> no_faults E) t"
    if t: "fget t = (with_dirs ?d (fget w))(?d @ [?s] \<mapsto> File pay)" for t
  proof -
    have "fget t ?d = Some Dir"
      using t wr by (auto simp: with_dirs_def writable_dest_def) (metis node.exhaust under_refl)
    then have create: "can_create t (?d @ [n])"
      using t wr ne by (simp add: can_create_def is_dir_def with_dirs_def writable_dest_def)
    have d: "?d @ [n] = resolve E (p @ ''/'' @ n)" "?d @ [n] \<noteq> ?d @ [?s]"
      using slash_paths(1) [OF p, of E] ne by (metis, metis last_snoc)
    have "fget t (?d @ [?s]) = Some (File pay)" "?d @ [?s] = sw_scratch_path (sw\<lparr>sw_entries := map meta_of es\<rparr>)"
      "sw_scratch (sw\<lparr>sw_entries := map meta_of es\<rparr>)"
      by (simp_all add: t sw_def)
    note f = finish_wp [OF this d create, of build json]
    show ?thesis
      by (rule wp_mono [OF f])
        (use json manifest_fits [OF json(2)] t in \<open>auto simp: assembled_def snapshot_bytes_def snapshot_head_def pay_def Let_def\<close>)
  qed
  show ?thesis
    unfolding write_snapshot_def
    by (rule wp_seq [OF SnapshotWriter_new_wp [OF p wr]], elim conjE, simp only: sw_def [symmetric],
        rule wp_seq [OF add], assumption, elim conjE, simp only:, rule fin, assumption)
qed

section \<open>The round trip\<close>

definition apart :: "fspath \<Rightarrow> fspath \<Rightarrow> bool" where
  "apart a b \<longleftrightarrow> \<not> under a b \<and> \<not> under b a"

definition unpack_snapshot :: "'b snenv_scheme \<Rightarrow> string \<Rightarrow> string \<Rightarrow> Manifest io" where
  "unpack_snapshot E path dir =
     bind_m (snapshot_open E path) (\<lambda>r.
     bind_m (verify E r) (\<lambda>_.
     bind_m (extract_all E r dir) (\<lambda>_. return_m (sr_manifest r))))"

lemma unpack_snapshot_wp:
  assumes "list_all wf_entry es" "clash_free es" and d: "d = resolve E dir" "fresh_target d (fget w)"
    and content: "fget w (resolve E path) = Some (File (snapshot_bytes json es))"
    and json: "js_from (j_manifest E) json = Inr m" "length json \<le> unat MAX_MANIFEST"
    and entries: "mf_entries m = map meta_of es"
  shows "wp (unpack_snapshot E path dir) (\<lambda>m' t. m' = m \<and> unpacked d (set es) (fget t)) (\<lambda>_ _. \<not> no_faults E) w"
proof -
  obtain r where r: "parse_snapshot (j_manifest E) path (snapshot_bytes json es) = Inr r" "sr_manifest r = m"
    "drop (sr_payload_start r) (sr_file r)
       = concat (map entry_bytes es) @ TRAILER @ u32_to_le (crc32 (snapshot_head json es))"
    "verify_spec r = Inr ()"
    using parse_snapshot_bytes [OF json(2,1)] by blast
  have opn: "wp (snapshot_open E path) (\<lambda>r' t. r' = r \<and> fget t = fget w) (\<lambda>_ _. \<not> no_faults E) w"
    by (rule wp_mono [OF snapshot_open_wp]) (use content r(1) in \<open>auto simp: only_tick_fget is_file_def\<close>)
  have ver: "wp (verify E r) (\<lambda>_ t. fget t = fget v) (\<lambda>_ _. \<not> no_faults E) v" for v
    by (rule wp_mono [OF implements_wp [OF verify_implements]]) (use r(4) in \<open>auto simp: only_tick_fget\<close>)
  have ext: "wp (extract_all E r dir) (\<lambda>_ t. unpacked d (set es) (fget t)) (\<lambda>_ _. \<not> no_faults E) v"
    if "fget v = fget w" for v
    using extract_all_wp [OF assms(1,2) _ d(1), of v r] d(2) r(2,3) entries that by simp
  show ?thesis
    unfolding unpack_snapshot_def
    by (rule wp_seq [OF opn], elim conjE, simp only:, rule wp_seq [OF ver], rule wp_seq [OF ext])
      (simp_all add: r(2))
qed

lemma fresh_target_kept:
  assumes "fresh_target d g" and "apart d (p @ [n])" "apart d (p @ [s])"
    and h: "\<forall>q. q \<noteq> p @ [n] \<and> q \<noteq> p @ [s] \<longrightarrow> h q = with_dirs p g q"
  shows "fresh_target d h"
proof -
  have np: "\<not> under d p"
    using assms(2) under_trans [of d p "p @ [n]"] by (auto simp: apart_def)
  have "h q \<noteq> Some (File b)" if "under q d" for q b
  proof -
    have "q \<noteq> p @ [n]" "q \<noteq> p @ [s]"
      using that assms(2,3) by (auto simp: apart_def)
    then show ?thesis
      using h assms(1) that by (auto simp: with_dirs_def fresh_target_def)
  qed
  moreover have "h q = None" if "under d q" "q \<noteq> d" for q
  proof -
    have "q \<noteq> p @ [n]" "q \<noteq> p @ [s]"
      using that assms(2,3) by (auto simp: apart_def)
    moreover have "\<not> under q p"
      using that np under_trans by blast
    ultimately show ?thesis
      using h assms(1) that by (auto simp: with_dirs_def fresh_target_def)
  qed
  ultimately show ?thesis
    by (simp add: fresh_target_def)
qed

text \<open>
  C2: a snapshot gives back what was put into it. Write any list of entries with safe, mutually
  non-nested names into a snapshot file, then open, verify and unpack that file into a fresh
  directory. If the run succeeds, the manifest read is the manifest written and every entry is a
  file with exactly its bytes; and the run can only fail when an I/O operation failed, however the
  reads and writes were split into chunks.
\<close>
theorem snapshot_roundtrip:
  fixes E :: "'b snenv_scheme"
  assumes p: "p \<noteq> []" "simple_name n" and wr: "writable_dest (resolve E p) n (fget w)"
    and es: "list_all wf_entry es" "clash_free es"
    and m: "build (map meta_of es) = m" "mf_entries m = map meta_of es"
    and json: "js_to (j_manifest E) m = Inr json" "js_from (j_manifest E) json = Inr m" "length json \<le> 8388608"
    and d: "fresh_target (resolve E dir) (fget w)" "apart (resolve E dir) (resolve E p @ [n])"
      "apart (resolve E dir) (resolve E p @ [file_stem n @ ''.mcsnap.part''])"
  shows "let (r, t) = bind_m (write_snapshot E (p @ ''/'' @ n) es build)
                        (\<lambda>_. unpack_snapshot E (p @ ''/'' @ n) dir) w
     in (no_faults E \<longrightarrow> r = Inr m)
        \<and> (\<forall>m'. r = Inr m' \<longrightarrow> m' = m \<and>
             (\<forall>e\<in>set es. fget t (resolve E dir @ names_of (fst e)) = Some (File (snd e))))"
proof -
  have tj: "to_json (j_manifest E) (build (map meta_of es)) = Inr json" "length json \<le> unat MAX_MANIFEST"
    using json m by (simp_all add: to_json_def MAX_MANIFEST_def)
  have un: "wp (unpack_snapshot E (p @ ''/'' @ n) dir)
      (\<lambda>m' t. m' = m \<and> unpacked (resolve E dir) (set es) (fget t)) (\<lambda>_ _. \<not> no_faults E) t"
    if t: "fget t (resolve E p @ [n]) = Some (File (snapshot_bytes json es))"
      "\<forall>q. q \<noteq> resolve E p @ [n] \<and> q \<noteq> resolve E p @ [file_stem n @ ''.mcsnap.part'']
         \<longrightarrow> fget t q = with_dirs (resolve E p) (fget w) q" for t
    using unpack_snapshot_wp [OF es refl fresh_target_kept [OF d t(2)] _ json(2) tj(2) m(2), of "p @ ''/'' @ n"]
      t(1) slash_paths(1) [OF p, of E] by simp
  have "wp (bind_m (write_snapshot E (p @ ''/'' @ n) es build) (\<lambda>_. unpack_snapshot E (p @ ''/'' @ n) dir))
      (\<lambda>m' t. m' = m \<and> unpacked (resolve E dir) (set es) (fget t)) (\<lambda>_ _. \<not> no_faults E) w"
    by (rule wp_seq [OF write_snapshot_wp [OF p wr clash_free_distinct [OF es(2)], where build = build, OF tj]])
      (elim conjE, rule un)
  then show ?thesis
    by (auto simp: wp_def unpacked_def split: prod.splits sum.splits)
qed

lemma fget_in_fs: "fget w q = Some n \<Longrightarrow> (q, n) \<in> set (fs w)"
  by (simp add: fget_def map_of_SomeD)

lemma fresh_targetI:
  "list_all (\<lambda>(q, n). (under q d \<longrightarrow> n = Dir) \<and> (under d q \<longrightarrow> q = d)) (fs w) \<Longrightarrow> fresh_target d (fget w)"
proof -
  assume all: "list_all (\<lambda>(q, n). (under q d \<longrightarrow> n = Dir) \<and> (under d q \<longrightarrow> q = d)) (fs w)"
  have "(under q d \<longrightarrow> n = Dir) \<and> (under d q \<longrightarrow> q = d)" if "fget w q = Some n" for q n
    using all fget_in_fs [OF that] by (auto simp: list_all_iff)
  then show ?thesis
    unfolding fresh_target_def by (metis node.distinct(1) not_Some_eq)
qed

lemma writable_destI:
  "list_all (\<lambda>(q, n). under q p \<longrightarrow> n = Dir) (fs w) \<Longrightarrow> fget w (p @ [m]) \<noteq> Some Dir \<Longrightarrow>
     fget w (p @ [file_stem m @ ''.mcsnap.part'']) \<noteq> Some Dir \<Longrightarrow> writable_dest p m (fget w)"
  by (auto simp: writable_dest_def list_all_iff dest!: fget_in_fs)

theorem snapshot_roundtrip_witness:
  "fst (bind_m (write_snapshot demo_snenv (''/h'' @ ''/'' @ ''x.mcsnap'') demo_entries (\<lambda>_. demo_manifest))
     (\<lambda>_. unpack_snapshot demo_snenv (''/h'' @ ''/'' @ ''x.mcsnap'') ''/stage'') demo_world) = Inr demo_manifest"
proof -
  have paths: "resolve demo_snenv ''/h'' = [''h'']" "resolve demo_snenv ''/stage'' = [''stage'']"
    unfolding demo_snenv_resolve by code_simp+
  have fresh: "fresh_target [''stage''] (fget demo_world)"
    by (rule fresh_targetI) code_simp
  have wr: "writable_dest [''h''] ''x.mcsnap'' (fget demo_world)"
    by (rule writable_destI) code_simp+
  have "list_all wf_entry demo_entries"
  proof -
    have "list_all (\<lambda>e. utf8_valid (as_bytes (fst e)) \<and> safe_name (fst e)) demo_entries"
      by code_simp
    then show ?thesis
      by (simp add: demo_entries_def wf_entry_def wf_name_def)
  qed
  moreover have "simple_name ''x.mcsnap''" "clash_free demo_entries"
    "apart [''stage''] [''h'', ''x.mcsnap'']" "apart [''stage''] ([''h''] @ [file_stem ''x.mcsnap'' @ ''.mcsnap.part''])"
    by code_simp+
  ultimately show ?thesis
    using snapshot_roundtrip [of "''/h''" "''x.mcsnap''" demo_snenv demo_world demo_entries
        "\<lambda>_. demo_manifest" demo_manifest "''{}''" "''/stage''"] fresh wr
    by (simp add: paths demo_manifest_def [THEN arg_cong [where f = mf_entries]] split: prod.splits)
qed

theorem write_entry_checks_witness:
  "\<exists>sw'. fst (write_entry demo_snenv \<lparr>sw_scratch_path = [''s''], sw_scratch = True, sw_entries = []\<rparr> ''a'' 1 [7]
     (demo_world\<lparr>fs := [([''s''], File [])]\<rparr>)) = Inr sw'"
  using write_entry_checks [of "demo_world\<lparr>fs := [([''s''], File [])]\<rparr>"
      "\<lparr>sw_scratch_path = [''s''], sw_scratch = True, sw_entries = []\<rparr>" "[]" demo_snenv "''a''" 1 "[7]"]
  by (simp add: fget_def)

end
