(* ===== verification/Cgroups.thy ===== *)
theory Cgroups
  imports State
begin

text \<open>
  \<^verbatim>\<open>src/cgroups.rs\<close>: the control group of one container. The control-group tree belongs to the
  kernel: creating a group, removing it and writing one of its files are requests, recorded in
  order; reading is a question to the kernel. The lemmas say which requests each operation makes.
\<close>

section \<open>Operations\<close>

definition CGROUP_ROOT :: string where "CGROUP_ROOT = ''/sys/fs/cgroup''"

record CgroupLeaf =
  cgl_path :: string

definition cg_err :: "string \<Rightarrow> 'a sys \<Rightarrow> 'a io" where
  "cg_err what m = map_err_m (\<lambda>e. Cgroup (what @ '': '' @ e)) m"

definition wanted_controllers :: "string \<Rightarrow> string list" where
  "wanted_controllers available =
     map (\<lambda>c. ''+'' @ c) (filter (\<lambda>c. c \<in> set (split_whitespace available)) [''memory'', ''cpu'', ''pids''])"

definition delegated :: "string list \<Rightarrow> string \<Rightarrow> bool" where
  "delegated want cur = list_all (\<lambda>wc. list_ex (\<lambda>c. ''+'' @ c = wc) (split_whitespace cur)) want"

definition ensure_delegation :: "'b env_scheme \<Rightarrow> unit io" where
  "ensure_delegation E =
     bind_m (cg_read E (CGROUP_ROOT @ ''/cgroup.controllers'')) (\<lambda>avail.
     case avail of
       None \<Rightarrow> throw_m (Cgroup ''read cgroup.controllers'')
     | Some available \<Rightarrow>
         (let want = wanted_controllers available; subtree = CGROUP_ROOT @ ''/cgroup.subtree_control'';
              init = CGROUP_ROOT @ ''/mc.init'' in
          if want = [] then throw_m (Cgroup ''no memory/cpu/pids controllers available (need cgroup v2, privileged)'')
          else
            bind_m (cg_read E subtree) (\<lambda>cur.
            if (case cur of Some c \<Rightarrow> delegated want c | None \<Rightarrow> False) then return_m ()
            else
              bind_m (cg_err ''mkdir mc.init'' (cg_mkdir E init)) (\<lambda>_.
              bind_m (cg_read E (CGROUP_ROOT @ ''/cgroup.procs'')) (\<lambda>root_procs.
              bind_m (forM_m (split_whitespace (case root_procs of Some s \<Rightarrow> s | None \<Rightarrow> []))
                        (\<lambda>pid. ignore_m (cg_write E (init @ ''/cgroup.procs'') pid))) (\<lambda>_.
              cg_err (''enable '' @ join_with '' '' want) (cg_write E subtree (join_with '' '' want))))))))"

definition Cgroup_open :: "string \<Rightarrow> CgroupLeaf" where
  "Cgroup_open cid = \<lparr>cgl_path = path_join CGROUP_ROOT cid\<rparr>"

definition Cgroup_create :: "'b env_scheme \<Rightarrow> string \<Rightarrow> CgroupLeaf io" where
  "Cgroup_create E cid =
     bind_m (ensure_delegation E) (\<lambda>_.
     let path = path_join CGROUP_ROOT cid
     in bind_m (cg_err (''mkdir '' @ path) (cg_mkdir E path)) (\<lambda>_. return_m \<lparr>cgl_path = path\<rparr>))"

definition Cgroup_exists :: "CgroupLeaf \<Rightarrow> (world, 'e, bool) eio" where
  "Cgroup_exists g = get_m (\<lambda>w. cgs w (cgl_path g) \<noteq> None)"

definition Cgroup_write :: "'b env_scheme \<Rightarrow> CgroupLeaf \<Rightarrow> string \<Rightarrow> string \<Rightarrow> unit io" where
  "Cgroup_write E g name v =
     (let f = path_join (cgl_path g) name
      in cg_err (''write '' @ f @ ''='' @ [CHR 0x22] @ v @ [CHR 0x22]) (cg_write E f v))"

definition show_u64 :: "u64 \<Rightarrow> string" where
  "show_u64 v = show_nat (unat v)"

definition Cgroup_apply :: "'b env_scheme \<Rightarrow> CgroupLeaf \<Rightarrow> Resources \<Rightarrow> unit io" where
  "Cgroup_apply E g r =
     bind_m (if 0 < memory_max r
             then bind_m (Cgroup_write E g ''memory.max'' (show_u64 (memory_max r))) (\<lambda>_.
                  ignore_m (Cgroup_write E g ''memory.swap.max'' ''0''))
             else return_m ()) (\<lambda>_.
     bind_m (if 0 < cpu_quota r
             then Cgroup_write E g ''cpu.max'' (show_u64 (cpu_quota r) @ '' '' @ show_u64 (cpu_period r))
             else return_m ()) (\<lambda>_.
     if 0 < pids_max r then Cgroup_write E g ''pids.max'' (show_u64 (pids_max r)) else return_m ()))"

definition add_process :: "'b env_scheme \<Rightarrow> CgroupLeaf \<Rightarrow> int \<Rightarrow> unit io" where
  "add_process E g pid = Cgroup_write E g ''cgroup.procs'' (show_int pid)"

definition parse_u64 :: "string \<Rightarrow> u64 option" where
  "parse_u64 s = map_option word_of_nat (parse_unsigned 10 64 s)"

primrec first_number :: "'b env_scheme \<Rightarrow> CgroupLeaf \<Rightarrow> string list \<Rightarrow> (world, 'e, u64 option) eio" where
  "first_number E g [] = return_m None"
| "first_number E g (f # files) =
     bind_m (cg_read E (path_join (cgl_path g) f)) (\<lambda>c.
     case c of
       None \<Rightarrow> first_number E g files
     | Some s \<Rightarrow> (case parse_u64 (trim s) of Some v \<Rightarrow> return_m (Some v) | None \<Rightarrow> first_number E g files))"

definition peak_memory :: "'b env_scheme \<Rightarrow> CgroupLeaf \<Rightarrow> (world, 'e, u64 option) eio" where
  "peak_memory E g = first_number E g [''memory.peak'', ''memory.current'']"

primrec usage_line :: "string list \<Rightarrow> u64 option" where
  "usage_line [] = None"
| "usage_line (l # ls) =
     (case strip_prefix ''usage_usec '' l of Some rest \<Rightarrow> parse_u64 (trim rest) | None \<Rightarrow> usage_line ls)"

definition cpu_usage_usec :: "'b env_scheme \<Rightarrow> CgroupLeaf \<Rightarrow> (world, 'e, u64 option) eio" where
  "cpu_usage_usec E g =
     bind_m (cg_read E (path_join (cgl_path g) ''cpu.stat'')) (\<lambda>c.
     return_m (case c of None \<Rightarrow> None | Some s \<Rightarrow> usage_line (lines s)))"

definition Cgroup_cleanup :: "'b env_scheme \<Rightarrow> CgroupLeaf \<Rightarrow> (world, 'e, unit) eio" where
  "Cgroup_cleanup E g = ignore_m (cg_rmdir E (cgl_path g))"

section \<open>Which requests are made\<close>

text \<open>The writes that a set of limits asks for, in order.\<close>

definition limit_writes :: "Resources \<Rightarrow> (string \<times> string) list" where
  "limit_writes r =
     (if 0 < memory_max r then [(''memory.max'', show_u64 (memory_max r)), (''memory.swap.max'', ''0'')] else [])
     @ (if 0 < cpu_quota r then [(''cpu.max'', show_u64 (cpu_quota r) @ '' '' @ show_u64 (cpu_period r))] else [])
     @ (if 0 < pids_max r then [(''pids.max'', show_u64 (pids_max r))] else [])"

definition cg_request :: "CgroupLeaf \<Rightarrow> string \<times> string \<Rightarrow> event" where
  "cg_request g fv = CgWrite (path_join (cgl_path g) (fst fv)) (snd fv)"

lemma wp_cg_err [simp]: "wp (cg_err what m) Q R w = wp m Q (\<lambda>e. R (Cgroup (what @ '': '' @ e))) w"
  by (simp add: cg_err_def)

lemma Cgroup_write_wp:
  "wp (Cgroup_write E g f v) (\<lambda>_ t. events t = events w @ [cg_request g (f, v)])
     (\<lambda>_ t. events t = events w @ [cg_request g (f, v)]) w"
  by (simp add: Cgroup_write_def Let_def cg_write_events cg_request_def)

lemma parse_show_u64: "parse_u64 (show_u64 v) = Some v"
  using unat_less_exp [of v] by (simp add: parse_u64_def show_u64_def parse_unsigned_show_nat)

lemma apply_memory_wp:
  "0 < memory_max r \<Longrightarrow>
     wp (bind_m (Cgroup_write E g ''memory.max'' (show_u64 (memory_max r))) (\<lambda>_.
         ignore_m (Cgroup_write E g ''memory.swap.max'' ''0'')))
       (\<lambda>_ t. events t = events w @ map (cg_request g) [(''memory.max'', show_u64 (memory_max r)), (''memory.swap.max'', ''0'')])
       (\<lambda>_ t. events t = events w @ [cg_request g (''memory.max'', show_u64 (memory_max r))]) w"
  by (rule wp_seq [OF Cgroup_write_wp]) (simp, rule wp_mono [OF Cgroup_write_wp], simp_all)

lemma stops_within:
  assumes "limit_writes r = pre @ (x, y) # post" and "x \<noteq> ''memory.swap.max''"
    and "events t = (events w @ map (cg_request g) pre) @ [cg_request g (x, y)]"
  shows "\<exists>ws f v rest. limit_writes r = ws @ (f, v) # rest \<and> f \<noteq> ''memory.swap.max''
        \<and> events t = events w @ map (cg_request g) (ws @ [(f, v)])"
  using assms by (intro exI [of _ pre] exI [of _ x] exI [of _ y] exI [of _ post]) simp

text \<open>
  Applying resource limits writes exactly the limits that are set (non-zero), each to its own
  file of the container's group and with the configured number in decimal, in the order memory,
  swap, CPU, pids; if a write fails, the requests made are the initial part of that sequence that
  ends with the failing one, which is never the optional swap limit.
\<close>
theorem apply_writes_configured_limits:
  "wp (Cgroup_apply E g r)
     (\<lambda>_ t. events t = events w @ map (cg_request g) (limit_writes r))
     (\<lambda>_ t. \<exists>ws f v rest. limit_writes r = ws @ (f, v) # rest \<and> f \<noteq> ''memory.swap.max''
        \<and> events t = events w @ map (cg_request g) (ws @ [(f, v)])) w"
proof -
  let ?R = "\<lambda>(_ :: RuntimeError) t. \<exists>ws f v rest. limit_writes r = ws @ (f, v) # rest \<and> f \<noteq> ''memory.swap.max''
        \<and> events t = events w @ map (cg_request g) (ws @ [(f, v)])"
  let ?mem = "if 0 < memory_max r then [(''memory.max'', show_u64 (memory_max r)), (''memory.swap.max'', ''0'')] else []"
  let ?cpu = "if 0 < cpu_quota r then [(''cpu.max'', show_u64 (cpu_quota r) @ '' '' @ show_u64 (cpu_period r))] else []"
  let ?cpus = "show_u64 (cpu_quota r) @ '' '' @ show_u64 (cpu_period r)"
  have m: "wp (if 0 < memory_max r
             then bind_m (Cgroup_write E g ''memory.max'' (show_u64 (memory_max r))) (\<lambda>_.
                  ignore_m (Cgroup_write E g ''memory.swap.max'' ''0''))
             else return_m ()) (\<lambda>_ t. events t = events w @ map (cg_request g) ?mem) ?R w"
  proof (cases "0 < memory_max r")
    case True
    show ?thesis
      unfolding if_P [OF True]
      by (rule wp_mono [OF apply_memory_wp [OF True]], assumption, rule stops_within [where pre = "[]"])
        (simp_all add: limit_writes_def True)
  qed simp
  have c: "wp (if 0 < cpu_quota r then Cgroup_write E g ''cpu.max'' ?cpus else return_m ())
      (\<lambda>_ t. events t = events w @ map (cg_request g) (?mem @ ?cpu)) ?R u"
    if u: "events u = events w @ map (cg_request g) ?mem" for u
  proof (cases "0 < cpu_quota r")
    case True
    show ?thesis
      unfolding if_P [OF True]
      by (rule wp_mono [OF Cgroup_write_wp], simp add: u,
          rule stops_within [where pre = ?mem and x = "''cpu.max''" and y = ?cpus])
        (simp_all add: limit_writes_def True u)
  qed (use u in simp)
  have p: "wp (if 0 < pids_max r then Cgroup_write E g ''pids.max'' (show_u64 (pids_max r)) else return_m ())
      (\<lambda>_ t. events t = events w @ map (cg_request g) (limit_writes r)) ?R u"
    if u: "events u = events w @ map (cg_request g) (?mem @ ?cpu)" for u
  proof (cases "0 < pids_max r")
    case True
    show ?thesis
      unfolding if_P [OF True]
      by (rule wp_mono [OF Cgroup_write_wp], simp add: u limit_writes_def True,
          rule stops_within [where pre = "?mem @ ?cpu" and x = "''pids.max''" and y = "show_u64 (pids_max r)"])
        (simp_all add: limit_writes_def True u)
  qed (use u in \<open>simp add: limit_writes_def\<close>)
  show ?thesis
    unfolding Cgroup_apply_def
    by (rule wp_seq [OF m], rule wp_seq [OF c], assumption, rule p)
qed

subsection \<open>Delegation\<close>

abbreviation cg_init :: string where "cg_init \<equiv> CGROUP_ROOT @ ''/mc.init''"
abbreviation cg_subtree :: string where "cg_subtree \<equiv> CGROUP_ROOT @ ''/cgroup.subtree_control''"

text \<open>The requests that enable the wanted controllers: empty the root group first.\<close>

definition delegation_requests :: "string list \<Rightarrow> string list \<Rightarrow> event list" where
  "delegation_requests want pids =
     CgMkdir cg_init # map (CgWrite (cg_init @ ''/cgroup.procs'')) pids @ [CgWrite cg_subtree (join_with '' '' want)]"

lemma move_all_events:
  "wp (forM_m pids (\<lambda>pid. ignore_m (cg_write E p pid)) :: (world, 'e, unit) eio)
     (\<lambda>_ t. events t = events w @ map (CgWrite p) pids) (\<lambda>_ _. False) w"
proof (induction pids arbitrary: w)
  case (Cons a pids)
  have "wp (forM_m pids (\<lambda>pid. ignore_m (cg_write E p pid)) :: (world, 'e, unit) eio)
     (\<lambda>_ t. events t = events w @ map (CgWrite p) (a # pids)) (\<lambda>_ _. False) u"
    if "events u = events w @ [CgWrite p a]" for u
    using Cons [of u] that by (simp add: wp_mono)
  then show ?case
    by (simp del: list.map) (rule wp_mono [OF cg_write_events])
qed simp

lemma enable_events:
  assumes "events u = es @ CgMkdir cg_init # map (CgWrite (cg_init @ ''/cgroup.procs'')) pids"
  shows "wp (cg_err what (cg_write E cg_subtree (join_with '' '' want)))
      (\<lambda>_ t. events t = es @ delegation_requests want pids) (\<lambda>_ _. True) u"
  unfolding wp_cg_err
  by (rule wp_mono [OF cg_write_events]) (simp_all add: assms delegation_requests_def)

lemma empty_root_events:
  assumes "events u = es @ [CgMkdir cg_init]"
  shows "wp (bind_m (forM_m pids (\<lambda>pid. ignore_m (cg_write E (cg_init @ ''/cgroup.procs'') pid))) (\<lambda>_.
       cg_err what (cg_write E cg_subtree (join_with '' '' want))))
     (\<lambda>_ t. \<exists>pids. events t = es @ delegation_requests want pids) (\<lambda>_ _. True) u"
proof (rule wp_seq)
  show "wp (forM_m pids (\<lambda>pid. ignore_m (cg_write E (cg_init @ ''/cgroup.procs'') pid)))
      (\<lambda>_ v. events v = es @ CgMkdir cg_init # map (CgWrite (cg_init @ ''/cgroup.procs'')) pids) (\<lambda>_ _. True) u"
    by (rule wp_mono [OF move_all_events]) (simp_all add: assms)
next
  fix v :: world
  assume "events v = es @ CgMkdir cg_init # map (CgWrite (cg_init @ ''/cgroup.procs'')) pids"
  from enable_events [OF this]
  show "wp (cg_err what (cg_write E cg_subtree (join_with '' '' want)))
      (\<lambda>_ t. \<exists>pids. events t = es @ delegation_requests want pids) (\<lambda>_ _. True) v"
    by (rule wp_mono) auto
qed

definition delegation_done :: "'b env_scheme \<Rightarrow> world \<Rightarrow> event list \<Rightarrow> bool" where
  "delegation_done E w ds \<longleftrightarrow>
     (\<exists>avail. k_cg_read E (CGROUP_ROOT @ ''/cgroup.controllers'') (kpart w) = Some avail
        \<and> wanted_controllers avail \<noteq> []
        \<and> (ds = [] \<and> (\<exists>cur. k_cg_read E cg_subtree (kpart w) = Some cur \<and> delegated (wanted_controllers avail) cur)
           \<or> (\<exists>pids. ds = delegation_requests (wanted_controllers avail) pids)))"

lemma ensure_delegation_events:
  "wp (ensure_delegation E) (\<lambda>_ t. \<exists>ds. events t = events w @ ds \<and> delegation_done E w ds) (\<lambda>_ _. True) w"
proof (cases "k_cg_read E (CGROUP_ROOT @ ''/cgroup.controllers'') (kpart w)")
  case None
  then show ?thesis by (simp add: ensure_delegation_def cg_read_def)
next
  case (Some avail)
  let ?want = "wanted_controllers avail"
  show ?thesis
  proof (cases "?want = [] \<or> (\<exists>cur. k_cg_read E cg_subtree (kpart w) = Some cur \<and> delegated ?want cur)")
    case True
    with Some show ?thesis
      by (auto simp: ensure_delegation_def cg_read_def Let_def delegation_done_def)
  next
    case False
    let ?Q = "\<lambda>(_ :: unit) t. \<exists>ds. events t = events w @ ds \<and> delegation_done E w ds"
    have fin: "wp (bind_m (cg_read E (CGROUP_ROOT @ ''/cgroup.procs'')) (\<lambda>root_procs.
        bind_m (forM_m (split_whitespace (case root_procs of Some s \<Rightarrow> s | None \<Rightarrow> []))
                  (\<lambda>pid. ignore_m (cg_write E (cg_init @ ''/cgroup.procs'') pid))) (\<lambda>_.
        cg_err (''enable '' @ join_with '' '' ?want) (cg_write E cg_subtree (join_with '' '' ?want)))))
        ?Q (\<lambda>_ _. True) u" if u: "events u = events w @ [CgMkdir cg_init]" for u
    proof -
      have "wp (bind_m (forM_m pids (\<lambda>pid. ignore_m (cg_write E (cg_init @ ''/cgroup.procs'') pid))) (\<lambda>_.
          cg_err what (cg_write E cg_subtree (join_with '' '' ?want)))) ?Q (\<lambda>_ _. True) u" for pids what
        by (rule wp_mono [OF empty_root_events [OF u]]) (use Some False in \<open>auto simp: delegation_done_def\<close>)
      then show ?thesis
        by (simp only: cg_read_def wp_bind [of "get_m f" for f] wp_get)
    qed
    have "ensure_delegation E w = bind_m (cg_err ''mkdir mc.init'' (cg_mkdir E cg_init)) (\<lambda>_.
        bind_m (cg_read E (CGROUP_ROOT @ ''/cgroup.procs'')) (\<lambda>root_procs.
        bind_m (forM_m (split_whitespace (case root_procs of Some s \<Rightarrow> s | None \<Rightarrow> []))
                  (\<lambda>pid. ignore_m (cg_write E (cg_init @ ''/cgroup.procs'') pid))) (\<lambda>_.
        cg_err (''enable '' @ join_with '' '' ?want) (cg_write E cg_subtree (join_with '' '' ?want))))) w"
      using Some False
      by (auto simp: ensure_delegation_def cg_read_def Let_def bind_m_def [of "get_m f" for f] get_m_def
          split: option.splits)
    then show ?thesis
      by (subst wp_same_run, assumption, intro wp_seq [OF _ fin])
        (auto intro!: wp_mono [OF cg_mkdir_events])
  qed
qed

text \<open>
  Creating a container's control group first makes sure the controllers are delegated and makes
  the leaf last. Delegation is skipped only if the kernel already reports every wanted controller
  as enabled; otherwise the requests are, in this order: make the group \<^verbatim>\<open>mc.init\<close>, move every
  process of the root group into it, enable the wanted controllers, so that the kernel's rule
  against processes in an inner group cannot be violated by the order of requests.
\<close>
theorem create_delegates_then_makes_leaf:
  "wp (Cgroup_create E cid)
     (\<lambda>g t. g = Cgroup_open cid
        \<and> (\<exists>ds. events t = events w @ ds @ [CgMkdir (cgl_path g)] \<and> delegation_done E w ds)) (\<lambda>_ _. True) w"
proof -
  have "wp (cg_err what (cg_mkdir E (path_join CGROUP_ROOT cid)))
      (\<lambda>_ t. \<exists>ds. events t = events w @ ds @ [CgMkdir (path_join CGROUP_ROOT cid)] \<and> delegation_done E w ds)
      (\<lambda>_ _. True) u"
    if "\<exists>ds. events u = events w @ ds \<and> delegation_done E w ds" for u what
    using that by (auto intro!: wp_mono [OF cg_mkdir_events])
  note mk = this
  show ?thesis
    unfolding Cgroup_create_def Let_def Cgroup_open_def
    by (rule wp_seq [OF ensure_delegation_events], rule wp_seq [OF mk], assumption) simp
qed

end
