(* ===== verification/Criu.thy ===== *)
theory Criu
  imports State "HOL-Library.List_Lexorder" "HOL-Library.Char_ord"
begin

text \<open>
  \<^verbatim>\<open>src/criu.rs\<close>: the adapter around the checkpoint engine. The engine itself is a program of the
  host (a parameter); modelled are the command lines it is given, how its outcome is read back, and
  the image files collected from its output directory. Program output is the text after the lossy
  UTF-8 decoding.
\<close>

section \<open>Outcomes of the engine\<close>

definition CRIU :: string where "CRIU = ''criu''"
definition VERBOSITY :: string where "VERBOSITY = ''-v4''"

record EngineError =
  ee_stage :: string
  ee_status :: "int option"
  ee_log_tail :: string

definition ee_to_string :: "EngineError \<Rightarrow> string" where
  "ee_to_string e =
     ''criu '' @ ee_stage e @ '' failed (exit ''
     @ (case ee_status e of Some c \<Rightarrow> show_int c | None \<Rightarrow> ''signal'') @ ''):'' @ [CHR 0x0A] @ ee_log_tail e"

primrec find_map :: "('a \<Rightarrow> 'b option) \<Rightarrow> 'a list \<Rightarrow> 'b option" where
  "find_map f [] = None"
| "find_map f (x # xs) = (case f x of Some y \<Rightarrow> Some y | None \<Rightarrow> find_map f xs)"

definition criu_version :: "'b env_scheme \<Rightarrow> string io" where
  "criu_version E =
     bind_m (map_err_m (\<lambda>e. Checkpoint (''cannot run `criu`: '' @ e)) (exec_cmd E CRIU [''--version''])) (\<lambda>out.
     return_m (trim (case find_map (strip_prefix ''Version: '') (lines (ex_stdout out)) of
                       Some v \<Rightarrow> v | None \<Rightarrow> ''unknown'')))"

definition criu_check :: "'b env_scheme \<Rightarrow> (bool \<times> string) io" where
  "criu_check E =
     bind_m (map_err_m (\<lambda>e. Checkpoint (''run criu check: '' @ e)) (exec_cmd E CRIU [''check'', ''--all''])) (\<lambda>out.
     return_m (ex_success out, ex_stdout out @ ex_stderr out))"

section \<open>Command lines\<close>

record ExternalMount =
  xm_container_path :: string
  xm_key :: string
  xm_host_path :: string

record Layout =
  ly_root :: "string option"
  ly_external_mounts :: "ExternalMount list"
  ly_empty_net_ns :: bool

definition net_note :: string where
  "net_note = ''network namespace is created empty and rewired by the runtime''"

definition tail_lines :: "nat \<Rightarrow> string list \<Rightarrow> string" where
  "tail_lines n ls = join_with [CHR 0x0A] (drop (length ls - n) ls)"

definition is_error_line :: "string \<Rightarrow> bool" where
  "is_error_line l = (contains_str ''Error ('' l \<or> contains_str ''Warn ('' l \<and> contains_str ''unsupported'' l)"

definition tail_log :: "'b env_scheme \<Rightarrow> string \<Rightarrow> nat \<Rightarrow> (world, 'e, string) eio" where
  "tail_log E path n =
     bind_m (try_m (fs_read_to_string E (resolve E path))) (\<lambda>r.
     return_m (case r of
       Inr s \<Rightarrow>
         (let errs = filter is_error_line (lines s)
          in if errs \<noteq> [] then tail_lines n errs else tail_lines n (lines s))
     | Inl e \<Rightarrow> ''(could not read '' @ path @ '': '' @ e @ '')''))"

definition mount_args :: "bool \<Rightarrow> ExternalMount \<Rightarrow> string list" where
  "mount_args dumping m =
     (if dumping then [''--external'', ''mnt['' @ xm_container_path m @ '']:'' @ xm_key m]
      else [''--ext-mount-map'', xm_key m @ '':'' @ xm_host_path m])"

definition layout_args :: "Layout \<Rightarrow> string list \<Rightarrow> bool \<Rightarrow> string list" where
  "layout_args layout args dumping =
     args
     @ (case ly_root layout of Some root \<Rightarrow> [''--root'', root] | None \<Rightarrow> [])
     @ concat (map (mount_args dumping) (ly_external_mounts layout))
     @ (if ly_empty_net_ns layout then [''--empty-ns'', ''net''] else [])"

record DumpOptions =
  do_pid :: int
  do_images_dir :: string
  do_layout :: Layout
  do_leave_running :: bool
  do_tcp_established :: bool

record RestoreOptions =
  ro_images_dir :: string
  ro_layout :: Layout
  ro_pidfile :: string
  ro_tcp_established :: bool

definition criu_run ::
  "'b env_scheme \<Rightarrow> string \<Rightarrow> string list \<Rightarrow> string \<Rightarrow> string \<Rightarrow> (world, EngineError, unit) eio" where
  "criu_run E bin args stage log =
     bind_m (map_err_m (\<lambda>e. \<lparr>ee_stage = stage, ee_status = None, ee_log_tail = ''cannot execute '' @ bin @ '': '' @ e\<rparr>)
               (exec_cmd E bin args)) (\<lambda>out.
     if ex_success out then return_m ()
     else
       bind_m (tail_log E log 12) (\<lambda>tail.
       throw_m \<lparr>ee_stage = stage, ee_status = ex_code out,
         ee_log_tail = (if trim tail = [] \<and> trim (ex_stderr out) \<noteq> [] then trim (ex_stderr out) else tail)\<rparr>))"

definition dump_args :: "DumpOptions \<Rightarrow> string list" where
  "dump_args opts =
     layout_args (do_layout opts)
       ([''dump'', ''--tree'', show_int (do_pid opts), ''--images-dir'', do_images_dir opts,
         ''--log-file'', ''dump.log'', VERBOSITY, ''--manage-cgroups=ignore'', ''--file-locks'', ''--link-remap'']
        @ (if do_leave_running opts then [''--leave-running''] else [])
        @ (if do_tcp_established opts then [''--tcp-established''] else [])) True"

definition criu_dump :: "'b env_scheme \<Rightarrow> DumpOptions \<Rightarrow> (world, EngineError, unit) eio" where
  "criu_dump E opts =
     bind_m (ignore_m (fs_create_dir_all E (resolve E (do_images_dir opts)))) (\<lambda>_.
     criu_run E CRIU (dump_args opts) ''dump'' (path_join (do_images_dir opts) ''dump.log''))"

definition restore_args :: "RestoreOptions \<Rightarrow> string list" where
  "restore_args opts =
     layout_args (ro_layout opts)
       ([''restore'', ''--images-dir'', ro_images_dir opts, ''--log-file'', ''restore.log'', VERBOSITY,
         ''--restore-detached'', ''--pidfile'', ro_pidfile opts,
         ''--manage-cgroups=ignore'', ''--file-locks'', ''--link-remap'']
        @ (if ro_tcp_established opts then [''--tcp-established''] else [])) False"

definition criu_restore :: "'b env_scheme \<Rightarrow> RestoreOptions \<Rightarrow> (world, EngineError, int) eio" where
  "criu_restore E opts =
     bind_m (ignore_m (fs_remove_file E (resolve E (ro_pidfile opts)))) (\<lambda>_.
     bind_m (criu_run E CRIU (restore_args opts) ''restore'' (path_join (ro_images_dir opts) ''restore.log'')) (\<lambda>_.
     bind_m (map_err_m (\<lambda>e. \<lparr>ee_stage = ''restore'', ee_status = None,
                 ee_log_tail = ''criu reported success but wrote no pidfile at '' @ ro_pidfile opts @ '': '' @ e\<rparr>)
               (fs_read_to_string E (resolve E (ro_pidfile opts)))) (\<lambda>raw.
     case parse_i32 (trim raw) of
       Some pid \<Rightarrow> return_m pid
     | None \<Rightarrow> throw_m \<lparr>ee_stage = ''restore'', ee_status = None,
                 ee_log_tail = ''pidfile '' @ trim raw @ '' is not a pid''\<rparr>)))"

text \<open>Paths in one directory compare by their last component, byte by byte.\<close>

definition image_files :: "'b env_scheme \<Rightarrow> string \<Rightarrow> string list io" where
  "image_files E dir =
     bind_m (map_err_m (\<lambda>e. Checkpoint (''read image dir '' @ dir @ '': '' @ e)) (fs_read_dir E (resolve E dir))) (\<lambda>names.
     bind_m (get_m (\<lambda>w. filter (\<lambda>n. is_file w (resolve E dir @ [n])) names)) (\<lambda>files.
     return_m (map (path_join dir) (sort files))))"

section \<open>What dump and restore say to the engine\<close>

text \<open>The external-mount keys a command line declares.\<close>

definition declared_keys :: "Layout \<Rightarrow> string list" where
  "declared_keys layout = map xm_key (ly_external_mounts layout)"

lemma layout_args_empty_net:
  "ly_empty_net_ns layout \<Longrightarrow> \<exists>pre. layout_args layout args b = pre @ [''--empty-ns'', ''net'']"
  by (auto simp: layout_args_def)

lemma tail_log_only_tick:
  "wp (tail_log E path n) (\<lambda>_ t. only_tick w t) (\<lambda>_ _. False) w"
  unfolding tail_log_def fs_read_to_string_def
  by simp (rule wp_mono [OF fs_read_wp'], auto split: option.splits)

text \<open>
  The outcome of an engine run is the program's: it succeeds exactly if the program was started and
  exited with code 0, and what it did to the host is what the program did.
\<close>

definition engine_ran ::
  "'b env_scheme \<Rightarrow> string \<Rightarrow> string list \<Rightarrow> world \<Rightarrow> world \<Rightarrow> (string + exec_output) \<Rightarrow> bool" where
  "engine_ran E bin args w t r \<longleftrightarrow>
     (\<exists>k. k_exec E bin args (kpart w) = (r, k) \<and> fget t = fget k \<and> procs t = procs k \<and> cgs t = cgs k)
     \<and> events t = events w @ [Exec bin args]"

lemma engine_ran_exec:
  "wp (exec_cmd E bin args) (\<lambda>out t. engine_ran E bin args w t (Inr out)) (\<lambda>x t. engine_ran E bin args w t (Inl x)) w"
  by (simp add: exec_cmd_def wp_kernel engine_ran_def split: prod.splits sum.splits)

lemma engine_ran_later:
  assumes "engine_ran E bin args w t r" and "only_tick t u"
  shows "engine_ran E bin args w u r"
  using assms(1) only_tick_same [OF assms(2)] only_tick_fget [OF assms(2)] by (simp add: engine_ran_def)

lemma criu_run_wp:
  "wp (criu_run E bin args stage log)
     (\<lambda>_ t. \<exists>out. engine_ran E bin args w t (Inr out) \<and> ex_success out)
     (\<lambda>e t. ee_stage e = stage
        \<and> ((\<exists>x. engine_ran E bin args w t (Inl x) \<and> ee_status e = None)
           \<or> (\<exists>out. engine_ran E bin args w t (Inr out) \<and> \<not> ex_success out \<and> ee_status e = ex_code out))) w"
  unfolding criu_run_def wp_bind wp_map_err
proof (rule wp_mono [OF engine_ran_exec])
  fix out t
  assume r: "engine_ran E bin args w t (Inr out)"
  show "wp (if ex_success out then return_m ()
          else bind_m (tail_log E log 12) (\<lambda>tail.
            throw_m \<lparr>ee_stage = stage, ee_status = ex_code out,
              ee_log_tail = (if trim tail = [] \<and> trim (ex_stderr out) \<noteq> [] then trim (ex_stderr out) else tail)\<rparr>))
     (\<lambda>_ t. \<exists>out. engine_ran E bin args w t (Inr out) \<and> ex_success out)
     (\<lambda>e t. ee_stage e = stage
        \<and> ((\<exists>x. engine_ran E bin args w t (Inl x) \<and> ee_status e = None)
           \<or> (\<exists>out. engine_ran E bin args w t (Inr out) \<and> \<not> ex_success out \<and> ee_status e = ex_code out))) t"
  proof (cases "ex_success out")
    case True
    with r show ?thesis by auto
  next
    case False
    with r show ?thesis
      by (simp, intro wp_mono [OF tail_log_only_tick]) (auto dest: engine_ran_later)
  qed
qed auto

definition engine_failed ::
  "'b env_scheme \<Rightarrow> string \<Rightarrow> string list \<Rightarrow> string \<Rightarrow> world \<Rightarrow> world \<Rightarrow> EngineError \<Rightarrow> bool" where
  "engine_failed E bin args stage w t e \<longleftrightarrow>
     ee_stage e = stage
     \<and> ((\<exists>x. engine_ran E bin args w t (Inl x) \<and> ee_status e = None)
        \<or> (\<exists>out. engine_ran E bin args w t (Inr out) \<and> \<not> ex_success out \<and> ee_status e = ex_code out))"

definition made_dir :: "'b env_scheme \<Rightarrow> string \<Rightarrow> world \<Rightarrow> world \<Rightarrow> bool" where
  "made_dir E d w u \<longleftrightarrow>
     events u = events w \<and> procs u = procs w \<and> cgs u = cgs w
     \<and> (\<forall>q. fget w q \<noteq> None \<or> \<not> under q (resolve E d) \<longrightarrow> fget u q = fget w q)"

lemma criu_dump_wp:
  "wp (criu_dump E opts)
     (\<lambda>_ t. \<exists>u out. made_dir E (do_images_dir opts) w u
        \<and> engine_ran E CRIU (dump_args opts) u t (Inr out) \<and> ex_success out)
     (\<lambda>e t. \<exists>u. made_dir E (do_images_dir opts) w u
        \<and> engine_failed E CRIU (dump_args opts) ''dump'' u t e) w"
proof -
  have "keeps (\<lambda>u. events u = events w \<and> procs u = procs w \<and> cgs u = cgs w)
      (fs_create_dir_all E (resolve E (do_images_dir opts)))"
    by (rule mc_blind) (simp add: fs_blind_def)
  from wp_conj [OF keeps_wp [OF this, of w] fs_create_dir_all_wp]
  have "wp (ignore_m (fs_create_dir_all E (resolve E (do_images_dir opts)))) (\<lambda>_. made_dir E (do_images_dir opts) w)
      (\<lambda>e t. \<exists>u. made_dir E (do_images_dir opts) w u
        \<and> engine_failed E CRIU (dump_args opts) ''dump'' u t e) w"
    by simp (erule wp_mono; fastforce simp: made_dir_def)
  then show ?thesis
    unfolding criu_dump_def
    by (rule wp_seq) (rule wp_mono [OF criu_run_wp], auto simp: engine_failed_def)
qed

text \<open>
  A dump asks the host for exactly one thing, one run of the engine on the container's process
  tree, image directory and mount layout, after making the image directory and touching nothing
  else. It succeeds only if the engine exited with code 0, and the host is then as the engine left
  it; on failure the error names the stage and carries the engine's own exit code, if it had one.
\<close>
theorem dump_outcome_is_the_engines:
  "wp (criu_dump E opts)
     (\<lambda>_ t. \<exists>u out. made_dir E (do_images_dir opts) w u
        \<and> engine_ran E CRIU (dump_args opts) u t (Inr out) \<and> ex_success out)
     (\<lambda>e t. \<exists>u. made_dir E (do_images_dir opts) w u
        \<and> engine_failed E CRIU (dump_args opts) ''dump'' u t e) w"
  by (rule criu_dump_wp)

definition cleared_file :: "fspath \<Rightarrow> world \<Rightarrow> world \<Rightarrow> bool" where
  "cleared_file p w u \<longleftrightarrow>
     events u = events w \<and> procs u = procs w \<and> cgs u = cgs w
     \<and> \<not> is_file u p \<and> (\<forall>q. q \<noteq> p \<longrightarrow> fget u q = fget w q)"

lemma clear_file_wp:
  assumes "no_faults E"
  shows "wp (ignore_m (fs_remove_file E p)) (\<lambda>_ u. cleared_file p w u) (\<lambda>_ _. False) w"
proof -
  have "keeps (\<lambda>u. events u = events w \<and> procs u = procs w \<and> cgs u = cgs w) (fs_remove_file E p)"
    by (rule mc_blind) (simp add: fs_blind_def)
  from wp_conj [OF keeps_wp [OF this, of w] fs_remove_file_wp] assms show ?thesis
    by simp (erule wp_mono; auto simp: cleared_file_def is_file_def)
qed

lemma read_pidfile_wp:
  "wp (bind_m (map_err_m (\<lambda>e. \<lparr>ee_stage = st, ee_status = None, ee_log_tail = msg e\<rparr>) (fs_read_to_string E p)) (\<lambda>raw.
       case parse_i32 (trim raw) of
         Some pid \<Rightarrow> return_m pid
       | None \<Rightarrow> throw_m \<lparr>ee_stage = st, ee_status = None, ee_log_tail = msg' raw\<rparr>))
     (\<lambda>pid v. only_tick t v \<and> (\<exists>s. fget t p = Some (File (as_bytes s)) \<and> parse_i32 (trim s) = Some pid))
     (\<lambda>e _. ee_stage e = st) t"
  unfolding wp_bind wp_map_err fs_read_to_string_def
  by (rule wp_mono [OF fs_read_wp']) (auto simp: from_utf8_def split: option.splits, metis as_bytes_of_bytes)


definition demo_engine :: "string \<Rightarrow> string list \<Rightarrow> kstate \<Rightarrow> (string + exec_output) \<times> kstate" where
  "demo_engine bin args k =
     (Inr \<lparr>ex_code = Some 0, ex_stdout = [], ex_stderr = []\<rparr>,
      k\<lparr>fs := ([''pid''], File (as_bytes (''42'' @ [CHR 0x0A]))) # fs k\<rparr>)"

definition demo_restore_opts :: RestoreOptions where
  "demo_restore_opts =
     \<lparr>ro_images_dir = ''/img'', ro_layout = \<lparr>ly_root = None, ly_external_mounts = [], ly_empty_net_ns = True\<rparr>,
      ro_pidfile = ''/pid'', ro_tcp_established = False\<rparr>"


text \<open>
  The image files that go into a snapshot are exactly the regular files of the image directory,
  each once, in increasing order of their names, whatever order the directory lists them in: the
  layout of a snapshot does not depend on the file system.
\<close>
theorem image_files_sorted_and_complete:
  assumes "no_faults E" and "is_dir w (resolve E dir)" and "distinct (map fst (fs w))"
  shows "wp (image_files E dir)
     (\<lambda>ps t. \<exists>ns. ps = map (path_join dir) ns \<and> sorted ns \<and> distinct ns
        \<and> set ns = {n. is_file w (resolve E dir @ [n])} \<and> fget t = fget w) (\<lambda>_ _. False) w"
proof -
  let ?d = "resolve E dir"
  let ?ns = "dir_names w ?d"
  have inj: "inj_on last {q :: fspath. q \<noteq> [] \<and> butlast q = ?d}"
    by (rule inj_onI) (metis (mono_tags, lifting) append_butlast_last_id mem_Collect_eq)
  have "distinct ?ns"
    unfolding dir_names_def
    by (rule distinct_map [THEN iffD2]) (use assms(3) inj in \<open>auto intro: inj_on_subset\<close>)
  moreover have "n \<in> set ?ns" if f: "is_file w (?d @ [n])" for n
  proof -
    have "?d @ [n] \<in> set (map fst (fs w))"
      using f by (auto simp: is_file_def fget_def split: option.splits dest: map_of_SomeD intro: rev_image_eqI)
    then have "last (?d @ [n]) \<in> last ` {q \<in> set (map fst (fs w)). q \<noteq> [] \<and> butlast q = ?d}"
      by (intro imageI) simp
    then show ?thesis by (simp add: dir_names_def)
  qed
  ultimately have ns: "distinct (filter (\<lambda>n. is_file w (?d @ [n])) ?ns)"
    "{n \<in> set ?ns. is_file w (?d @ [n])} = {n. is_file w (?d @ [n])}"
    by auto
  show ?thesis
    unfolding image_files_def wp_bind wp_map_err
    by (rule wp_mono [OF fs_read_dir_live [OF assms(1,2)]]) (use ns in \<open>auto simp: is_file_def\<close>)
qed

theorem image_files_sorted_and_complete_witness:
  "wp (image_files demo_senv ''/h/.mincontainer/containers/c1'')
     (\<lambda>ps _. length ps = card {n. is_file demo_world (demo_dir @ [''c1'', n])}) (\<lambda>_ _. False) demo_world"
proof -
  let ?d = "''/h/.mincontainer/containers/c1''"
  have d: "resolve demo_senv ?d = demo_dir @ [''c1'']" by code_simp
  have w: "is_dir demo_world (demo_dir @ [''c1''])" "distinct (map fst (fs demo_world))" by code_simp+
  show ?thesis
    by (rule wp_mono [OF image_files_sorted_and_complete [of demo_senv demo_world ?d, unfolded d]])
      (use w in \<open>auto simp: distinct_card [symmetric]\<close>)
qed

end
