(* ===== verification/Checkpoint.thy ===== *)
theory Checkpoint
  imports Snapshot_Write Cgroups Criu
begin

text \<open>
  \<^verbatim>\<open>src/checkpoint.rs\<close>: freezing a running container into a snapshot. What the runtime reads from
  \<^verbatim>\<open>/proc\<close> is the process table of the host; durations are \<^verbatim>\<open>f64\<close> bit patterns supplied by the
  clock. Waiting for the supervisor polls at most as often as the timeout allows.
\<close>

section \<open>Reading the process table\<close>

definition utf8_of :: "string \<Rightarrow> string option" where
  "utf8_of s = from_utf8 (as_bytes s)"

definition pid_alive :: "'a kstate_scheme \<Rightarrow> int \<Rightarrow> bool" where
  "pid_alive w pid =
     (case procs w pid of
        None \<Rightarrow> False
      | Some p \<Rightarrow>
          (case utf8_of (p_stat p) of
             None \<Rightarrow> False
           | Some stat \<Rightarrow>
               (case rsplit_once (CHR '')'') stat of
                  None \<Rightarrow> False
                | Some (_, after_comm) \<Rightarrow>
                    (case split_whitespace after_comm of
                       [] \<Rightarrow> False
                     | st # _ \<Rightarrow> st \<noteq> ''Z'' \<and> st \<noteq> ''X''))))"

function chunks_of :: "nat \<Rightarrow> 'a list \<Rightarrow> 'a list list" where
  "chunks_of n xs = (if xs = [] \<or> n = 0 then [] else take n xs # chunks_of n (drop n xs))"
  by auto

termination
  by (relation "measure (\<lambda>(_, xs). length xs)") auto

declare chunks_of.simps [simp del]

definition swap_bytes :: "u32 \<Rightarrow> u32" where
  "swap_bytes v = u32_from_le (rev (u32_to_le v))"

definition v6_groups :: "string \<Rightarrow> string list" where
  "v6_groups word =
     (case parse_unsigned 16 32 (case utf8_of word of Some s \<Rightarrow> s | None \<Rightarrow> ''0'') of
        None \<Rightarrow> []
      | Some n \<Rightarrow>
          (let be = unat (swap_bytes (word_of_nat n)) in [show_hex (be div 65536), show_hex (be mod 65536)]))"

definition format_addr :: "string \<Rightarrow> bool \<Rightarrow> string" where
  "format_addr raw v6 =
     (case split_once (CHR '':'') raw of
        None \<Rightarrow> raw
      | Some (addr, port) \<Rightarrow>
          (let p = show_nat (case parse_unsigned 16 16 port of Some n \<Rightarrow> n | None \<Rightarrow> 0) in
           if v6 then ''['' @ join_with '':'' (concat (map v6_groups (chunks_of 8 addr))) @ '']:'' @ p
           else case parse_unsigned 16 32 addr of
                  Some n \<Rightarrow>
                    (let b = u32_to_le (word_of_nat n)
                     in show_nat (unat (b ! 0)) @ ''.'' @ show_nat (unat (b ! 1)) @ ''.''
                        @ show_nat (unat (b ! 2)) @ ''.'' @ show_nat (unat (b ! 3)) @ '':'' @ p)
                | None \<Rightarrow> addr @ '':'' @ p))"

record Connection =
  cn_local :: string
  cn_remote :: string

definition tcp_line :: "bool \<Rightarrow> string \<Rightarrow> Connection option" where
  "tcp_line v6 line =
     (let f = split_whitespace line
      in if length f < 4 \<or> f ! 3 \<noteq> ''01'' then None
         else Some \<lparr>cn_local = format_addr (f ! 1) v6, cn_remote = format_addr (f ! 2) v6\<rparr>)"

definition proc_text :: "'a kstate_scheme \<Rightarrow> int \<Rightarrow> (proc \<Rightarrow> string option) \<Rightarrow> string option" where
  "proc_text w pid sel =
     (case procs w pid of None \<Rightarrow> None | Some p \<Rightarrow> (case sel p of None \<Rightarrow> None | Some s \<Rightarrow> utf8_of s))"

definition established_connections :: "'a kstate_scheme \<Rightarrow> int \<Rightarrow> Connection list" where
  "established_connections w pid =
     concat (map (\<lambda>(name, v6).
       case proc_text w pid (\<lambda>p. p_net p name) of
         None \<Rightarrow> []
       | Some content \<Rightarrow> List.map_filter (tcp_line v6) (drop 1 (lines content)))
       [(''tcp'', False), (''tcp6'', True)])"

definition ns_inode :: "string \<Rightarrow> u64 option" where
  "ns_inode link =
     (case split_once (CHR ''['') link of
        None \<Rightarrow> None
      | Some (_, rest) \<Rightarrow> (case strip_suffix '']'' rest of None \<Rightarrow> None | Some inner \<Rightarrow> parse_u64 inner))"

definition read_ns :: "'a kstate_scheme \<Rightarrow> int \<Rightarrow> string \<Rightarrow> u64 option" where
  "read_ns w pid kind =
     (case procs w pid of
        None \<Rightarrow> None
      | Some p \<Rightarrow> (case p_ns p kind of None \<Rightarrow> None | Some link \<Rightarrow> ns_inode link))"

definition read_namespaces :: "'a kstate_scheme \<Rightarrow> int \<Rightarrow> NamespaceSnapshot" where
  "read_namespaces w pid =
     \<lparr>ns_pid = read_ns w pid ''pid'', ns_mnt = read_ns w pid ''mnt'', ns_net = read_ns w pid ''net'',
      ns_uts = read_ns w pid ''uts'', ns_ipc = read_ns w pid ''ipc''\<rparr>"

definition mount_line :: "string \<Rightarrow> MountEntry option" where
  "mount_line line =
     (case split_once_str '' - '' line of
        None \<Rightarrow> None
      | Some (left, right) \<Rightarrow>
          (let l = split_whitespace left; r = split_whitespace right
           in if length l < 6 \<or> length r < 2 then None
              else Some \<lparr>me_mount_point = l ! 4, me_fs_type = r ! 0, me_source = r ! 1, me_options = l ! 5\<rparr>))"

definition read_mounts :: "int \<Rightarrow> MountEntry list io" where
  "read_mounts pid =
     bind_m (get_m (\<lambda>w. proc_text w pid p_mountinfo)) (\<lambda>c.
     case c of
       None \<Rightarrow> throw_m (Checkpoint (''read /proc/'' @ show_int pid @ ''/mountinfo''))
     | Some content \<Rightarrow> return_m (List.map_filter mount_line (lines content)))"

definition fd_entry :: "string \<times> string option \<Rightarrow> FdEntry option" where
  "fd_entry e =
     (case utf8_of (fst e) of
        None \<Rightarrow> None
      | Some s \<Rightarrow>
          (case parse_i32 s of
             None \<Rightarrow> None
           | Some fd \<Rightarrow> Some \<lparr>fe_fd = fd, fe_target = (case snd e of Some t \<Rightarrow> t | None \<Rightarrow> ''<unreadable>'')\<rparr>))"

definition read_fds :: "int \<Rightarrow> FdEntry list io" where
  "read_fds pid =
     bind_m (get_m (\<lambda>w. case procs w pid of None \<Rightarrow> None | Some p \<Rightarrow> p_fds p)) (\<lambda>c.
     case c of
       None \<Rightarrow> throw_m (Checkpoint (''read /proc/'' @ show_int pid @ ''/fd''))
     | Some es \<Rightarrow> return_m (sort_key fe_fd (List.map_filter fd_entry es)))"

definition cg_text :: "'b env_scheme \<Rightarrow> 'a kstate_scheme \<Rightarrow> string \<Rightarrow> string \<Rightarrow> string option" where
  "cg_text E w base f = k_cg_read E (path_join base f) \<lparr>fs = fs w, procs = procs w, cgs = cgs w\<rparr>"

definition read_cgroup :: "'b env_scheme \<Rightarrow> 'a kstate_scheme \<Rightarrow> string \<Rightarrow> CgroupSnapshot" where
  "read_cgroup E w cid =
     (let base = path_join ''/sys/fs/cgroup'' cid;
          rd = (\<lambda>f. case cg_text E w base f of Some s \<Rightarrow> trim s | None \<Rightarrow> [])
      in \<lparr>cg_memory_max = rd ''memory.max'',
          cg_memory_peak = (case find_map (\<lambda>f. parse_u64 (rd f)) [''memory.peak'', ''memory.current''] of
             Some v \<Rightarrow> v | None \<Rightarrow> 0),
          cg_cpu_max = rd ''cpu.max'',
          cg_pids_max = rd ''pids.max'',
          cg_cpu_usage_usec =
            (case cg_text E w base ''cpu.stat'' of
               None \<Rightarrow> 0
             | Some s \<Rightarrow>
                 (case find_map (\<lambda>l. case strip_prefix ''usage_usec '' l of
                                      None \<Rightarrow> None | Some v \<Rightarrow> parse_u64 (trim v)) (lines s) of
                    Some v \<Rightarrow> v | None \<Rightarrow> 0))\<rparr>)"

definition hostname :: "'b env_scheme \<Rightarrow> string" where
  "hostname E = (case e_hostname E of Some s \<Rightarrow> trim s | None \<Rightarrow> ''unknown'')"

definition kernel_release :: "'b env_scheme \<Rightarrow> string" where
  "kernel_release E = (case e_osrelease E of Some s \<Rightarrow> trim s | None \<Rightarrow> ''unknown'')"

section \<open>Options, report and layout\<close>

record CkOptions =
  ck_name :: string
  ck_dest :: "string option"
  ck_leave_running :: bool
  ck_allow_tcp :: bool

definition CkOptions_default :: CkOptions where
  "CkOptions_default = \<lparr>ck_name = ''latest'', ck_dest = None, ck_leave_running = False, ck_allow_tcp = False\<rparr>"

record CkReport =
  cr_id :: string
  cr_snapshot :: string
  cr_snapshot_bytes :: u64
  cr_image_bytes :: u64
  cr_entries :: nat
  cr_preflight_ms :: u64
  cr_dump_ms :: u64
  cr_pack_ms :: u64
  cr_total_ms :: u64

record SnapshotMeta =
  sm_engine :: string
  sm_engine_version :: string
  sm_config :: ContainerConfig
  sm_lifecycle :: ContainerState
  sm_cgroup :: CgroupSnapshot
  sm_namespaces :: NamespaceSnapshot
  sm_mounts :: "MountEntry list"
  sm_open_fds :: "FdEntry list"
  sm_checkpoint_pid :: int
  sm_dump_ms :: u64

definition volume_mounts :: "Volume list \<Rightarrow> ExternalMount list" where
  "volume_mounts vs = map (\<lambda>(i, v).
     \<lparr>xm_container_path = container_path v, xm_key = ''mcvol'' @ show_nat i, xm_host_path = host_path v\<rparr>)
     (List.enumerate 0 vs)"

definition layout_for :: "ContainerConfig \<Rightarrow> ContainerStateDir \<Rightarrow> Layout" where
  "layout_for cfg dir =
     \<lparr>ly_root = Some (rootfs cfg),
      ly_external_mounts =
        \<lparr>xm_container_path = ''/'' @ IO_MOUNT, xm_key = ''mcio'', xm_host_path = io_dir dir\<rparr>
        # volume_mounts (volumes cfg),
      ly_empty_net_ns = True\<rparr>"

section \<open>The operation\<close>

definition preflight :: "'b env_scheme \<Rightarrow> int \<Rightarrow> ContainerConfig \<Rightarrow> CkOptions \<Rightarrow> unit io" where
  "preflight E pid cfg opts =
     bind_m (get_m (\<lambda>w. established_connections w pid)) (\<lambda>conns.
     if conns \<noteq> [] \<and> \<not> ck_allow_tcp opts
     then throw_m (Checkpoint (''container has '' @ show_nat (length conns) @ '' established TCP connection(s)''))
     else
       bind_m (get_m (\<lambda>w. is_dir w (resolve E (rootfs cfg)))) (\<lambda>d.
       if \<not> d then throw_m (Checkpoint (''rootfs '' @ rootfs cfg @ '' does not exist'')) else return_m ()))"

definition since_m :: "'b env_scheme \<Rightarrow> nat \<Rightarrow> (world, 'e, u64) eio" where
  "since_m E t0 = get_m (\<lambda>w. ms_at E t0 (tick w))"

text \<open>
  The loop runs while the deadline has not passed; every turn sleeps for five milliseconds, so the
  number of turns is bounded by the timeout (the last argument).
\<close>

primrec await_loop :: "'b env_scheme \<Rightarrow> int \<Rightarrow> nat \<Rightarrow> nat \<Rightarrow> (world, 'e, unit) eio" where
  "await_loop E sup_pid deadline 0 = return_m ()"
| "await_loop E sup_pid deadline (Suc n) =
     bind_m (get_m (\<lambda>w. mono_ms E (tick w))) (\<lambda>now.
     if now < deadline
     then bind_m (get_m (\<lambda>w. pid_alive w sup_pid)) (\<lambda>alive.
          if \<not> alive then return_m ()
          else bind_m (thread_sleep E) (\<lambda>_. await_loop E sup_pid deadline n))
     else return_m ())"

definition polls_for :: "nat \<Rightarrow> nat" where
  "polls_for timeout = Suc (timeout div 5)"

definition await_supervisor_exit :: "'b env_scheme \<Rightarrow> ContainerState \<Rightarrow> nat \<Rightarrow> (world, 'e, unit) eio" where
  "await_supervisor_exit E st timeout =
     (case cs_supervisor_pid st of
        None \<Rightarrow> return_m ()
      | Some sup_pid \<Rightarrow>
          bind_m (get_m (\<lambda>w. mono_ms E (tick w))) (\<lambda>now.
          await_loop E sup_pid (now + timeout) (polls_for timeout)))"

definition image_len :: "'b env_scheme \<Rightarrow> string \<Rightarrow> (world, 'e, u64) eio" where
  "image_len E path =
     bind_m (try_m (io_touch E)) (\<lambda>r.
     get_m (\<lambda>w. case r of Inr _ \<Rightarrow> word_of_nat (file_len w (resolve E path)) | Inl _ \<Rightarrow> 0))"

primrec pack_images :: "'b env_scheme \<Rightarrow> string list \<Rightarrow> SnapshotWriter \<Rightarrow> u64 \<Rightarrow> (SnapshotWriter \<times> u64) io" where
  "pack_images E [] sw sofar = return_m (sw, sofar)"
| "pack_images E (path # paths) sw sofar =
     (case (case file_name path of Some n \<Rightarrow> utf8_of n | None \<Rightarrow> None) of
        None \<Rightarrow> throw_m (Snapshot (''bad image name '' @ path))
      | Some name \<Rightarrow>
          bind_m (image_len E path) (\<lambda>len.
          bind_m (add_file E sw (''images/'' @ name) path) (\<lambda>sw'.
          pack_images E paths sw' (sofar + len))))"

primrec pack_logs :: "'b env_scheme \<Rightarrow> ContainerStateDir \<Rightarrow> string list \<Rightarrow> SnapshotWriter \<Rightarrow> SnapshotWriter io" where
  "pack_logs E dir [] sw = return_m sw"
| "pack_logs E dir (name # names) sw =
     bind_m (get_m (\<lambda>w. is_file w (resolve E (path_join (io_dir dir) name)))) (\<lambda>f.
     bind_m (if f then add_file E sw (''io/'' @ name) (path_join (io_dir dir) name) else return_m sw) (\<lambda>sw'.
     pack_logs E dir names sw'))"

text \<open>Everything between creating the writer and finishing it.\<close>

definition pack_entries ::
  "'b env_scheme \<Rightarrow> string \<Rightarrow> ContainerStateDir \<Rightarrow> SnapshotWriter \<Rightarrow> (SnapshotWriter \<times> u64) io" where
  "pack_entries E images_dir dir sw =
     bind_m (image_files E images_dir) (\<lambda>paths.
     bind_m (pack_images E paths sw 0) (\<lambda>(sw1, image_bytes).
     if image_bytes = 0
     then throw_m (Checkpoint ''engine produced no images, refusing to write an empty snapshot'')
     else bind_m (pack_logs E dir [''stdout'', ''stderr''] sw1) (\<lambda>sw2. return_m (sw2, image_bytes))))"

definition build_manifest :: "'b env_scheme \<Rightarrow> string \<Rightarrow> SnapshotMeta \<Rightarrow> EntryMeta list \<Rightarrow> Manifest" where
  "build_manifest E now meta entries =
     \<lparr>mf_format_version = FORMAT_VERSION,
      mf_producer = ''mincontainer/0.1.0'',
      mf_engine = sm_engine meta,
      mf_engine_version = sm_engine_version meta,
      mf_created_at = now,
      mf_source_host = hostname E,
      mf_source_arch = e_arch E,
      mf_source_kernel = kernel_release E,
      mf_container_id = cc_id (sm_config meta),
      mf_config = sm_config meta,
      mf_lifecycle = sm_lifecycle meta,
      mf_cgroup = sm_cgroup meta,
      mf_namespaces = sm_namespaces meta,
      mf_mounts = sm_mounts meta,
      mf_open_fds = sm_open_fds meta,
      mf_checkpoint_pid = sm_checkpoint_pid meta,
      mf_dump_ms = sm_dump_ms meta,
      mf_entries = entries\<rparr>"

text \<open>The writer is dropped, and its scratch file removed, on every early way out.\<close>

definition pack ::
  "'b snenv_scheme \<Rightarrow> string \<Rightarrow> string \<Rightarrow> ContainerStateDir \<Rightarrow> SnapshotMeta \<Rightarrow> (Manifest \<times> u64 \<times> u64) io" where
  "pack E dest images_dir dir meta =
     bind_m (SnapshotWriter_new E dest) (\<lambda>sw.
     bind_m (try_m (pack_entries E images_dir dir sw)) (\<lambda>r.
     case r of
       Inl e \<Rightarrow> bind_m (SnapshotWriter_drop E sw) (\<lambda>_. throw_m e)
     | Inr (sw2, image_bytes) \<Rightarrow>
         bind_m (now_m E) (\<lambda>now.
         bind_m (finish E sw2 dest (build_manifest E now meta)) (\<lambda>manifest.
         bind_m (image_len E dest) (\<lambda>snapshot_bytes.
         return_m (manifest, snapshot_bytes, image_bytes))))))"

text \<open>Steps 1 to 3: validation, pre-flight and metadata, all of them reads.\<close>

definition ck_validate :: "'b senv_scheme \<Rightarrow> string \<Rightarrow> (ContainerState \<times> ContainerConfig \<times> int) io" where
  "ck_validate E cid =
     (let dir = for_id E cid in
      bind_m (dir_exists E dir) (\<lambda>ex.
      if \<not> ex then throw_m (Checkpoint (''container '' @ cid @ '' not found''))
      else
        bind_m (load_state E dir) (\<lambda>st.
        bind_m (load_config E dir) (\<lambda>cfg.
        if \<not> cs_is st Running
        then throw_m (Checkpoint (''container '' @ cid @ '' is '' @ cs_status st @ '', not running''))
        else case cs_pid st of
               None \<Rightarrow> throw_m (Checkpoint (''container '' @ cid @ '' is marked running but has no pid''))
             | Some pid \<Rightarrow>
                 bind_m (get_m (\<lambda>w. pid_alive w pid)) (\<lambda>alive.
                 if \<not> alive
                 then throw_m (Checkpoint (''container '' @ cid @ '' is marked running but pid '' @ show_int pid @ '' is gone''))
                 else return_m (st, cfg, pid))))))"

definition ck_collect ::
  "'b env_scheme \<Rightarrow> ContainerConfig \<Rightarrow> int
     \<Rightarrow> (NamespaceSnapshot \<times> MountEntry list \<times> FdEntry list \<times> CgroupSnapshot) io" where
  "ck_collect E cfg pid =
     bind_m (get_m (\<lambda>w. read_namespaces w pid)) (\<lambda>namespaces.
     bind_m (read_mounts pid) (\<lambda>mounts.
     bind_m (read_fds pid) (\<lambda>open_fds.
     bind_m (get_m (\<lambda>w. read_cgroup E w (cc_id cfg))) (\<lambda>cgroup.
     return_m (namespaces, mounts, open_fds, cgroup)))))"

text \<open>Step 4: mark the container, then dump it. The duration is the time the dump took.\<close>

definition ck_dump :: "'b senv_scheme \<Rightarrow> string \<Rightarrow> ContainerConfig \<Rightarrow> int \<Rightarrow> CkOptions \<Rightarrow> u64 io" where
  "ck_dump E cid cfg pid opts =
     (let dir = for_id E cid; images_dir = path_join (staging_dir dir) ''dump-images'' in
      bind_m (set_status E cid Checkpointing) (\<lambda>_.
      bind_m (ignore_m (fs_remove_dir_all E (resolve E images_dir))) (\<lambda>_.
      bind_m (map_err_m (\<lambda>e. Checkpoint (''mkdir images: '' @ e)) (fs_create_dir_all E (resolve E images_dir))) (\<lambda>_.
      bind_m (get_m tick) (\<lambda>t_dump.
      bind_m (try_m (criu_dump E \<lparr>do_pid = pid, do_images_dir = images_dir, do_layout = layout_for cfg dir,
                do_leave_running = ck_leave_running opts, do_tcp_established = ck_allow_tcp opts\<rparr>)) (\<lambda>r.
      case r of
        Inl e \<Rightarrow>
          bind_m (get_m (\<lambda>w. pid_alive w pid)) (\<lambda>still.
          bind_m (ignore_m (set_status E cid (if still then Running else Failed))) (\<lambda>_.
          throw_m (Checkpoint (ee_to_string e @ [CHR 0x0A, CHR 0x0A] @ ''container '' @ cid @ '' is ''
            @ (if still then ''still running'' else ''NOT running'') @ '' after the failed dump''))))
      | Inr _ \<Rightarrow> since_m E t_dump))))))"

definition leave_running_update :: "string \<Rightarrow> string \<Rightarrow> ContainerState \<Rightarrow> ContainerState" where
  "leave_running_update dest now st =
     st\<lparr>cs_status := as_str Running, cs_snapshot := Some dest, cs_checkpointed_at := Some now\<rparr>"

definition ck_dest_path :: "'b env_scheme \<Rightarrow> string \<Rightarrow> CkOptions \<Rightarrow> string" where
  "ck_dest_path E cid opts =
     (case ck_dest opts of Some d \<Rightarrow> d | None \<Rightarrow> snapshot_file (for_id E cid) (ck_name opts))"

definition ck_release :: "'b env_scheme \<Rightarrow> ContainerState \<Rightarrow> ContainerConfig \<Rightarrow> CkOptions \<Rightarrow> unit io" where
  "ck_release E st cfg opts =
     (if ck_leave_running opts then return_m ()
      else bind_m (await_supervisor_exit E st 5000) (\<lambda>_. Cgroup_cleanup E (Cgroup_open (cc_id cfg))))"

definition ck_commit :: "'b senv_scheme \<Rightarrow> string \<Rightarrow> string \<Rightarrow> CkOptions \<Rightarrow> unit io" where
  "ck_commit E cid dest opts =
     (if ck_leave_running opts then update_at E cid (leave_running_update dest)
      else set_checkpointed E cid dest)"

definition checkpoint :: "'b snenv_scheme \<Rightarrow> string \<Rightarrow> CkOptions \<Rightarrow> CkReport io" where
  "checkpoint E cid opts =
     bind_m (get_m tick) (\<lambda>t0.
     bind_m (criu_version E) (\<lambda>engine_version.
     bind_m (ck_validate E cid) (\<lambda>(st, cfg, pid).
     bind_m (preflight E pid cfg opts) (\<lambda>_.
     bind_m (ck_collect E cfg pid) (\<lambda>(namespaces, mounts, open_fds, cgroup).
     bind_m (since_m E t0) (\<lambda>preflight_ms.
     bind_m (ck_dump E cid cfg pid opts) (\<lambda>dump_ms.
     bind_m (ck_release E st cfg opts) (\<lambda>_.
     bind_m (get_m tick) (\<lambda>t_pack.
     bind_m (now_m E) (\<lambda>now.
     let dir = for_id E cid;
         dest = ck_dest_path E cid opts;
         lifecycle = st\<lparr>cs_status := as_str Checkpointed, cs_pid := None, cs_checkpointed_at := Some now\<rparr>;
         meta = \<lparr>sm_engine = CRIU, sm_engine_version = engine_version, sm_config = cfg, sm_lifecycle = lifecycle,
                 sm_cgroup = cgroup, sm_namespaces = namespaces, sm_mounts = mounts, sm_open_fds = open_fds,
                 sm_checkpoint_pid = pid, sm_dump_ms = dump_ms\<rparr> in
     bind_m (pack E dest (path_join (staging_dir dir) ''dump-images'') dir meta) (\<lambda>(manifest, snapshot_bytes, image_bytes).
     bind_m (since_m E t_pack) (\<lambda>pack_ms.
     bind_m (ignore_m (fs_remove_dir_all E (resolve E (staging_dir dir)))) (\<lambda>_.
     bind_m (ck_commit E cid dest opts) (\<lambda>_.
     bind_m (since_m E t0) (\<lambda>total_ms.
     return_m \<lparr>cr_id = cid, cr_snapshot = dest, cr_snapshot_bytes = snapshot_bytes, cr_image_bytes = image_bytes,
       cr_entries = length (mf_entries manifest), cr_preflight_ms = preflight_ms, cr_dump_ms = dump_ms,
       cr_pack_ms = pack_ms, cr_total_ms = total_ms\<rparr>)))))))))))))))"

end
