(* ===== verification/Checkpoint_Facts.thy ===== *)
theory Checkpoint_Facts
  imports Checkpoint
begin

text \<open>
  What a checkpoint promises: it only freezes a container that is running and can be captured, a
  refusal leaves no trace, a failed dump puts the status back, and a successful one leaves a
  snapshot with exactly the engine's images together with a record that says so.
\<close>

section \<open>Reading the process table\<close>

text \<open>
  A process counts as alive exactly if its state letter is neither that of a zombie nor that of
  a dead process, for any process name: the name may contain spaces and parentheses and look like
  a state of its own, since the letter is the first word after the last closing parenthesis.
\<close>
theorem pid_alive_reads_state_letter:
  assumes "procs w pid = Some p" and "p_stat p = head @ '')'' @ '' '' @ st @ '' '' @ rest"
    and "utf8_valid (as_bytes (p_stat p))"
    and "CHR '')'' \<notin> set (st @ rest)" and "st \<noteq> []" and "list_all (\<lambda>c. \<not> is_ws c) st"
  shows "pid_alive w pid \<longleftrightarrow> st \<noteq> ''Z'' \<and> st \<noteq> ''X''"
proof -
  have run: "split_ws_from cur (s @ '' '' @ rest) = (rev cur @ s) # split_ws_from [] rest"
    if "list_all (\<lambda>c. \<not> is_ws c) s" "cur @ s \<noteq> []" for cur s
    using that by (induction s arbitrary: cur) (auto simp: is_ws_def)
  have "split_whitespace ('' '' @ st @ '' '' @ rest) = st # split_whitespace rest"
    using run [of st "[]"] assms(5,6) by (simp add: split_whitespace_def is_ws_def)
  moreover have "rsplit_once (CHR '')'') (head @ CHR '')'' # ('' '' @ st @ '' '' @ rest)) = Some (head, '' '' @ st @ '' '' @ rest)"
    using assms(4) by (intro rsplit_once_last) auto
  ultimately show ?thesis
    using assms(1,2,3) by (simp add: pid_alive_def utf8_of_def from_utf8_def)
qed

definition demo_proc :: "string \<Rightarrow> proc" where
  "demo_proc stat = \<lparr>p_stat = stat, p_ns = \<lambda>_. None, p_net = \<lambda>_. None, p_mountinfo = None, p_fds = None\<rparr>"

theorem pid_alive_reads_state_letter_witness:
  "\<not> pid_alive (demo_world\<lparr>procs := [42 \<mapsto> demo_proc ''42 (a) S (b) Z 1 2'']\<rparr>) 42"
proof -
  let ?w = "demo_world\<lparr>procs := [42 \<mapsto> demo_proc ''42 (a) S (b) Z 1 2'']\<rparr>"
  have "utf8_valid (as_bytes ''42 (a) S (b) Z 1 2'')" "list_all (\<lambda>c. \<not> is_ws c) ''Z''" by code_simp+
  then show ?thesis
    using pid_alive_reads_state_letter [of ?w 42 "demo_proc ''42 (a) S (b) Z 1 2''" "''42 (a) S (b''" "''Z''" "''1 2''"]
    by (simp add: demo_proc_def)
qed

section \<open>Mount keys\<close>

lemma volume_keys: "map xm_key (volume_mounts vs) = map (\<lambda>i. ''mcvol'' @ show_nat i) [0..<length vs]"
  by (rule nth_equalityI) (simp_all add: volume_mounts_def nth_enumerate_eq)

text \<open>
  The mount keys declared to the engine at dump time are pairwise different and depend only on
  the number of volumes, not on the host: a restore on any node, from its own state directory,
  supplies exactly the keys the dump declared, and every volume comes back at its host path.
\<close>
theorem mount_keys_pair_up:
  "distinct (declared_keys (layout_for cfg d))
   \<and> declared_keys (layout_for cfg d) = declared_keys (layout_for cfg d')
   \<and> (i < length (volumes cfg) \<longrightarrow>
        (let v = volumes cfg ! i; k = ''mcvol'' @ show_nat i
         in mount_args True (ly_external_mounts (layout_for cfg d) ! Suc i) = [''--external'', ''mnt['' @ container_path v @ '']:'' @ k]
          \<and> mount_args False (ly_external_mounts (layout_for cfg d') ! Suc i) = [''--ext-mount-map'', k @ '':'' @ host_path v]))"
proof (intro conjI impI)
  show "distinct (declared_keys (layout_for cfg d))"
    by (auto simp: declared_keys_def layout_for_def volume_keys distinct_map inj_on_def show_nat_inj)
qed (simp_all add: declared_keys_def layout_for_def volume_keys mount_args_def volume_mounts_def nth_enumerate_eq Let_def)

theorem mount_keys_pair_up_witness:
  "let cfg = demo_config\<lparr>volumes := [\<lparr>host_path = ''/h'', container_path = ''/c''\<rparr>]\<rparr>
   in mount_args True (ly_external_mounts (layout_for cfg (for_id demo_senv ''c1'')) ! 1) = [''--external'', ''mnt[/c]:mcvol'' @ show_nat 0]
    \<and> mount_args False (ly_external_mounts (layout_for cfg (for_id demo_senv ''c2'')) ! 1) = [''--ext-mount-map'', ''mcvol'' @ show_nat 0 @ '':/h'']"
  using mount_keys_pair_up [of "demo_config\<lparr>volumes := [\<lparr>host_path = ''/h'', container_path = ''/c''\<rparr>]\<rparr>"
      "for_id demo_senv ''c1''" "for_id demo_senv ''c2''" 0]
  by (simp add: Let_def)

section \<open>Waiting for the supervisor\<close>

lemma await_loop_bound:
  assumes "\<And>j. tick w \<le> j \<Longrightarrow> j < tick w + n \<Longrightarrow> mono_ms E j + 5 \<le> mono_ms E (Suc j)"
    and "deadline < mono_ms E (tick w) + 5 * n"
  shows "(await_loop E spv deadline (n + m) :: (world, 'e, unit) eio) w = await_loop E spv deadline n w"
  using assms
proof (induction n arbitrary: w)
  case 0
  then show ?case
    by (cases m) (simp_all add: bind_m_def get_m_def return_m_def)
next
  case (Suc n)
  let ?t = "(put_kpart (k_sleep E (kpart w)) w)\<lparr>tick := Suc (tick w)\<rparr>"
  have "mono_ms E (tick w) + 5 \<le> mono_ms E (Suc (tick w))"
    using Suc.prems(1) [of "tick w"] by simp
  then have "deadline < mono_ms E (tick ?t) + 5 * n"
    using Suc.prems(2) by simp
  then have "(await_loop E spv deadline (n + m) :: (world, 'e, unit) eio) ?t = await_loop E spv deadline n ?t"
    using Suc.prems(1) by (intro Suc.IH) simp_all
  then show ?case
    by (simp add: bind_m_def get_m_def thread_sleep_def)
qed

text \<open>
  C35: Waiting for the supervisor ends. If every sleep takes the five milliseconds asked for, the
  wait has returned after the number of polls the timeout allows, so running the loop any longer
  would change nothing: the bound of the model never cuts the real loop short.
\<close>
theorem await_supervisor_terminates:
  assumes "\<And>j. tick w \<le> j \<Longrightarrow> j < tick w + polls_for timeout \<Longrightarrow> mono_ms E j + 5 \<le> mono_ms E (Suc j)"
    and "cs_supervisor_pid st = Some spv"
  shows "(await_supervisor_exit E st timeout :: (world, 'e, unit) eio) w
    = await_loop E spv (mono_ms E (tick w) + timeout) (polls_for timeout + m) w"
proof -
  have "timeout < 5 * polls_for timeout"
    using div_mult_mod_eq [of timeout 5] mod_less_divisor [of 5 timeout] by (simp add: polls_for_def)
  then have "(await_loop E spv (mono_ms E (tick w) + timeout) (polls_for timeout + m) :: (world, 'e, unit) eio) w
      = await_loop E spv (mono_ms E (tick w) + timeout) (polls_for timeout) w"
    using assms(1) by (intro await_loop_bound) simp_all
  with assms(2) show ?thesis
    by (simp add: await_supervisor_exit_def bind_m_def get_m_def)
qed

theorem await_supervisor_terminates_witness:
  "await_supervisor_exit demo_senv (demo_state\<lparr>cs_supervisor_pid := Some 7\<rparr>) 5000 demo_world
    = (await_loop demo_senv 7 5000 1000000 demo_world :: (RuntimeError + unit) \<times> world)"
proof -
  have "polls_for 5000 + 998999 = 1000000" "mono_ms demo_senv (tick demo_world) = 0"
    by (simp_all add: polls_for_def demo_senv_def demo_world_def)
  then show ?thesis
    using await_supervisor_terminates [of demo_world 5000 demo_senv "demo_state\<lparr>cs_supervisor_pid := Some 7\<rparr>" 7 998999]
    by (simp add: demo_senv_def)
qed

section \<open>Refusals\<close>

text \<open>Steps 1 to 3 only read.\<close>

lemma keeps_only_tick_read: "keeps (only_tick w) (fs_read E p)"
proof (rule keepsI)
  fix s
  assume "only_tick w s"
  moreover have "only_tick s (snd (fs_read E p s))"
    using fs_read_wp' [of E p s] by (simp add: wp_def split: prod.splits sum.splits)
  ultimately show "only_tick w (snd (fs_read E p s))"
    by (rule only_tick_trans)
qed

lemma keeps_only_tick_string: "keeps (only_tick w) (fs_read_to_string E p)"
  unfolding fs_read_to_string_def by (intro mc_keeps keeps_only_tick_read)

lemma keeps_only_tick_loads:
  "keeps (only_tick w) (load_state E d)" "keeps (only_tick w) (load_config E d)"
  unfolding load_state_def load_config_def by (intro mc_keeps keeps_only_tick_string)+

lemma keeps_only_tick_validate: "keeps (only_tick w) (ck_validate E cid)"
  unfolding ck_validate_def dir_exists_def Let_def by (intro mc_keeps keeps_only_tick_loads)

lemma keeps_only_tick_collect:
  "keeps (only_tick w) (preflight E pid cfg opts)" "keeps (only_tick w) (ck_collect E cfg pid)"
  unfolding preflight_def ck_collect_def read_mounts_def read_fds_def by (intro mc_keeps)+

text \<open>What validation and pre-flight establish.\<close>

definition can_freeze :: "'b senv_scheme \<Rightarrow> string \<Rightarrow> CkOptions \<Rightarrow> world \<Rightarrow> bool" where
  "can_freeze E cid opts w \<longleftrightarrow>
     (\<exists>st cfg pid. content_of E cid w = Some st \<and> config_of E cid w = Some cfg
        \<and> cs_is st Running \<and> cs_pid st = Some pid \<and> pid_alive w pid
        \<and> (ck_allow_tcp opts \<or> established_connections w pid = []) \<and> is_dir w (resolve E (rootfs cfg)))"

lemma load_config_spec:
  "wp (load_config E (for_id E cid)) (\<lambda>cfg t. config_of E cid w = Some cfg \<and> fget t = fget w)
     (\<lambda>_ t. fget t = fget w) w"
  unfolding load_config_def wp_bind wp_map_err
  by (rule wp_mono [OF fs_read_to_string_wp])
    (auto simp: config_of_def from_utf8_def from_json_def split: sum.splits)

lemma config_of_cong: "fget t = fget w \<Longrightarrow> config_of E cid t = config_of E cid w"
  by (simp add: config_of_def)

lemma pid_alive_cong: "procs t = procs w \<Longrightarrow> pid_alive t pid = pid_alive w pid"
  by (simp add: pid_alive_def)

definition valid_running :: "'b senv_scheme \<Rightarrow> string \<Rightarrow> world \<Rightarrow> ContainerState \<times> ContainerConfig \<times> int \<Rightarrow> bool" where
  "valid_running E cid w = (\<lambda>(st, cfg, pid). content_of E cid w = Some st \<and> config_of E cid w = Some cfg
     \<and> cs_is st Running \<and> cs_pid st = Some pid \<and> pid_alive w pid)"

lemma ck_validate_wp:
  "wp (ck_validate E cid) (\<lambda>a t. valid_running E cid w a \<and> only_tick w t) (\<lambda>_ t. only_tick w t) w"
proof -
  have fin: "wp (if \<not> cs_is st Running then throw_m e1
        else case cs_pid st of None \<Rightarrow> throw_m e2
             | Some pid \<Rightarrow> bind_m (get_m (\<lambda>w. pid_alive w pid)) (\<lambda>alive.
                 if \<not> alive then throw_m (e3 pid) else return_m (st, cfg, pid)))
      (\<lambda>a _. valid_running E cid w a) (\<lambda>_ _. True) u"
    if "content_of E cid w = Some st" "config_of E cid w = Some cfg" "procs u = procs w" for st cfg u e1 e2 e3
    using that pid_alive_cong [of u w] by (auto simp: valid_running_def split: option.splits)
  have cfg: "wp (load_config E (for_id E cid)) (\<lambda>cfg u. config_of E cid w = Some cfg \<and> procs u = procs w) (\<lambda>_ _. True) t"
    if "only_tick w t" for t
    by (rule wp_mono [OF wp_conj [OF load_config_spec keeps_wp [OF keeps_only_tick_loads(2) that]]])
      (use config_of_cong [OF only_tick_fget [OF that], of E cid] in \<open>auto dest: only_tick_same\<close>)
  have st: "wp (load_state E (for_id E cid)) (\<lambda>st t. content_of E cid w = Some st \<and> only_tick w t) (\<lambda>_ _. True) w"
    by (rule wp_mono [OF wp_conj [OF load_state_spec keeps_wp [OF keeps_only_tick_loads(1), of w w]]]) auto
  have "wp (ck_validate E cid) (\<lambda>a _. valid_running E cid w a) (\<lambda>_ _. True) w"
    unfolding ck_validate_def Let_def dir_exists_def wp_bind [of "get_m f" for f] wp_get
    by (cases "path_exists w (resolve E (sd_root (for_id E cid)))", simp_all only: not_True_eq_False not_False_eq_True if_True if_False wp_throw)
      (rule wp_seq [OF st], elim conjE, rule wp_seq [OF cfg], assumption, elim conjE, rule fin)
  from wp_conj [OF this keeps_wp [OF keeps_only_tick_validate, of w w]] show ?thesis
    by simp
qed

definition after_version :: "'b env_scheme \<Rightarrow> world \<Rightarrow> world" where
  "after_version E w = snd (exec_cmd E CRIU [''--version''] w)"

lemma criu_version_wp: "wp (criu_version E) (\<lambda>_ t. t = after_version E w) (\<lambda>_ t. t = after_version E w) w"
proof -
  have "wp (exec_cmd E CRIU [''--version'']) (\<lambda>_ t. t = after_version E w) (\<lambda>_ t. t = after_version E w) w"
    by (simp add: wp_def after_version_def split: prod.splits sum.splits)
  then show ?thesis
    unfolding criu_version_def wp_bind wp_map_err by (rule wp_mono) simp_all
qed

lemma after_version_events: "events (after_version E w) = events w @ [Exec CRIU [''--version'']]"
  using exec_cmd_events [of E CRIU "[''--version'']" w]
  by (simp add: after_version_def wp_def split: prod.splits sum.splits)

lemma wp_TrueI: "(\<And>a t. Q a t) \<Longrightarrow> (\<And>e t. R e t) \<Longrightarrow> wp m Q R s"
  by (simp add: wp_def split: prod.splits sum.splits)

lemma preflight_wp:
  "wp (preflight E pid cfg opts)
     (\<lambda>_ t. t = w \<and> (ck_allow_tcp opts \<or> established_connections w pid = []) \<and> is_dir w (resolve E (rootfs cfg)))
     (\<lambda>_ t. t = w) w"
  by (auto simp: preflight_def)

lemma ck_collect_wp: "wp (ck_collect E cfg pid) (\<lambda>_ t. t = w) (\<lambda>_ t. t = w) w"
  by (auto simp: ck_collect_def read_mounts_def read_fds_def split: option.splits)

lemma is_dir_cong: "fget t = fget w \<Longrightarrow> is_dir t p = is_dir w p"
  by (simp add: is_dir_def)

lemma established_cong: "procs t = procs w \<Longrightarrow> established_connections t pid = established_connections w pid"
  by (simp add: established_connections_def proc_text_def)

text \<open>
  C16: A checkpoint freezes only a container that it can capture: one whose record says running,
  with a pid that is alive, without established TCP connections unless they were allowed, and with
  its root directory in place. In every other case it fails, and it has then done nothing to the
  host but ask the engine for its version: no file, process or control group has changed.
\<close>
theorem checkpoint_refusal_leaves_no_trace:
  "wp (checkpoint E cid opts)
     (\<lambda>_ _. can_freeze E cid opts (after_version E w))
     (\<lambda>_ t. can_freeze E cid opts (after_version E w) \<or> only_tick (after_version E w) t) w
   \<and> events (after_version E w) = events w @ [Exec CRIU [''--version'']]"
proof (rule conjI [OF _ after_version_events])
  let ?v = "after_version E w"
  let ?X = "can_freeze E cid opts ?v"
  have version: "wp (criu_version E) (\<lambda>_ t. t = ?v) (\<lambda>_ t. ?X \<or> only_tick ?v t) w"
    by (rule wp_mono [OF criu_version_wp]) simp_all
  have validate: "wp (ck_validate E cid) (\<lambda>a t. valid_running E cid ?v a \<and> only_tick ?v t) (\<lambda>_ t. ?X \<or> only_tick ?v t) ?v"
    by (rule wp_mono [OF ck_validate_wp]) simp_all
  have pre: "wp (preflight E pid cfg opts) (\<lambda>_ _. ?X) (\<lambda>_ t. ?X \<or> only_tick ?v t) t"
    if "valid_running E cid ?v (st, cfg, pid)" and t: "only_tick ?v t" for st cfg pid t
    using that(1) is_dir_cong [OF only_tick_fget [OF t]] established_cong [OF only_tick_same(2) [OF t]] t
    by (intro wp_mono [OF preflight_wp]) (auto simp: valid_running_def can_freeze_def)
  show "wp (checkpoint E cid opts) (\<lambda>_ _. ?X) (\<lambda>_ t. ?X \<or> only_tick ?v t) w"
    unfolding checkpoint_def wp_bind [of "get_m tick"] wp_get
    by (rule wp_seq [OF version], simp only:, rule wp_seq [OF validate], elim conjE, clarsimp simp only:,
        rule wp_seq [OF pre], assumption, assumption, rule wp_TrueI, simp_all)
qed

section \<open>A failed dump\<close>

lemma update_at_spec:
  "wp (update_at E cid f)
     (\<lambda>_ t. (\<exists>st n. content_of E cid w = Some st \<and> (json_ok (j_state E) (f n st) \<longrightarrow> content_of E cid t = Some (f n st)))
        \<and> (\<forall>q. q \<noteq> resolve E (state_file (for_id E cid)) \<longrightarrow> fget t q = fget w q))
     (\<lambda>_ t. \<forall>q. q \<noteq> resolve E (state_file (for_id E cid)) \<longrightarrow> fget t q = fget w q) w"
  unfolding update_at_def now_m_def wp_bind wp_get
  by (rule wp_mono [OF load_state_spec], rule wp_mono [OF save_state_spec]) auto

text \<open>The same in terms of bytes: the state file holds the text of a record with a property.\<close>

definition stores :: "'b senv_scheme \<Rightarrow> string \<Rightarrow> (ContainerState \<Rightarrow> bool) \<Rightarrow> world \<Rightarrow> bool" where
  "stores E cid P t \<longleftrightarrow>
     (\<exists>r json. P r \<and> to_json (j_state E) r = Inr json
        \<and> fget t (resolve E (state_file (for_id E cid))) = Some (File (as_bytes json)))"

lemma update_at_stores:
  "wp (update_at E cid f)
     (\<lambda>_ t. stores E cid (\<lambda>r. \<exists>st n. content_of E cid w = Some st \<and> r = f n st) t
        \<and> (\<forall>q. q \<noteq> resolve E (state_file (for_id E cid)) \<longrightarrow> fget t q = fget w q))
     (\<lambda>_ t. \<forall>q. q \<noteq> resolve E (state_file (for_id E cid)) \<longrightarrow> fget t q = fget w q) w"
proof -
  have save: "wp (save_state E (for_id E cid) r)
      (\<lambda>_ t. \<exists>json. to_json (j_state E) r = Inr json \<and> fget t = (fget u)(resolve E (state_file (for_id E cid)) \<mapsto> File (as_bytes json)))
      (\<lambda>_ t. \<forall>q. q \<noteq> resolve E (state_file (for_id E cid)) \<longrightarrow> fget t q = fget u q) u" for r u
    by (cases "to_json (j_state E) r")
      (auto simp: save_state_def simp del: resolve_dir_files intro: wp_mono [OF fs_write_wp])
  show ?thesis
    unfolding update_at_def now_m_def wp_bind wp_get
    by (rule wp_mono [OF load_state_spec], elim conjE, rule wp_mono [OF save])
      (auto simp: stores_def simp del: resolve_dir_files, blast)
qed

lemma keeps_blind_update: "fs_blind P \<Longrightarrow> keeps P (update_at E cid f)"
  unfolding update_at_def now_m_def load_state_def save_state_def
  by (intro mc_keeps mc_blind)

lemma update_at_full:
  assumes "no_faults E" and "content_of E cid w = Some st" and "is_dir w (resolve E (sd_root (for_id E cid)))"
    and "\<And>n. json_ok (j_state E) (f n st)"
  shows "wp (update_at E cid f)
     (\<lambda>_ t. (\<exists>n. content_of E cid t = Some (f n st))
        \<and> (\<forall>q. q \<noteq> resolve E (state_file (for_id E cid)) \<longrightarrow> fget t q = fget w q)
        \<and> procs t = procs w \<and> events t = events w) (\<lambda>_ _. False) w"
proof -
  have "keeps (\<lambda>t. procs t = procs w \<and> events t = events w) (update_at E cid f)"
    by (rule keeps_blind_update) (simp add: fs_blind_def)
  from wp_conj [OF update_at_live [OF assms(1-3), of f] wp_conj [OF update_at_spec keeps_wp [OF this, of w]]]
  show ?thesis
    using assms(2,4) by (auto elim!: wp_mono)
qed

text \<open>The engine does not succeed, and it leaves the container's record alone.\<close>

definition engine_fails :: "'b env_scheme \<Rightarrow> string \<Rightarrow> string list \<Rightarrow> bool" where
  "engine_fails E cid args \<longleftrightarrow>
     (\<forall>k. (case fst (k_exec E CRIU args k) of Inr out \<Rightarrow> \<not> ex_success out | Inl _ \<Rightarrow> True)
        \<and> (\<forall>q\<in>{resolve E (state_file (for_id E cid)), resolve E (sd_root (for_id E cid))}.
              fget (snd (k_exec E CRIU args k)) q = fget k q))"

definition record_at :: "'b senv_scheme \<Rightarrow> string \<Rightarrow> ContainerState \<Rightarrow> world \<Rightarrow> bool" where
  "record_at E cid st t \<longleftrightarrow> content_of E cid t = Some st \<and> is_dir t (resolve E (sd_root (for_id E cid)))"

lemma record_at_frame:
  assumes "record_at E cid st w"
    and "fget t (resolve E (state_file (for_id E cid))) = fget w (resolve E (state_file (for_id E cid)))"
    and "fget t (resolve E (sd_root (for_id E cid))) = fget w (resolve E (sd_root (for_id E cid)))"
  shows "record_at E cid st t"
  using assms by (simp add: record_at_def content_of_def is_dir_def)

lemma set_status_live:
  assumes "no_faults E" and "record_at E cid st w" and "json_ok (j_state E) (st\<lparr>cs_status := as_str s\<rparr>)"
  shows "wp (set_status E cid s)
     (\<lambda>_ t. record_at E cid (st\<lparr>cs_status := as_str s\<rparr>) t
        \<and> (\<forall>q. q \<noteq> resolve E (state_file (for_id E cid)) \<longrightarrow> fget t q = fget w q) \<and> procs t = procs w) (\<lambda>_ _. False) w"
  unfolding set_status_def
  by (rule wp_mono [OF update_at_full [of E cid w st]])
    (use assms in \<open>auto simp: record_at_def is_dir_def\<close>)

text \<open>
  C17: A dump that the engine fails never leaves the container in limbo: without I/O faults, the
  operation reports an error and the record's status is back to running if the process is still
  alive, and failed if it is gone; every other field of the record is as it was.
\<close>
theorem failed_dump_restores_status:
  assumes nf: "no_faults E" and rec: "record_at E cid st w"
    and json: "\<And>s. json_ok (j_state E) (st\<lparr>cs_status := as_str s\<rparr>)"
    and dirs: "\<And>q. under q (resolve E (path_join (staging_dir (for_id E cid)) ''dump-images'')) \<Longrightarrow> \<not> is_file w q"
    and engine: "engine_fails E cid (dump_args \<lparr>do_pid = pid,
        do_images_dir = path_join (staging_dir (for_id E cid)) ''dump-images'', do_layout = layout_for cfg (for_id E cid),
        do_leave_running = ck_leave_running opts, do_tcp_established = ck_allow_tcp opts\<rparr>)"
  shows "wp (ck_dump E cid cfg pid opts) (\<lambda>_ _. False)
     (\<lambda>_ t. content_of E cid t = Some (st\<lparr>cs_status := as_str (if pid_alive t pid then Running else Failed)\<rparr>)) w"
proof -
  let ?dir = "for_id E cid"
  let ?im = "path_join (staging_dir ?dir) ''dump-images''"
  let ?root = "resolve E (sd_root ?dir)"
  let ?opts = "\<lparr>do_pid = pid, do_images_dir = ?im, do_layout = layout_for cfg ?dir,
        do_leave_running = ck_leave_running opts, do_tcp_established = ck_allow_tcp opts\<rparr>"
  let ?st1 = "st\<lparr>cs_status := as_str Checkpointing\<rparr>"
  let ?R = "\<lambda>(_ :: RuntimeError) t. content_of E cid t
      = Some (st\<lparr>cs_status := as_str (if pid_alive t pid then Running else Failed)\<rparr>)"
  let ?free = "\<lambda>t. \<forall>q. under q (resolve E ?im) \<longrightarrow> \<not> is_file t q"
  have im: "resolve E ?im = ?root @ [''staging'', ''dump-images'']"
    by (simp add: simple_name_def)
  have mark: "wp (set_status E cid Checkpointing) (\<lambda>_ t. record_at E cid ?st1 t \<and> ?free t) ?R w"
  proof (rule wp_mono [OF set_status_live [OF nf rec json]])
    fix u and t :: world
    assume t: "record_at E cid ?st1 t \<and> (\<forall>q. q \<noteq> resolve E (state_file ?dir) \<longrightarrow> fget t q = fget w q) \<and> procs t = procs w"
    have "\<not> is_file t q" if q: "under q (resolve E ?im)" for q
    proof -
      have "q \<noteq> resolve E (state_file ?dir)" using q by (auto simp: im)
      with t dirs [OF q] show ?thesis by (simp add: is_file_def)
    qed
    with t show "record_at E cid ?st1 t \<and> ?free t" by blast
  qed simp
  have gone: "record_at E cid ?st1 t' \<and> ?free t'"
    if t: "record_at E cid ?st1 t \<and> ?free t"
      and t': "\<forall>q. fget t' q = fget t q \<or> under (resolve E ?im) q \<and> fget t' q = None" for t t'
  proof
    have "\<not> under (resolve E ?im) (resolve E (state_file ?dir))" "\<not> under (resolve E ?im) ?root"
      by (simp_all add: im)
    then have "fget t' (resolve E (state_file ?dir)) = fget t (resolve E (state_file ?dir))" "fget t' ?root = fget t ?root"
      using spec [OF t', of "resolve E (state_file ?dir)"] spec [OF t', of ?root] by simp_all
    then show "record_at E cid ?st1 t'"
      by (rule record_at_frame [OF conjunct1 [OF t]])
    show "?free t'"
    proof (intro allI impI)
      fix q
      assume "under q (resolve E ?im)"
      with t have "\<not> is_file t q" by blast
      moreover have "fget t' q = fget t q \<or> fget t' q = None" using spec [OF t', of q] by argo
      ultimately show "\<not> is_file t' q" by (auto simp: is_file_def)
    qed
  qed
  have clear: "wp (ignore_m (fs_remove_dir_all E (resolve E ?im))) (\<lambda>_ t. record_at E cid ?st1 t \<and> ?free t) ?R t"
    if t: "record_at E cid ?st1 t \<and> ?free t" for t
    unfolding wp_ignore by (rule wp_mono [OF fs_rmdir_wp]) (rule gone [OF t], assumption)+
  have mkdir: "wp (fs_create_dir_all E (resolve E ?im)) (\<lambda>_ t. record_at E cid ?st1 t) (\<lambda>_ _. False) t"
    if t: "record_at E cid ?st1 t \<and> ?free t" for t
  proof (rule wp_mono [OF fs_mkdir_wp])
    fix u and t' :: world
    assume t': "fget t' = (\<lambda>q. if under q (resolve E ?im) \<and> fget t q = None then Some Dir else fget t q)
        \<and> (\<forall>q. under q (resolve E ?im) \<longrightarrow> \<not> is_file t q)"
    have "fget t ?root \<noteq> None" "\<not> under (?root @ [''state.json'']) (resolve E ?im)"
      using t by (auto simp: record_at_def is_dir_def im)
    then have "fget t' (resolve E (state_file ?dir)) = fget t (resolve E (state_file ?dir))" "fget t' ?root = fget t ?root"
      by (simp_all add: conjunct1 [OF t'])
    then show "record_at E cid ?st1 t'"
      by (rule record_at_frame [OF conjunct1 [OF t]])
  qed (use nf t in auto)
  have dump: "wp (criu_dump E ?opts) (\<lambda>_ _. False) (\<lambda>_ t. record_at E cid ?st1 t) t"
    if t: "record_at E cid ?st1 t" for t
  proof (rule wp_mono [OF criu_dump_wp])
    fix u and t' :: world
    assume "\<exists>u out. made_dir E (do_images_dir ?opts) t u \<and> engine_ran E CRIU (dump_args ?opts) u t' (Inr out) \<and> ex_success out"
    then show False
      using engine by (auto simp: engine_ran_def engine_fails_def) (metis fst_conv old.sum.simps(6))
  next
    fix e and t' :: world
    assume "\<exists>u. made_dir E (do_images_dir ?opts) t u \<and> engine_failed E CRIU (dump_args ?opts) ''dump'' u t' e"
    then obtain u r where u: "made_dir E ?im t u" "engine_ran E CRIU (dump_args ?opts) u t' r"
      by (auto simp: engine_failed_def)
    have "record_at E cid ?st1 u"
      using t u(1) by (intro record_at_frame [OF t]) (auto simp: made_dir_def im record_at_def is_dir_def)
    then show "record_at E cid ?st1 t'"
    proof (rule record_at_frame)
      obtain k where k: "k_exec E CRIU (dump_args ?opts) (kpart u) = (r, k)" "fget t' = fget k"
        using u(2) by (auto simp: engine_ran_def)
      have "fget k q = fget u q" if "q \<in> {resolve E (state_file ?dir), ?root}" for q
        using engine that k(1) by (simp only: engine_fails_def) (metis fget_put_kpart(2) snd_conv)
      with k(2) show "fget t' (resolve E (state_file ?dir)) = fget u (resolve E (state_file ?dir))"
        "fget t' ?root = fget u ?root" by simp_all
    qed
  qed
  have putback: "wp (bind_m (get_m (\<lambda>w. pid_alive w pid)) (\<lambda>still.
      bind_m (ignore_m (set_status E cid (if still then Running else Failed))) (\<lambda>_. throw_m (err still))))
      (\<lambda>_ _. False) ?R t" if t: "record_at E cid ?st1 t" for t and err :: "bool \<Rightarrow> RuntimeError"
    unfolding wp_bind wp_get wp_ignore
    by (rule wp_mono [OF set_status_live [OF nf t]])
      (use json pid_alive_cong [of _ t pid] in \<open>auto simp: record_at_def\<close>)
  have made: "wp (map_err_m g (fs_create_dir_all E (resolve E ?im))) (\<lambda>_ t. record_at E cid ?st1 t) ?R t"
    if "record_at E cid ?st1 t \<and> ?free t" for t and g :: "string \<Rightarrow> RuntimeError"
    unfolding wp_map_err by (rule wp_mono [OF mkdir [OF that]]) simp_all
  have tried: "wp (try_m (criu_dump E ?opts)) (\<lambda>r t. (\<exists>e. r = Inl e) \<and> record_at E cid ?st1 t) ?R t"
    if "record_at E cid ?st1 t" for t
    unfolding wp_try by (rule wp_mono [OF dump [OF that]]) simp_all
  show ?thesis
    unfolding ck_dump_def Let_def
    by (rule wp_seq [OF mark], rule wp_seq [OF clear], assumption, rule wp_seq [OF made], assumption,
        simp only: wp_bind [of "get_m tick"] wp_get, rule wp_seq [OF tried], assumption, elim conjE exE,
        simp only: sum.case, rule putback)
qed

theorem failed_dump_restores_status_witness:
  "wp (ck_dump demo_senv ''c1'' demo_config 42 CkOptions_default) (\<lambda>_ _. False)
     (\<lambda>_ t. content_of demo_senv ''c1'' t
        = Some (demo_state\<lparr>cs_status := as_str (if pid_alive t 42 then Running else Failed)\<rparr>)) demo_world"
proof (rule failed_dump_restores_status)
  show "record_at demo_senv ''c1'' demo_state demo_world"
  proof -
    have "is_dir demo_world (demo_dir @ [''c1''])" by code_simp
    then show ?thesis by (simp add: record_at_def demo_content demo_paths)
  qed
  show "json_ok (j_state demo_senv) (demo_state\<lparr>cs_status := as_str s\<rparr>)" for s
  proof -
    have "\<forall>s. utf8_valid (as_bytes (as_str s))" by code_simp
    then have "utf8_valid (as_bytes (as_str s))" by blast
    then show ?thesis by (rule demo_json)
  qed
  show "\<not> is_file demo_world q"
    if "under q (resolve demo_senv (path_join (staging_dir (for_id demo_senv ''c1'')) ''dump-images''))" for q
  proof -
    have "resolve demo_senv (path_join (staging_dir (for_id demo_senv ''c1'')) ''dump-images'')
        = demo_dir @ [''c1'', ''staging'', ''dump-images'']" by code_simp
    with that have "q \<in> set (prefixes_of (demo_dir @ [''c1'', ''staging'', ''dump-images'']))"
      by (simp add: set_prefixes_of under_def)
    moreover have "list_all (\<lambda>q. \<not> is_file demo_world q) (prefixes_of (demo_dir @ [''c1'', ''staging'', ''dump-images'']))"
      by code_simp
    ultimately show ?thesis by (simp add: list_all_iff)
  qed
qed (rule demo_no_faults, simp add: engine_fails_def demo_senv_def)

end
