(* ===== verification/Checkpoint_Pack.thy ===== *)
theory Checkpoint_Pack
  imports Checkpoint_Facts
begin

text \<open>
  What ends up in the snapshot file of a checkpoint: the entries are exactly the engine's image files
  and the container's output, byte for byte, and the record of the container points at the file.
\<close>

section \<open>Packing files\<close>

text \<open>A file of the host and the entry made of it.\<close>

definition packs :: "'b env_scheme \<Rightarrow> string \<Rightarrow> (fspath \<Rightarrow> node option) \<Rightarrow> string \<Rightarrow> entry \<Rightarrow> bool" where
  "packs E pre g path e \<longleftrightarrow>
     (\<exists>n. file_name path = Some n \<and> fst e = pre @ n) \<and> g (resolve E path) = Some (File (snd e))"

text \<open>The scratch file of a writer holds the entries of its table.\<close>

definition writer_holds :: "SnapshotWriter \<Rightarrow> entry list \<Rightarrow> world \<Rightarrow> bool" where
  "writer_holds sw es w \<longleftrightarrow>
     sw_scratch sw \<and> sw_entries sw = map meta_of es
     \<and> fget w (sw_scratch_path sw) = Some (File (concat (map entry_bytes es)))"

lemma add_file_wp:
  assumes "writer_holds sw es w"
  shows "wp (add_file E sw name path)
     (\<lambda>sw' t. \<exists>b. fget w (resolve E path) = Some (File b) \<and> writer_holds sw' (es @ [(name, b)]) t
        \<and> sw_scratch_path sw' = sw_scratch_path sw
        \<and> (\<forall>q. q \<noteq> sw_scratch_path sw \<longrightarrow> fget t q = fget w q)) (\<lambda>_ _. True) w"
proof -
  have rd: "wp (snap_err what (fs_read E (resolve E path)))
      (\<lambda>b t. fget w (resolve E path) = Some (File b) \<and> fget t = fget w) (\<lambda>_ _. True) w" for what
    unfolding wp_snap_err by (rule wp_mono [OF fs_read_wp]) simp_all
  have st: "wp (snap_err what (io_touch E)) (\<lambda>_ t. fget t = fget w) (\<lambda>_ _. True) t" if "fget t = fget w" for t what
    unfolding wp_snap_err by (rule wp_mono [OF touch_wp]) (simp_all add: that)
  have we: "wp (write_entry E sw name (word_of_nat (length b)) b)
      (\<lambda>sw' t. \<exists>b. fget w (resolve E path) = Some (File b) \<and> writer_holds sw' (es @ [(name, b)]) t
        \<and> sw_scratch_path sw' = sw_scratch_path sw
        \<and> (\<forall>q. q \<noteq> sw_scratch_path sw \<longrightarrow> fget t q = fget w q)) (\<lambda>_ _. True) t"
    if b: "fget w (resolve E path) = Some (File b)" and t: "fget t = fget w" for b t
  proof -
    have "fget t (sw_scratch_path sw) = Some (File (concat (map entry_bytes es)))" "sw_scratch sw"
      using assms t by (simp_all add: writer_holds_def)
    note wr = write_entry_wp [OF this, of E name "word_of_nat (length b)" b]
    show ?thesis
      by (rule wp_mono [OF wr]) (use assms b t in \<open>auto simp: writer_holds_def meta_of_def entry_bytes_def\<close>)
  qed
  show ?thesis
    unfolding add_file_def
    by (rule wp_seq [OF rd], elim conjE, rule wp_seq [OF st], assumption, rule we)
qed

lemma image_len_wp: "wp (image_len E path) (\<lambda>_ t. fget t = fget w) (\<lambda>_ _. False) w"
  unfolding image_len_def wp_bind wp_try wp_get io_touch_def wp_io_op
  by (simp add: no_work_def wp_def split: option.splits)

lemma file_name_utf8:
  assumes "(case file_name path of Some n \<Rightarrow> utf8_of n | None \<Rightarrow> None) = Some name"
  shows "file_name path = Some name"
  using assms by (auto simp: utf8_of_def from_utf8_def split: option.splits if_splits)

lemma wp_TrueI_if: "(\<not> b \<Longrightarrow> wp m Q (\<lambda>_ _. True) s) \<Longrightarrow> wp (if b then throw_m e else m) Q (\<lambda>_ _. True) s"
  by simp

definition packed :: "SnapshotWriter \<Rightarrow> world \<Rightarrow> entry list \<Rightarrow> SnapshotWriter \<Rightarrow> world \<Rightarrow> bool" where
  "packed sw w es sw' t \<longleftrightarrow>
     writer_holds sw' es t \<and> sw_scratch_path sw' = sw_scratch_path sw
     \<and> (\<forall>q. q \<noteq> sw_scratch_path sw \<longrightarrow> fget t q = fget w q)"

lemma packs_frame:
  assumes "list_all2 (packs E pre (fget t)) paths es" and "\<forall>q. q \<noteq> p \<longrightarrow> fget t q = fget w q"
    and "\<And>path. path \<in> set paths \<Longrightarrow> resolve E path \<noteq> p"
  shows "list_all2 (packs E pre (fget w)) paths es"
  using assms(1)
proof (rule list.rel_mono_strong)
  fix path e
  assume "path \<in> set paths" "packs E pre (fget t) path e"
  with assms(2,3) show "packs E pre (fget w) path e" by (simp add: packs_def)
qed

lemma pack_images_wp:
  assumes "writer_holds sw es w" and "\<And>path. path \<in> set paths \<Longrightarrow> resolve E path \<noteq> sw_scratch_path sw"
  shows "wp (pack_images E paths sw n)
     (\<lambda>a t. \<exists>ims. packed sw w (es @ ims) (fst a) t \<and> list_all2 (packs E ''images/'' (fget w)) paths ims) (\<lambda>_ _. True) w"
  using assms
proof (induction paths arbitrary: sw es w n)
  case Nil
  then show ?case by (auto simp: packed_def)
next
  case (Cons path paths)
  show ?case
  proof (cases "case file_name path of Some n \<Rightarrow> utf8_of n | None \<Rightarrow> None")
    case None
    then show ?thesis by simp
  next
    case (Some name)
    let ?Q = "\<lambda>a t. \<exists>ims. packed sw w (es @ ims) (fst a) t \<and> list_all2 (packs E ''images/'' (fget w)) (path # paths) ims"
    have len: "wp (image_len E path) (\<lambda>_ t. fget t = fget w) (\<lambda>_ _. True) w"
      by (rule wp_mono [OF image_len_wp]) simp_all
    have add: "wp (add_file E sw (''images/'' @ name) path)
        (\<lambda>sw' u. \<exists>b. fget w (resolve E path) = Some (File b) \<and> packed sw w (es @ [(''images/'' @ name, b)]) sw' u)
        (\<lambda>_ _. True) t" if t: "fget t = fget w" for t
      by (rule wp_mono [OF add_file_wp [of sw es t]])
        (use Cons.prems(1) t in \<open>auto simp: packed_def writer_holds_def\<close>)
    have rest: "wp (pack_images E paths sw' m) ?Q (\<lambda>_ _. True) u"
      if b: "fget w (resolve E path) = Some (File b)" and u: "packed sw w (es @ [(''images/'' @ name, b)]) sw' u" for sw' u b m
    proof (rule wp_mono [OF Cons.IH])
      show "writer_holds sw' (es @ [(''images/'' @ name, b)]) u" using u by (simp add: packed_def)
      show "resolve E q \<noteq> sw_scratch_path sw'" if "q \<in> set paths" for q
        using that u Cons.prems(2) by (simp add: packed_def)
      fix a and v :: world
      assume "\<exists>ims. packed sw' u ((es @ [(''images/'' @ name, b)]) @ ims) (fst a) v
          \<and> list_all2 (packs E ''images/'' (fget u)) paths ims"
      then obtain ims where a: "packed sw' u (es @ (''images/'' @ name, b) # ims) (fst a) v"
        "list_all2 (packs E ''images/'' (fget u)) paths ims"
        by auto
      have "list_all2 (packs E ''images/'' (fget w)) paths ims"
        by (rule packs_frame [OF a(2)]) (use u Cons.prems(2) in \<open>auto simp: packed_def\<close>)
      moreover have "packs E ''images/'' (fget w) path (''images/'' @ name, b)"
        using b file_name_utf8 [OF Some] by (simp add: packs_def)
      moreover have "packed sw w (es @ (''images/'' @ name, b) # ims) (fst a) v"
        using a(1) u by (simp add: packed_def)
      ultimately show "?Q a v"
        by (intro exI [of _ "(''images/'' @ name, b) # ims"]) simp
    qed simp
    show ?thesis
      unfolding pack_images.simps Some option.case
      by (rule wp_seq [OF len], rule wp_seq [OF add], assumption, elim exE conjE, rule rest)
  qed
qed

definition log_entries :: "'b env_scheme \<Rightarrow> ContainerStateDir \<Rightarrow> (fspath \<Rightarrow> node option) \<Rightarrow> string list \<Rightarrow> entry list" where
  "log_entries E dir g names = concat (map (\<lambda>n.
     case g (resolve E (path_join (io_dir dir) n)) of Some (File b) \<Rightarrow> [(''io/'' @ n, b)] | _ \<Rightarrow> []) names)"

lemma log_entries_cong:
  "(\<And>n. n \<in> set names \<Longrightarrow> g (resolve E (path_join (io_dir dir) n)) = h (resolve E (path_join (io_dir dir) n))) \<Longrightarrow>
     log_entries E dir g names = log_entries E dir h names"
  by (simp add: log_entries_def cong: map_cong)

lemma pack_logs_wp:
  assumes "writer_holds sw es w"
    and "\<And>n. n \<in> set names \<Longrightarrow> resolve E (path_join (io_dir dir) n) \<noteq> sw_scratch_path sw"
  shows "wp (pack_logs E dir names sw) (\<lambda>sw' t. packed sw w (es @ log_entries E dir (fget w) names) sw' t) (\<lambda>_ _. True) w"
  using assms
proof (induction names arbitrary: sw es w)
  case Nil
  then show ?case by (simp add: packed_def log_entries_def)
next
  case (Cons n names)
  let ?p = "path_join (io_dir dir) n"
  let ?e = "case fget w (resolve E ?p) of Some (File b) \<Rightarrow> [(''io/'' @ n, b)] | _ \<Rightarrow> []"
  have one: "wp (if is_file w (resolve E ?p) then add_file E sw (''io/'' @ n) ?p else return_m sw)
      (\<lambda>sw' t. packed sw w (es @ ?e) sw' t) (\<lambda>_ _. True) w"
  proof (cases "is_file w (resolve E ?p)")
    case True
    show ?thesis
      unfolding if_P [OF True]
      by (rule wp_mono [OF add_file_wp [OF Cons.prems(1)]]) (auto simp: packed_def)
  next
    case False
    with Cons.prems(1) show ?thesis
      by (auto simp: packed_def is_file_def split: option.splits node.splits)
  qed
  have rest: "wp (pack_logs E dir names sw')
      (\<lambda>sw'' t. packed sw w (es @ log_entries E dir (fget w) (n # names)) sw'' t) (\<lambda>_ _. True) u"
    if u: "packed sw w (es @ ?e) sw' u" for sw' u
  proof -
    have "log_entries E dir (fget u) names = log_entries E dir (fget w) names"
      by (rule log_entries_cong) (use u Cons.prems(2) in \<open>auto simp: packed_def\<close>)
    moreover have "log_entries E dir (fget w) (n # names) = ?e @ log_entries E dir (fget w) names"
      by (simp add: log_entries_def)
    moreover have "wp (pack_logs E dir names sw')
        (\<lambda>sw'' t. packed sw' u ((es @ ?e) @ log_entries E dir (fget u) names) sw'' t) (\<lambda>_ _. True) u"
      by (rule Cons.IH) (use u Cons.prems(2) in \<open>auto simp: packed_def\<close>)
    ultimately show ?thesis
      using u by (auto elim!: wp_mono simp: packed_def)
  qed
  show ?case
    unfolding pack_logs.simps wp_bind [of "get_m f" for f] wp_get
    by (rule wp_seq [OF one], rule rest)
qed

definition image_names :: "'b env_scheme \<Rightarrow> string \<Rightarrow> 'a kstate_scheme \<Rightarrow> string list" where
  "image_names E dir w = sort (filter (\<lambda>n. is_file w (resolve E dir @ [n])) (dir_names w (resolve E dir)))"

lemma fs_read_dir_wp:
  "wp (fs_read_dir E p) (\<lambda>ns t. ns = dir_names w p \<and> fget t = fget w) (\<lambda>_ _. True) w"
  by (simp add: fs_read_dir_def io_op_def Let_def no_work_def dir_names_def wp_def split: option.splits)

lemma image_files_wp:
  "wp (image_files E dir) (\<lambda>ps t. ps = map (path_join dir) (image_names E dir w) \<and> fget t = fget w) (\<lambda>_ _. True) w"
  unfolding image_files_def wp_bind wp_map_err wp_get wp_return
  by (rule wp_mono [OF fs_read_dir_wp]) (auto simp: image_names_def is_file_def)

lemma pack_entries_wp:
  assumes "writer_holds sw [] w"
    and im: "\<And>n. n \<in> set (image_names E images_dir w) \<Longrightarrow> resolve E (path_join images_dir n) \<noteq> sw_scratch_path sw"
    and io: "\<And>n. n \<in> {''stdout'', ''stderr''} \<Longrightarrow> resolve E (path_join (io_dir dir) n) \<noteq> sw_scratch_path sw"
  shows "wp (pack_entries E images_dir dir sw)
     (\<lambda>a t. \<exists>ims. packed sw w (ims @ log_entries E dir (fget w) [''stdout'', ''stderr'']) (fst a) t
        \<and> list_all2 (packs E ''images/'' (fget w)) (map (path_join images_dir) (image_names E images_dir w)) ims)
     (\<lambda>_ _. True) w"
proof -
  let ?ps = "map (path_join images_dir) (image_names E images_dir w)"
  have images: "wp (pack_images E ?ps sw 0)
      (\<lambda>a u. \<exists>ims. packed sw w ims (fst a) u \<and> list_all2 (packs E ''images/'' (fget w)) ?ps ims) (\<lambda>_ _. True) t"
    if t: "fget t = fget w" for t
  proof -
    have "writer_holds sw [] t" using assms(1) t by (simp add: writer_holds_def)
    from pack_images_wp [OF this, of ?ps E 0] show ?thesis
      using im t by (auto elim!: wp_mono simp: packed_def)
  qed
  have logs: "wp (pack_logs E dir [''stdout'', ''stderr''] sw1)
      (\<lambda>sw' t. packed sw w (ims @ log_entries E dir (fget w) [''stdout'', ''stderr'']) sw' t) (\<lambda>_ _. True) u"
    if u: "packed sw w ims sw1 u" for sw1 u ims
  proof -
    have "log_entries E dir (fget u) [''stdout'', ''stderr''] = log_entries E dir (fget w) [''stdout'', ''stderr'']"
      by (rule log_entries_cong) (use u io in \<open>auto simp: packed_def\<close>)
    moreover have "wp (pack_logs E dir [''stdout'', ''stderr''] sw1)
        (\<lambda>sw' t. packed sw1 u (ims @ log_entries E dir (fget u) [''stdout'', ''stderr'']) sw' t) (\<lambda>_ _. True) u"
      by (rule pack_logs_wp) (use u io in \<open>auto simp: packed_def\<close>)
    ultimately show ?thesis
      using u by (auto elim!: wp_mono simp: packed_def)
  qed
  show ?thesis
    unfolding pack_entries_def
    by (rule wp_seq [OF image_files_wp], elim conjE, simp only:, rule wp_seq [OF images], assumption, elim exE conjE,
        simp only: split_beta, rule wp_TrueI_if, rule wp_seq [OF logs], assumption) auto
qed

section \<open>The snapshot of a container\<close>

text \<open>Where the default destination and its scratch file are.\<close>

lemma snapshot_file_slash:
  assumes "simple_name name"
  shows "snapshot_file (for_id E cid) name = snapshots_dir (for_id E cid) @ ''/'' @ (name @ ''.mcsnap'')"
proof -
  have "last (snapshots_dir (for_id E cid)) = CHR ''s''"
    by (simp add: snapshots_dir_def path_join_def is_absolute_def)
  moreover have "\<not> is_absolute (name @ ''.mcsnap'')"
    using assms by (cases name) (auto simp: is_absolute_def simple_name_def)
  moreover have "snapshots_dir (for_id E cid) \<noteq> []"
    by (simp add: snapshots_dir_def path_join_def)
  ultimately show ?thesis
    by (simp add: snapshot_file_def path_join_def [of "snapshots_dir d" for d])
qed

lemma simple_snapshot_name: "simple_name name \<Longrightarrow> simple_name (name @ ''.mcsnap'')"
  by (auto simp: simple_name_def)

abbreviation snap_dir :: "'b env_scheme \<Rightarrow> string \<Rightarrow> fspath" where
  "snap_dir E cid \<equiv> resolve E (sd_root (for_id E cid)) @ [''snapshots'']"

definition snap_scratch :: "string \<Rightarrow> string" where
  "snap_scratch name = file_stem (name @ ''.mcsnap'') @ ''.mcsnap.part''"

lemma SnapshotWriter_new_success:
  assumes "simple_name name"
  shows "wp (SnapshotWriter_new E (snapshot_file (for_id E cid) name))
     (\<lambda>sw t. sw_scratch_path sw = snap_dir E cid @ [snap_scratch name] \<and> writer_holds sw [] t
        \<and> (\<forall>q. \<not> under q (snap_dir E cid @ [snap_scratch name]) \<longrightarrow> fget t q = fget w q)) (\<lambda>_ _. True) w"
proof -
  let ?p = "snapshots_dir (for_id E cid)" and ?n = "name @ ''.mcsnap''"
  let ?d = "snap_dir E cid" and ?s = "snap_scratch name"
  have p: "?p \<noteq> []" by (simp add: snapshots_dir_def path_join_def)
  note n = simple_snapshot_name [OF assms]
  have d: "resolve E ?p = ?d" by simp
  have scratch: "resolve E (with_extension (?p @ ''/'' @ ?n) ''mcsnap.part'') = ?d @ [?s]"
    unfolding with_extension_slash [OF p n] snap_scratch_def d [symmetric]
    by (rule slash_paths(1) [OF p simple_scratch [OF n]])
  have mkdir: "wp (fs_create_dir_all E ?d) (\<lambda>_ v. \<forall>q. \<not> under q ?d \<longrightarrow> fget v q = fget w q) (\<lambda>_ _. True) w"
    by (rule wp_mono [OF fs_mkdir_wp]) auto
  have create: "wp (fs_write E (?d @ [?s]) []) (\<lambda>_ t. fget t = (fget v)(?d @ [?s] \<mapsto> File [])) (\<lambda>_ _. True) v" for v
    by (rule wp_mono [OF fs_create_wp]) auto
  have up: "\<not> under q (?d @ [?s]) \<Longrightarrow> \<not> under q ?d \<and> q \<noteq> ?d @ [?s]" for q
    using under_trans [of q ?d "?d @ [?s]"] by auto
  show ?thesis
    unfolding snapshot_file_slash [OF assms] SnapshotWriter_new_def Let_def scratch slash_paths(2) [OF p n] option.case d
    by (rule wp_seq_snap [OF mkdir], rule wp_seq_snap [OF create])
      (use up in \<open>auto simp: writer_holds_def\<close>)
qed

definition names_ok :: "fspath \<Rightarrow> (fspath \<Rightarrow> node option) \<Rightarrow> bool" where
  "names_ok d g \<longleftrightarrow> (\<forall>n b. g (d @ [n]) = Some (File b) \<longrightarrow> simple_name n)"

abbreviation ck_images :: "'b env_scheme \<Rightarrow> string \<Rightarrow> string" where
  "ck_images E cid \<equiv> path_join (staging_dir (for_id E cid)) ''dump-images''"

lemma resolve_ck_images: "resolve E (ck_images E cid) = resolve E (sd_root (for_id E cid)) @ [''staging'', ''dump-images'']"
  by (simp add: simple_name_def)

text \<open>The entries of a container's snapshot are its image files and its output, byte for byte.\<close>

definition captures :: "'b env_scheme \<Rightarrow> string \<Rightarrow> (fspath \<Rightarrow> node option) \<Rightarrow> entry list \<Rightarrow> bool" where
  "captures E cid g es \<longleftrightarrow>
     (\<forall>n b. (''images/'' @ n, b) \<in> set es \<longleftrightarrow> g (resolve E (ck_images E cid) @ [n]) = Some (File b))
     \<and> (\<forall>n b. (''io/'' @ n, b) \<in> set es \<longleftrightarrow>
          n \<in> {''stdout'', ''stderr''} \<and> g (resolve E (io_dir (for_id E cid)) @ [n]) = Some (File b))"

lemma image_names_iff:
  "n \<in> set (image_names E dir u) \<longleftrightarrow> is_file u (resolve E dir @ [n])"
proof
  assume f: "is_file u (resolve E dir @ [n])"
  then have "resolve E dir @ [n] \<in> set (map fst (fs u))"
    by (auto simp: is_file_def fget_def split: option.splits dest: map_of_SomeD intro: rev_image_eqI)
  then have "last (resolve E dir @ [n]) \<in> last ` {q \<in> set (map fst (fs u)). q \<noteq> [] \<and> butlast q = resolve E dir}"
    by (intro imageI) simp
  with f show "n \<in> set (image_names E dir u)"
    by (simp add: image_names_def dir_names_def)
qed (simp add: image_names_def)

lemma ck_images_file:
  assumes "simple_name n"
  shows "file_name (path_join (ck_images E cid) n) = Some n"
    "resolve E (path_join (ck_images E cid) n) = resolve E (ck_images E cid) @ [n]"
proof -
  have "last (ck_images E cid) = CHR ''s''" "ck_images E cid \<noteq> []"
    by (simp_all add: path_join_def is_absolute_def)
  then have "path_join (ck_images E cid) n = ck_images E cid @ ''/'' @ n"
    using simple_name_relative [OF assms] by (simp add: path_join_def [of "ck_images E cid"])
  with slash_paths [OF \<open>ck_images E cid \<noteq> []\<close> assms]
  show "file_name (path_join (ck_images E cid) n) = Some n"
    "resolve E (path_join (ck_images E cid) n) = resolve E (ck_images E cid) @ [n]"
    by (simp_all del: resolve_join_simple)
qed

lemma log_entries_in:
  "(m, b) \<in> set (log_entries E dir g names) \<longleftrightarrow>
     (\<exists>n\<in>set names. m = ''io/'' @ n \<and> g (resolve E (path_join (io_dir dir) n)) = Some (File b))"
proof -
  have "(m, b) \<in> set (case r of Some (File b) \<Rightarrow> [(''io/'' @ n, b)] | _ \<Rightarrow> []) \<longleftrightarrow> m = ''io/'' @ n \<and> r = Some (File b)" for n r
    by (auto split: option.splits node.splits)
  then show ?thesis
    unfolding log_entries_def set_concat set_map by blast
qed

lemma log_path:
  "n = ''stdout'' \<or> n = ''stderr'' \<Longrightarrow>
     resolve E (path_join (io_dir (for_id E cid)) n) = resolve E (io_dir (for_id E cid)) @ [n]"
  by (rule resolve_join_simple) (auto simp: simple_name_def)

lemma list_all2_partner:
  assumes "list_all2 P xs ys"
  shows "y \<in> set ys \<Longrightarrow> \<exists>x\<in>set xs. P x y" "x \<in> set xs \<Longrightarrow> \<exists>y\<in>set ys. P x y"
  using assms by (induction rule: list_all2_induct) auto

lemma packs_captures:
  assumes im: "list_all2 (packs E ''images/'' g) (map (path_join (ck_images E cid)) ns) ims"
    and ns: "\<And>n. n \<in> set ns \<longleftrightarrow> (\<exists>b. g (resolve E (ck_images E cid) @ [n]) = Some (File b))"
    and names: "names_ok (resolve E (ck_images E cid)) g"
  shows "captures E cid g (ims @ log_entries E (for_id E cid) g [''stdout'', ''stderr''])"
proof -
  let ?im = "ck_images E cid"
  have all2: "list_all2 (\<lambda>n e. packs E ''images/'' g (path_join ?im n) e) ns ims"
    using im by (simp add: list_all2_map1)
  have one: "packs E ''images/'' g (path_join ?im n) e \<longleftrightarrow>
      fst e = ''images/'' @ n \<and> g (resolve E ?im @ [n]) = Some (File (snd e))" if "n \<in> set ns" for n e
  proof -
    have "simple_name n" using that ns names by (auto simp: names_ok_def)
    then show ?thesis
      unfolding packs_def ck_images_file [OF \<open>simple_name n\<close>] by (auto simp del: append.simps)
  qed
  have ims: "e \<in> set ims \<longleftrightarrow> (\<exists>n\<in>set ns. fst e = ''images/'' @ n \<and> g (resolve E ?im @ [n]) = Some (File (snd e)))" for e
  proof
    assume "e \<in> set ims"
    with list_all2_partner(1) [OF all2] obtain n where "n \<in> set ns" "packs E ''images/'' g (path_join ?im n) e"
      by blast
    with one show "\<exists>n\<in>set ns. fst e = ''images/'' @ n \<and> g (resolve E ?im @ [n]) = Some (File (snd e))" by blast
  next
    assume "\<exists>n\<in>set ns. fst e = ''images/'' @ n \<and> g (resolve E ?im @ [n]) = Some (File (snd e))"
    then obtain n where n: "n \<in> set ns" "fst e = ''images/'' @ n" "g (resolve E ?im @ [n]) = Some (File (snd e))" by blast
    with list_all2_partner(2) [OF all2] obtain e' where e': "e' \<in> set ims" "packs E ''images/'' g (path_join ?im n) e'"
      by blast
    with one [OF n(1)] n have "e' = e" by (auto simp: prod_eq_iff)
    with e' show "e \<in> set ims" by simp
  qed
  have logs: "(m, b) \<in> set (log_entries E (for_id E cid) g [''stdout'', ''stderr'']) \<longleftrightarrow>
      (\<exists>n\<in>set [''stdout'', ''stderr'']. m = ''io/'' @ n \<and> g (resolve E (io_dir (for_id E cid)) @ [n]) = Some (File b))" for m b
    unfolding log_entries_in by (rule bex_cong [OF refl]) (auto simp: log_path)
  have "(''images/'' @ n, b) \<notin> set (log_entries E (for_id E cid) g [''stdout'', ''stderr''])" for n b
    unfolding logs by auto
  moreover have "(''io/'' @ n, b) \<notin> set ims" for n b
    unfolding ims by auto
  moreover have "(''images/'' @ n, b) \<in> set ims \<longleftrightarrow> g (resolve E ?im @ [n]) = Some (File b)" for n b
    unfolding ims using ns by (simp only: fst_conv snd_conv same_append_eq) blast
  moreover have "(''io/'' @ n, b) \<in> set (log_entries E (for_id E cid) g [''stdout'', ''stderr'']) \<longleftrightarrow>
      n \<in> {''stdout'', ''stderr''} \<and> g (resolve E (io_dir (for_id E cid)) @ [n]) = Some (File b)" for n b
    unfolding logs same_append_eq by auto
  ultimately show ?thesis
    unfolding captures_def set_append Un_iff by simp
qed

lemma pack_entries_container:
  assumes w: "writer_holds sw [] t" "sw_scratch_path sw = snap_dir E cid @ [s]"
    and same: "\<forall>q. \<not> under q (snap_dir E cid @ [s]) \<longrightarrow> fget t q = g q"
    and names: "names_ok (resolve E (ck_images E cid)) g"
  shows "wp (pack_entries E (ck_images E cid) (for_id E cid) sw)
     (\<lambda>a v. \<exists>es. packed sw t es (fst a) v \<and> captures E cid g es) (\<lambda>_ _. True) t"
proof -
  let ?im = "ck_images E cid" and ?io = "io_dir (for_id E cid)"
  have img: "fget t (resolve E ?im @ [n]) = g (resolve E ?im @ [n])"
    "fget t (resolve E ?io @ [n]) = g (resolve E ?io @ [n])" for n
    using same by (simp_all add: resolve_ck_images del: resolve_join_simple)
  have "names_ok (resolve E ?im) (fget t)" using names img by (simp add: names_ok_def)
  have eq: "captures E cid (fget t) es = captures E cid g es" for es
    by (simp only: captures_def img)
  have im: "resolve E (path_join ?im n) \<noteq> sw_scratch_path sw" if "n \<in> set (image_names E ?im t)" for n
  proof -
    have "simple_name n"
      using that \<open>names_ok (resolve E ?im) (fget t)\<close> by (auto simp: image_names_iff names_ok_def node_cases_file)
    then show ?thesis
      unfolding ck_images_file(2) [OF \<open>simple_name n\<close>] w(2) resolve_ck_images by simp
  qed
  have io: "resolve E (path_join ?io n) \<noteq> sw_scratch_path sw" if "n \<in> {''stdout'', ''stderr''}" for n
    using that by (auto simp: w(2) simple_name_def)
  show ?thesis
  proof (rule wp_mono [OF pack_entries_wp [OF w(1) im io]])
    fix a v
    assume "\<exists>ims. packed sw t (ims @ log_entries E (for_id E cid) (fget t) [''stdout'', ''stderr'']) (fst a) v
        \<and> list_all2 (packs E ''images/'' (fget t)) (map (path_join ?im) (image_names E ?im t)) ims"
    then show "\<exists>es. packed sw t es (fst a) v \<and> captures E cid g es"
      using packs_captures [of E "fget t" cid "image_names E ?im t"] \<open>names_ok (resolve E ?im) (fget t)\<close>
      by (metis eq image_names_iff node_cases_file)
  qed simp_all
qed

lemma assembled_snapshot: "assembled json (concat (map entry_bytes es)) = snapshot_bytes json es"
  by (simp add: assembled_def snapshot_bytes_def snapshot_head_def Let_def)

text \<open>The file holds a manifest built from the given metadata and the given entries.\<close>

definition snapshot_of ::
  "'b snenv_scheme \<Rightarrow> SnapshotMeta \<Rightarrow> entry list \<Rightarrow> fspath \<Rightarrow> world \<Rightarrow> bool" where
  "snapshot_of E meta es d t \<longleftrightarrow>
     (\<exists>now json. to_json (j_manifest E) (build_manifest E now meta (map meta_of es)) = Inr json
        \<and> fget t d = Some (File (snapshot_bytes json es)))"

lemma pack_finish_wp:
  assumes "packed sw t0 es sw2 v" "sw_scratch_path sw = snap_dir E cid @ [snap_scratch name]" "simple_name name"
    and d: "d = snap_dir E cid @ [name @ ''.mcsnap'']"
  shows "wp (bind_m (now_m E) (\<lambda>now. bind_m (finish E sw2 (snapshot_file (for_id E cid) name) (build_manifest E now meta)) (\<lambda>manifest.
         bind_m (image_len E (snapshot_file (for_id E cid) name)) (\<lambda>n. return_m (manifest, n, ib)))))
     (\<lambda>_ t. snapshot_of E meta es d t) (\<lambda>_ _. True) v"
proof -
  have p: "snapshots_dir (for_id E cid) \<noteq> []" by (simp add: snapshots_dir_def path_join_def)
  have dest: "d = resolve E (snapshot_file (for_id E cid) name)"
    unfolding snapshot_file_slash [OF assms(3)] slash_paths(1) [OF p simple_snapshot_name [OF assms(3)]] d by simp
  have ne: "d \<noteq> snap_dir E cid @ [snap_scratch name]"
    using file_stem_differs [of "name @ ''.mcsnap''"] by (auto simp: d snap_scratch_def)
  have scratch: "fget v (snap_dir E cid @ [snap_scratch name]) = Some (File (concat (map entry_bytes es)))"
    "snap_dir E cid @ [snap_scratch name] = sw_scratch_path sw2" "sw_scratch sw2" "sw_entries sw2 = map meta_of es"
    using assms(1,2) by (auto simp: packed_def writer_holds_def)
  note fin = finish_success [OF scratch(1-3) dest ne]
  have len: "wp (bind_m (image_len E q) (\<lambda>n. return_m (m, n, ib))) (\<lambda>_ t. snapshot_of E meta es d t) (\<lambda>_ _. True) u"
    if "snapshot_of E meta es d u" for u q m
    unfolding wp_bind by (rule wp_mono [OF image_len_wp]) (use that in \<open>auto simp: snapshot_of_def\<close>)
  show ?thesis
    unfolding now_m_def wp_bind [of "get_m f" for f] wp_get
    by (rule wp_seq [OF fin], rule len) (auto simp: snapshot_of_def scratch(4) assembled_snapshot)
qed

lemma pack_container_wp:
  assumes "simple_name name" and "names_ok (resolve E (ck_images E cid)) (fget w)"
    and d: "d = snap_dir E cid @ [name @ ''.mcsnap'']"
  shows "wp (pack E (snapshot_file (for_id E cid) name) (ck_images E cid) (for_id E cid) meta)
     (\<lambda>_ t. \<exists>es. captures E cid (fget w) es \<and> snapshot_of E meta es d t) (\<lambda>_ _. True) w"
proof -
  let ?P = "\<lambda>t. \<exists>es. captures E cid (fget w) es \<and> snapshot_of E meta es d t"
  have entries: "wp (try_m (pack_entries E (ck_images E cid) (for_id E cid) sw))
      (\<lambda>r v. case r of Inl _ \<Rightarrow> True | Inr a \<Rightarrow> \<exists>es. packed sw t es (fst a) v \<and> captures E cid (fget w) es) (\<lambda>_ _. True) t"
    if "sw_scratch_path sw = snap_dir E cid @ [snap_scratch name]" "writer_holds sw [] t"
      "\<forall>q. \<not> under q (snap_dir E cid @ [snap_scratch name]) \<longrightarrow> fget t q = fget w q" for sw t
    unfolding wp_try
    by (rule wp_mono [OF pack_entries_container [OF that(2,1,3) assms(2)]]) simp_all
  have fin: "wp (case r of
       Inl e \<Rightarrow> bind_m (SnapshotWriter_drop E sw) (\<lambda>_. throw_m e)
     | Inr (sw2, image_bytes) \<Rightarrow>
         bind_m (now_m E) (\<lambda>now.
         bind_m (finish E sw2 (snapshot_file (for_id E cid) name) (build_manifest E now meta)) (\<lambda>manifest.
         bind_m (image_len E (snapshot_file (for_id E cid) name)) (\<lambda>snapshot_bytes.
         return_m (manifest, snapshot_bytes, image_bytes))))) (\<lambda>_. ?P) (\<lambda>_ _. True) v"
    if sw: "sw_scratch_path sw = snap_dir E cid @ [snap_scratch name]"
      and r: "case r of Inl _ \<Rightarrow> True | Inr a \<Rightarrow> \<exists>es. packed sw t es (fst a) v \<and> captures E cid (fget w) es" for sw t r v
  proof (cases r)
    case (Inl e)
    then show ?thesis by (simp add: SnapshotWriter_drop_def del: wp_ignore) (rule wp_mono [OF remove_scratch_wp], simp_all)
  next
    case (Inr a)
    obtain sw2 ib where a: "a = (sw2, ib)" by fastforce
    with r Inr obtain es where es: "packed sw t es sw2 v" "captures E cid (fget w) es" by auto
    show ?thesis
      unfolding Inr a sum.case prod.case
      by (rule wp_mono [OF pack_finish_wp [OF es(1) sw assms(1) d]]) (use es(2) in auto)
  qed
  show ?thesis
    unfolding pack_def
    by (rule wp_seq [OF SnapshotWriter_new_success [OF assms(1)]], elim conjE, rule wp_seq [OF entries], assumption+, rule fin)
qed

section \<open>A whole checkpoint\<close>

text \<open>The host once the container is frozen and its supervisor and control group are gone.\<close>

definition frozen ::
  "'b senv_scheme \<Rightarrow> string \<Rightarrow> ContainerState \<times> ContainerConfig \<times> int \<Rightarrow> CkOptions \<Rightarrow> world \<Rightarrow> u64 \<Rightarrow> world \<Rightarrow> bool" where
  "frozen E cid a opts v ms u \<longleftrightarrow>
     (case a of (st, cfg, pid) \<Rightarrow>
        \<exists>x. ck_dump E cid cfg pid opts v = (Inr ms, x) \<and> ck_release E st cfg opts x = (Inr (), u))"

lemma wp_run: "wp m (\<lambda>a t. m s = (Inr a, t)) (\<lambda>_ _. True) s"
  by (simp add: wp_def split: prod.splits sum.splits)

definition describes :: "ContainerState \<times> ContainerConfig \<times> int \<Rightarrow> u64 \<Rightarrow> SnapshotMeta \<Rightarrow> bool" where
  "describes a ms meta \<longleftrightarrow>
     (case a of (st, cfg, pid) \<Rightarrow> sm_config meta = cfg \<and> sm_checkpoint_pid meta = pid \<and> sm_dump_ms meta = ms
        \<and> (\<exists>now. sm_lifecycle meta = st\<lparr>cs_status := as_str Checkpointed, cs_pid := None, cs_checkpointed_at := Some now\<rparr>))"

lemma snapshot_of_cong: "fget t d = fget u d \<Longrightarrow> snapshot_of E meta es d t = snapshot_of E meta es d u"
  by (simp add: snapshot_of_def)

lemma commit_wp:
  assumes "snapshot_of E meta es (snap_dir E cid @ [n]) u" and "\<not> ck_leave_running opts"
  shows "wp (ck_commit E cid dest opts)
     (\<lambda>_ t. snapshot_of E meta es (snap_dir E cid @ [n]) t
        \<and> stores E cid (\<lambda>r. \<exists>st now. r = checkpointed_update dest now st) t) (\<lambda>_ _. True) u"
  unfolding ck_commit_def if_not_P [OF assms(2)] set_checkpointed_def
proof (rule wp_mono [OF update_at_stores])
  fix x t
  assume t: "stores E cid (\<lambda>r. \<exists>st n. content_of E cid u = Some st \<and> r = checkpointed_update dest n st) t
      \<and> (\<forall>q. q \<noteq> resolve E (state_file (for_id E cid)) \<longrightarrow> fget t q = fget u q)"
  then have "fget t (snap_dir E cid @ [n]) = fget u (snap_dir E cid @ [n])" by simp
  from snapshot_of_cong [OF this] assms(1) have "snapshot_of E meta es (snap_dir E cid @ [n]) t"
    by blast
  moreover from t have "stores E cid (\<lambda>r. \<exists>st now. r = checkpointed_update dest now st) t"
    unfolding stores_def by blast
  ultimately show "snapshot_of E meta es (snap_dir E cid @ [n]) t
      \<and> stores E cid (\<lambda>r. \<exists>st now. r = checkpointed_update dest now st) t" ..
qed simp

lemma cleared_staging_wp:
  assumes "snapshot_of E meta es (snap_dir E cid @ [n]) u"
  shows "wp (ignore_m (fs_remove_dir_all E (resolve E (staging_dir (for_id E cid)))))
     (\<lambda>_ t. snapshot_of E meta es (snap_dir E cid @ [n]) t) (\<lambda>_ _. True) u"
proof -
  let ?s = "resolve E (staging_dir (for_id E cid))"
  have "snapshot_of E meta es (snap_dir E cid @ [n]) t"
    if "\<forall>q. fget t q = fget u q \<or> under ?s q \<and> fget t q = None" for t
  proof -
    have "\<not> under ?s (snap_dir E cid @ [n])" by simp
    then have "fget t (snap_dir E cid @ [n]) = fget u (snap_dir E cid @ [n])"
      using spec [OF that, of "snap_dir E cid @ [n]"] by argo
    from snapshot_of_cong [OF this] assms show ?thesis by blast
  qed
  then show ?thesis
    unfolding wp_ignore by (intro wp_mono [OF fs_rmdir_wp])
qed

definition captured ::
  "'b snenv_scheme \<Rightarrow> string \<Rightarrow> string \<Rightarrow> ContainerState \<times> ContainerConfig \<times> int \<Rightarrow> u64 \<Rightarrow> world \<Rightarrow> world \<Rightarrow> bool" where
  "captured E cid name a ms u t \<longleftrightarrow>
     (\<exists>es meta. captures E cid (fget u) es \<and> describes a ms meta
        \<and> snapshot_of E meta es (snap_dir E cid @ [name @ ''.mcsnap'']) t)"

lemma pack_commit_wp:
  assumes name: "simple_name name" and ok: "names_ok (resolve E (ck_images E cid)) (fget u)"
    and opts: "\<not> ck_leave_running opts" and d: "describes a ms meta"
  shows "wp (bind_m (pack E (snapshot_file (for_id E cid) name) (ck_images E cid) (for_id E cid) meta) (\<lambda>p.
       bind_m (since_m E t1) (\<lambda>pack_ms.
       bind_m (ignore_m (fs_remove_dir_all E (resolve E (staging_dir (for_id E cid))))) (\<lambda>_.
       bind_m (ck_commit E cid dest opts) (\<lambda>_.
       bind_m (since_m E t0) (\<lambda>total_ms. return_m (rep p pack_ms total_ms)))))))
     (\<lambda>_ t. captured E cid name a ms u t \<and> stores E cid (\<lambda>r. \<exists>st now. r = checkpointed_update dest now st) t)
     (\<lambda>_ _. True) u"
proof -
  let ?d = "snap_dir E cid @ [name @ ''.mcsnap'']"
  have tail: "wp (bind_m (ignore_m (fs_remove_dir_all E (resolve E (staging_dir (for_id E cid))))) (\<lambda>_.
       bind_m (ck_commit E cid dest opts) (\<lambda>_. bind_m (since_m E t0) (\<lambda>total_ms. return_m (r total_ms)))))
     (\<lambda>_ t. captured E cid name a ms u t \<and> stores E cid (\<lambda>r. \<exists>st now. r = checkpointed_update dest now st) t)
     (\<lambda>_ _. True) t"
    if es: "captures E cid (fget u) es" "snapshot_of E meta es ?d t" for es t and r :: "u64 \<Rightarrow> 'r"
    by (rule wp_seq [OF cleared_staging_wp [OF es(2)]], rule wp_seq [OF commit_wp [OF _ opts]], assumption)
      (use es(1) d in \<open>auto simp: since_m_def captured_def\<close>)
  show ?thesis
    by (rule wp_seq [OF pack_container_wp [OF name ok refl]], elim exE conjE,
        simp only: since_m_def [of E t1] wp_bind [of "get_m f" for f] wp_get, rule tail)
qed



end
