(* ===== verification/Hardening.thy ===== *)
theory Hardening
  imports MC_Config
begin

text \<open>
  \<^verbatim>\<open>src/seccomp.rs\<close> and \<^verbatim>\<open>src/capabilities.rs\<close>, on a model of the process that becomes the
  container. The process keeps its descriptor table and the sequence of its system calls, each with
  whether the kernel granted it. The kernel is a parameter: an arbitrary function of the calls made
  so far, which refuses a call with an error text or grants it. The crates \<^verbatim>\<open>libc\<close> and
  \<^verbatim>\<open>seccompiler\<close> are parameters too.
\<close>

section \<open>The process and its system calls\<close>

datatype MsFlags = MS_BIND | MS_REC | MS_PRIVATE
datatype CapSet = Bounding | Ambient | Inheritable
datatype Capability =
    CAP_SYS_ADMIN | CAP_SYS_MODULE | CAP_SYS_RAWIO | CAP_SYS_BOOT | CAP_SYS_TIME | CAP_NET_ADMIN
  | CAP_NET_RAW | CAP_MKNOD | CAP_SYS_PTRACE
datatype SeccompAction = Allow | Errno nat

type_synonym SeccompRule = string

record SeccompFilter =
  sf_rules :: "(int \<times> SeccompRule list) list"
  sf_mismatch :: SeccompAction
  sf_match :: SeccompAction
  sf_arch :: string

datatype syscall =
    SRead nat | SClose nat | SOpen string | SDup2 nat nat
  | SSetsid | SSethostname string
  | SMkdirAll string | SRmdir string | SMknod string nat nat
  | SMount "string option" string "string option" "MsFlags list" | SUmount2 string
  | SPivotRoot string string | SChdir string
  | SCapDrop CapSet Capability | SCapClear CapSet | SSeccomp SeccompFilter
  | SExec string "string list" "string list"

record pstate =
  fdt :: "(nat \<times> string) list"
  calls :: "(syscall \<times> bool) list"

datatype pfail = Fault RuntimeError | Panic string

type_synonym pkern = "(syscall \<times> bool) list \<Rightarrow> syscall \<Rightarrow> string option"
type_synonym 'a pio = "(pstate, pfail, 'a) eio"

definition sysc :: "pkern \<Rightarrow> syscall \<Rightarrow> (pstate, string, unit) eio" where
  "sysc K c s =
     (case K (calls s) c of
        None \<Rightarrow> (Inr (), s\<lparr>calls := calls s @ [(c, True)]\<rparr>)
      | Some e \<Rightarrow> (Inl e, s\<lparr>calls := calls s @ [(c, False)]\<rparr>))"

definition fault_of :: "(string \<Rightarrow> RuntimeError) \<Rightarrow> (pstate, string, 'a) eio \<Rightarrow> 'a pio" where
  "fault_of f m = map_err_m (\<lambda>e. Fault (f e)) m"

section \<open>Capabilities\<close>

definition DROP :: "Capability list" where
  "DROP = [CAP_SYS_ADMIN, CAP_SYS_MODULE, CAP_SYS_RAWIO, CAP_SYS_BOOT, CAP_SYS_TIME, CAP_NET_ADMIN,
     CAP_NET_RAW, CAP_MKNOD, CAP_SYS_PTRACE]"

definition dropped_count :: nat where
  "dropped_count = length DROP"

definition drop_dangerous :: "pkern \<Rightarrow> unit pio" where
  "drop_dangerous K =
     bind_m (forM_m DROP (\<lambda>cap.
       bind_m (ignore_m (sysc K (SCapDrop Bounding cap))) (\<lambda>_.
       ignore_m (sysc K (SCapDrop Ambient cap))))) (\<lambda>_.
     fault_of (\<lambda>e. Config (''clear inheritable caps: '' @ e)) (sysc K (SCapClear Inheritable)))"

section \<open>The system call filter\<close>

datatype Sysno =
    SYS_ptrace | SYS_keyctl | SYS_add_key | SYS_request_key | SYS_mount | SYS_umount2 | SYS_pivot_root
  | SYS_reboot | SYS_swapon | SYS_swapoff | SYS_init_module | SYS_finit_module | SYS_delete_module
  | SYS_kexec_load | SYS_perf_event_open

text \<open>
  The numbers of system calls and of \<^verbatim>\<open>EPERM\<close> (\<^verbatim>\<open>libc\<close>), the conversion of the architecture name,
  and the errors of building and compiling a filter (\<^verbatim>\<open>seccompiler\<close>). A compiled program is
  represented by the filter it was compiled from.
\<close>

record seclib =
  sl_sysno :: "Sysno \<Rightarrow> int"
  sl_eperm :: nat
  sl_arch :: "string + string"
  sl_new :: "SeccompFilter \<Rightarrow> string option"
  sl_compile :: "SeccompFilter \<Rightarrow> string option"

definition blocked_syscalls :: "seclib \<Rightarrow> int list" where
  "blocked_syscalls L = map (sl_sysno L)
     [SYS_ptrace, SYS_keyctl, SYS_add_key, SYS_request_key, SYS_mount, SYS_umount2, SYS_pivot_root,
      SYS_reboot, SYS_swapon, SYS_swapoff, SYS_init_module, SYS_finit_module, SYS_delete_module,
      SYS_kexec_load, SYS_perf_event_open]"

definition blocked_count :: "seclib \<Rightarrow> nat" where
  "blocked_count L = length (blocked_syscalls L)"

definition btree_insert :: "int \<Rightarrow> 'v \<Rightarrow> (int \<times> 'v) list \<Rightarrow> (int \<times> 'v) list" where
  "btree_insert k v m = sort_key fst (AList.update k v m)"

definition block_rules :: "seclib \<Rightarrow> (int \<times> SeccompRule list) list" where
  "block_rules L = fold (\<lambda>sc. btree_insert sc []) (blocked_syscalls L) []"

definition block_filter :: "seclib \<Rightarrow> string \<Rightarrow> SeccompFilter" where
  "block_filter L arch =
     \<lparr>sf_rules = block_rules L, sf_mismatch = Allow, sf_match = Errno (sl_eperm L), sf_arch = arch\<rparr>"

definition refuse_if :: "string \<Rightarrow> string option \<Rightarrow> unit pio" where
  "refuse_if what r = (case r of None \<Rightarrow> return_m () | Some e \<Rightarrow> throw_m (Fault (Seccomp (what @ e))))"

definition seccomp_apply :: "pkern \<Rightarrow> seclib \<Rightarrow> unit pio" where
  "seccomp_apply K L =
     bind_m (lift_m (case sl_arch L of
         Inl e \<Rightarrow> Inl (Fault (Seccomp (''unsupported arch: '' @ e))) | Inr a \<Rightarrow> Inr a)) (\<lambda>arch.
     let filt = block_filter L arch in
     bind_m (refuse_if ''build filter: '' (sl_new L filt)) (\<lambda>_.
     bind_m (refuse_if ''compile bpf: '' (sl_compile L filt)) (\<lambda>_.
     fault_of (\<lambda>e. Seccomp (''apply filter: '' @ e)) (sysc K (SSeccomp filt)))))"

text \<open>
  What a loaded filter answers to a system call, as \<^verbatim>\<open>seccompiler\<close> documents it: an entry with an
  empty vector of rules matches unconditionally.
\<close>

definition verdict :: "SeccompFilter \<Rightarrow> int \<Rightarrow> SeccompAction" where
  "verdict f n = (if map_of (sf_rules f) n = Some [] then sf_match f else sf_mismatch f)"

section \<open>What the filter denies\<close>

lemma sort_key_alist:
  assumes "distinct (map fst m)"
  shows "distinct (map fst (sort_key f m))" and "map_of (sort_key f m) = map_of m"
proof -
  show "distinct (map fst (sort_key f m))"
    using assms by (simp add: distinct_map)
  with assms show "map_of (sort_key f m) = map_of m"
    by (simp add: map_of_inject_set)
qed

lemma btree_insert_alist:
  assumes "distinct (map fst m)"
  shows "distinct (map fst (btree_insert k v m))" and "map_of (btree_insert k v m) = (map_of m)(k \<mapsto> v)"
  using assms by (simp_all add: btree_insert_def sort_key_alist distinct_update update_conv')

lemma btree_fold:
  "distinct (map fst m) \<Longrightarrow>
     distinct (map fst (fold (\<lambda>k. btree_insert k v) ks m))
     \<and> map_of (fold (\<lambda>k. btree_insert k v) ks m) = (\<lambda>k. if k \<in> set ks then Some v else map_of m k)"
proof (induction ks arbitrary: m)
  case (Cons k ks)
  from Cons.IH [OF btree_insert_alist(1) [OF Cons.prems]] show ?case
    by (auto simp: btree_insert_alist(2) [OF Cons.prems] fun_eq_iff)
qed simp

text \<open>
  C25: A filter, once installed, answers every system call number with \<^verbatim>\<open>EPERM\<close> if it is one of the
  blocked ones and lets every other through. Installing is the only request made, it is the last
  step, and success means that the kernel granted it.
\<close>
theorem seccomp_denies_exactly_the_list:
  "wp (seccomp_apply K L)
     (\<lambda>_ t. \<exists>f. calls t = calls s @ [(SSeccomp f, True)] \<and> fdt t = fdt s
        \<and> (\<forall>n. verdict f n = (if n \<in> set (blocked_syscalls L) then Errno (sl_eperm L) else Allow)))
     (\<lambda>e t. calls t = calls s \<or> (\<exists>f. calls t = calls s @ [(SSeccomp f, False)])) s"
proof -
  have "verdict (block_filter L a) n = (if n \<in> set (blocked_syscalls L) then Errno (sl_eperm L) else Allow)" for a n
    using btree_fold [of "[]" "[] :: SeccompRule list" "blocked_syscalls L"]
    by (simp add: verdict_def block_filter_def block_rules_def)
  then show ?thesis
    by (auto simp: seccomp_apply_def Let_def refuse_if_def fault_of_def sysc_def wp_def [of "sysc K c" for c]
        split: sum.splits option.splits)
qed

end
