(* ===== verification/Container_Init.thy ===== *)
theory Container_Init
  imports Hardening
begin

text \<open>
  \<^verbatim>\<open>src/container.rs\<close>, the part that runs inside the process that becomes the container: binding
  volumes, switching the root, redirecting the standard streams, hardening, and executing the
  command. Returning normally means that the command has replaced the process image. The system
  calls are those of the theory \<open>Hardening\<close>; \<^verbatim>\<open>create_dir_all\<close> counts as one request. A NUL byte in
  an argument or a variable, and an empty command, panic.
\<close>

section \<open>Descriptors\<close>

definition lowest_free :: "(nat \<times> string) list \<Rightarrow> nat" where
  "lowest_free t = hd (filter (\<lambda>n. map_of t n = None) [0..<Suc (length t)])"

definition p_open :: "pkern \<Rightarrow> string \<Rightarrow> (pstate, string, nat) eio" where
  "p_open K path =
     bind_m (sysc K (SOpen path)) (\<lambda>_.
     bind_m (get_m (\<lambda>s. lowest_free (fdt s))) (\<lambda>fd.
     bind_m (modify_m (\<lambda>s. s\<lparr>fdt := AList.update fd path (fdt s)\<rparr>)) (\<lambda>_.
     return_m fd)))"

definition p_dup2 :: "pkern \<Rightarrow> nat \<Rightarrow> nat \<Rightarrow> (pstate, string, unit) eio" where
  "p_dup2 K a b =
     bind_m (sysc K (SDup2 a b)) (\<lambda>_.
     bind_m (get_m (\<lambda>s. map_of (fdt s) a)) (\<lambda>r.
     case r of
       None \<Rightarrow> throw_m ''EBADF: Bad file number''
     | Some x \<Rightarrow> modify_m (\<lambda>s. s\<lparr>fdt := AList.update b x (fdt s)\<rparr>)))"

text \<open>Linux releases the descriptor even if closing reports an error.\<close>

definition p_close :: "pkern \<Rightarrow> nat \<Rightarrow> unit pio" where
  "p_close K fd =
     bind_m (ignore_m (sysc K (SClose fd))) (\<lambda>_.
     modify_m (\<lambda>s. s\<lparr>fdt := AList.delete fd (fdt s)\<rparr>))"

definition wait_for :: "pkern \<Rightarrow> nat \<Rightarrow> unit pio" where
  "wait_for K fd = ignore_m (sysc K (SRead fd))"

section \<open>Operations\<close>

definition sc :: "pkern \<Rightarrow> string \<Rightarrow> syscall \<Rightarrow> unit pio" where
  "sc K name c = fault_of (Syscall name) (sysc K c)"

definition redirect_one :: "pkern \<Rightarrow> nat \<times> string \<Rightarrow> unit pio" where
  "redirect_one K = (\<lambda>(fd, name).
     bind_m (fault_of (Syscall ''open(container log)'') (p_open K (''/'' @ IO_MOUNT @ ''/'' @ name))) (\<lambda>f.
     bind_m (fault_of (Syscall ''dup2(container log)'') (p_dup2 K f fd)) (\<lambda>_.
     if f > 2 then p_close K f else return_m ())))"

definition redirect_stdio :: "pkern \<Rightarrow> unit pio" where
  "redirect_stdio K =
     bind_m (fault_of (Syscall ''open(/dev/null)'') (p_open K ''/dev/null'')) (\<lambda>devnull.
     bind_m (fault_of (Syscall ''dup2(stdin)'') (p_dup2 K devnull 0)) (\<lambda>_.
     bind_m (if devnull > 2 then p_close K devnull else return_m ()) (\<lambda>_.
     forM_m [(1, ''stdout''), (2, ''stderr'')] (redirect_one K))))"

definition dev_nodes :: "(string \<times> nat \<times> nat) list" where
  "dev_nodes = [(''/dev/null'', 1, 3), (''/dev/zero'', 1, 5), (''/dev/full'', 1, 7), (''/dev/random'', 1, 8),
     (''/dev/urandom'', 1, 9), (''/dev/tty'', 5, 0)]"

definition make_dev_nodes :: "pkern \<Rightarrow> unit pio" where
  "make_dev_nodes K = forM_m dev_nodes (\<lambda>(path, major, minor). ignore_m (sysc K (SMknod path major minor)))"

definition setup_rootfs :: "pkern \<Rightarrow> string \<Rightarrow> unit pio" where
  "setup_rootfs K root =
     bind_m (sc K ''mount(/ private)'' (SMount None ''/'' None [MS_REC, MS_PRIVATE])) (\<lambda>_.
     bind_m (sc K ''mount(bind rootfs)'' (SMount (Some root) root None [MS_BIND, MS_REC])) (\<lambda>_.
     bind_m (sc K ''chdir(rootfs)'' (SChdir root)) (\<lambda>_.
     bind_m (fault_of (\<lambda>e. Filesystem (''mkdir .oldroot: '' @ e)) (sysc K (SMkdirAll (path_join root ''.oldroot'')))) (\<lambda>_.
     bind_m (sc K ''pivot_root'' (SPivotRoot ''.'' ''.oldroot'')) (\<lambda>_.
     bind_m (sc K ''chdir(/) post-pivot'' (SChdir ''/'')) (\<lambda>_.
     bind_m (sc K ''umount(.oldroot)'' (SUmount2 ''/.oldroot'')) (\<lambda>_.
     bind_m (ignore_m (sysc K (SRmdir ''/.oldroot''))) (\<lambda>_.
     bind_m (ignore_m (sysc K (SMkdirAll ''/proc''))) (\<lambda>_.
     bind_m (sc K ''mount(/proc)'' (SMount (Some ''proc'') ''/proc'' (Some ''proc'') [])) (\<lambda>_.
     bind_m (ignore_m (sysc K (SMkdirAll ''/dev''))) (\<lambda>_.
     bind_m (try_m (sysc K (SMount (Some ''devtmpfs'') ''/dev'' (Some ''devtmpfs'') []))) (\<lambda>r.
     case r of
       Inr _ \<Rightarrow> return_m ()
     | Inl _ \<Rightarrow>
         bind_m (sc K ''mount(/dev tmpfs)'' (SMount (Some ''tmpfs'') ''/dev'' (Some ''tmpfs'') [])) (\<lambda>_.
         make_dev_nodes K)))))))))))))"

definition mount_target :: "string \<Rightarrow> string \<Rightarrow> string" where
  "mount_target root container = path_join root (trim_start_matches (CHR ''/'') container)"

definition mount_volume_into_rootfs :: "pkern \<Rightarrow> string \<Rightarrow> string \<Rightarrow> string \<Rightarrow> unit pio" where
  "mount_volume_into_rootfs K root host container =
     (let target = mount_target root container in
      bind_m (fault_of (\<lambda>e. Filesystem (''mkdir '' @ target @ '': '' @ e)) (sysc K (SMkdirAll target))) (\<lambda>_.
      sc K ''mount(volume bind)'' (SMount (Some host) target None [MS_BIND, MS_REC])))"

definition no_nul :: "string \<Rightarrow> bool" where
  "no_nul s = (CHR 0x00 \<notin> set s)"

definition cstrings :: "string list \<Rightarrow> string list pio" where
  "cstrings xs = (if list_all no_nul xs then return_m xs else throw_m (Panic ''NulError''))"

definition exec_command :: "pkern \<Rightarrow> ContainerConfig \<Rightarrow> unit pio" where
  "exec_command K cfg =
     (case command cfg of
        [] \<Rightarrow> throw_m (Panic ''index out of bounds: the len is 0 but the index is 0'')
      | prog # _ \<Rightarrow>
          if \<not> no_nul prog then throw_m (Fault (Config ''command contains NUL''))
          else
            bind_m (cstrings (command cfg)) (\<lambda>argv.
            bind_m (cstrings (cc_env cfg)) (\<lambda>envp.
            sc K ''execvpe'' (SExec prog argv envp))))"

text \<open>The argument \<open>io\<close> is the host directory for the standard streams of a detached container.\<close>

definition gc_setup :: "pkern \<Rightarrow> ContainerConfig \<Rightarrow> string option \<Rightarrow> nat \<Rightarrow> unit pio" where
  "gc_setup K cfg io go_r =
     bind_m (wait_for K go_r) (\<lambda>_.
     bind_m (p_close K go_r) (\<lambda>_.
     bind_m (if io \<noteq> None then sc K ''setsid'' SSetsid else return_m ()) (\<lambda>_.
     bind_m (sc K ''sethostname'' (SSethostname (cc_hostname cfg))) (\<lambda>_.
     bind_m (forM_m (volumes cfg) (\<lambda>vol. mount_volume_into_rootfs K (rootfs cfg) (host_path vol) (container_path vol))) (\<lambda>_.
     bind_m (case io of None \<Rightarrow> return_m () | Some d \<Rightarrow> mount_volume_into_rootfs K (rootfs cfg) d IO_MOUNT) (\<lambda>_.
     bind_m (setup_rootfs K (rootfs cfg)) (\<lambda>_.
     bind_m (sc K ''chdir(/)'' (SChdir ''/'')) (\<lambda>_.
     if io \<noteq> None then redirect_stdio K else return_m ()))))))))"

definition gc_harden :: "pkern \<Rightarrow> seclib \<Rightarrow> ContainerConfig \<Rightarrow> unit pio" where
  "gc_harden K L cfg =
     bind_m (if drop_caps cfg then drop_dangerous K else return_m ()) (\<lambda>_.
     if seccomp cfg then seccomp_apply K L else return_m ())"

definition grandchild :: "pkern \<Rightarrow> seclib \<Rightarrow> ContainerConfig \<Rightarrow> string option \<Rightarrow> nat \<Rightarrow> unit pio" where
  "grandchild K L cfg io go_r =
     bind_m (gc_setup K cfg io go_r) (\<lambda>_.
     bind_m (gc_harden K L cfg) (\<lambda>_.
     exec_command K cfg))"

section \<open>The standard streams\<close>

lemma lowest_free_fresh: "map_of t (lowest_free t) = None"
proof -
  let ?xs = "filter (\<lambda>n. map_of t n = None) [0..<Suc (length t)]"
  have "\<not> {0..<Suc (length t)} \<subseteq> fst ` set t"
  proof
    assume "{0..<Suc (length t)} \<subseteq> fst ` set t"
    then have "Suc (length t) \<le> card (fst ` set t)"
      by (metis card_atLeastLessThan card_mono diff_zero finite_imageI finite_set)
    also have "\<dots> \<le> length t"
      using card_length [of "map fst t"] by simp
    finally show False by simp
  qed
  then have "?xs \<noteq> []"
    by (auto simp: filter_empty_conv map_of_eq_None_iff simp del: upt_Suc)
  then have "hd ?xs \<in> set ?xs" by (rule hd_in_set)
  then show ?thesis by (simp add: lowest_free_def del: upt_Suc)
qed

lemma p_open_wp:
  "wp (p_open K p) (\<lambda>fd t. map_of (fdt s) fd = None \<and> map_of (fdt t) = (map_of (fdt s))(fd \<mapsto> p)) (\<lambda>_ _. True) s"
  by (auto simp: p_open_def sysc_def wp_def [of "sysc K c" for c] update_conv' lowest_free_fresh split: option.splits)

lemma p_dup2_wp:
  "map_of (fdt s) a = Some x \<Longrightarrow>
     wp (p_dup2 K a b) (\<lambda>_ t. map_of (fdt t) = (map_of (fdt s))(b \<mapsto> x)) (\<lambda>_ _. True) s"
  by (auto simp: p_dup2_def sysc_def wp_def [of "sysc K c" for c] update_conv' split: option.splits)

lemma p_close_wp:
  "wp (p_close K fd) (\<lambda>_ t. map_of (fdt t) = (map_of (fdt s))(fd := None)) (\<lambda>_ _. False) s"
  by (auto simp: p_close_def sysc_def wp_def [of "sysc K c" for c] delete_conv' split: option.splits)

lemma close_extra_wp:
  "wp (if 2 < fd then p_close K fd else return_m ())
     (\<lambda>_ t. map_of (fdt t) = (if 2 < fd then (map_of (fdt s))(fd := None) else map_of (fdt s))) (\<lambda>_ _. False) s"
  using p_close_wp [of K fd s] by simp

text \<open>Opening a file onto a fixed descriptor below three; the temporary descriptor may stay if it is below three itself.\<close>

definition onto :: "nat \<Rightarrow> string \<Rightarrow> (nat \<Rightarrow> string option) \<Rightarrow> (nat \<Rightarrow> string option) \<Rightarrow> bool" where
  "onto n x m m' \<longleftrightarrow> m' = m(n \<mapsto> x) \<or> (\<exists>f\<le>2. m f = None \<and> m' = m(f \<mapsto> x, n \<mapsto> x))"

lemma open_onto_wp:
  "wp (bind_m (fault_of g (p_open K p)) (\<lambda>f. bind_m (fault_of h (p_dup2 K f n)) (\<lambda>_.
       if 2 < f then p_close K f else return_m ())))
     (\<lambda>_ t. onto n p (map_of (fdt s)) (map_of (fdt t))) (\<lambda>_ _. True) s" if n: "n \<le> 2"
proof (rule wp_seq)
  show "wp (fault_of g (p_open K p)) (\<lambda>fd t. map_of (fdt s) fd = None \<and> map_of (fdt t) = (map_of (fdt s))(fd \<mapsto> p))
      (\<lambda>_ _. True) s"
    unfolding fault_of_def wp_map_err by (rule p_open_wp)
next
  fix f and t :: pstate
  assume f: "map_of (fdt s) f = None \<and> map_of (fdt t) = (map_of (fdt s))(f \<mapsto> p)"
  show "wp (bind_m (fault_of h (p_dup2 K f n)) (\<lambda>_. if 2 < f then p_close K f else return_m ()))
      (\<lambda>_ t. onto n p (map_of (fdt s)) (map_of (fdt t))) (\<lambda>_ _. True) t"
  proof (rule wp_seq)
    show "wp (fault_of h (p_dup2 K f n)) (\<lambda>_ u. map_of (fdt u) = (map_of (fdt s))(f \<mapsto> p, n \<mapsto> p)) (\<lambda>_ _. True) t"
      unfolding fault_of_def wp_map_err using f p_dup2_wp [of t f p K n] by simp
  next
    fix u :: pstate
    assume u: "map_of (fdt u) = (map_of (fdt s))(f \<mapsto> p, n \<mapsto> p)"
    have "onto n p (map_of (fdt s))
        (if 2 < f then (map_of (fdt u))(f := None) else map_of (fdt u))"
    proof (cases "2 < f")
      case True
      with f n show ?thesis by (auto simp: u onto_def fun_eq_iff)
    next
      case False
      with f show ?thesis unfolding u onto_def by (intro disjI2 exI [of _ f]) simp
    qed
    then show "wp (if 2 < f then p_close K f else return_m ())
        (\<lambda>_ t. onto n p (map_of (fdt s)) (map_of (fdt t))) (\<lambda>_ _. True) u"
      by (intro wp_mono [OF close_extra_wp]) auto
  qed
qed

text \<open>
  C24: Whatever descriptors a detached container inherits (the standard ones may be closed), once its
  streams are redirected descriptor 0 is the null device, 1 and 2 are the two log files in the bound
  directory, and every other descriptor is as before: no temporary descriptor is left open.
\<close>
theorem redirect_stdio_leaves_no_strays:
  "wp (redirect_stdio K)
     (\<lambda>_ t. map_of (fdt t) = (map_of (fdt s))(0 \<mapsto> ''/dev/null'', 1 \<mapsto> ''/.mcio/stdout'', 2 \<mapsto> ''/.mcio/stderr''))
     (\<lambda>_ _. True) s"
proof -
  have assoc: "redirect_stdio K =
      bind_m (bind_m (fault_of (Syscall ''open(/dev/null)'') (p_open K ''/dev/null'')) (\<lambda>devnull.
        bind_m (fault_of (Syscall ''dup2(stdin)'') (p_dup2 K devnull 0)) (\<lambda>_.
        if devnull > 2 then p_close K devnull else return_m ()))) (\<lambda>_.
      bind_m (redirect_one K (1, ''stdout'')) (\<lambda>_. bind_m (redirect_one K (2, ''stderr'')) (\<lambda>_. return_m ())))"
    by (simp add: redirect_stdio_def bind_m_assoc)
  have one: "wp (redirect_one K (n, name)) (\<lambda>_ t. onto n (''/.mcio/'' @ name) (map_of (fdt u)) (map_of (fdt t))) (\<lambda>_ _. True) u"
    if "n \<le> 2" for n name u
    using open_onto_wp [OF that, of "Syscall ''open(container log)''" K "''/.mcio/'' @ name" "Syscall ''dup2(container log)''" u]
    by (simp add: redirect_one_def IO_MOUNT_def)
  show ?thesis
    unfolding assoc
  proof (rule wp_seq [OF open_onto_wp], simp, rule wp_seq [OF one], simp, rule wp_seq [OF one], simp)
    fix t u v :: pstate
    assume t: "onto 0 ''/dev/null'' (map_of (fdt s)) (map_of (fdt t))"
      and u: "onto 1 (''/.mcio/'' @ ''stdout'') (map_of (fdt t)) (map_of (fdt u))"
      and v: "onto 2 (''/.mcio/'' @ ''stderr'') (map_of (fdt u)) (map_of (fdt v))"
    have le2: "f \<le> 2 \<longleftrightarrow> f = 0 \<or> f = 1 \<or> f = 2" for f :: nat by auto
    show "wp (return_m ()) (\<lambda>_ t. map_of (fdt t) =
        (map_of (fdt s))(0 \<mapsto> ''/dev/null'', 1 \<mapsto> ''/.mcio/stdout'', 2 \<mapsto> ''/.mcio/stderr'')) (\<lambda>_ _. True) v"
      using t u v unfolding onto_def le2 by (auto simp: fun_upd_twist)
  qed
qed

section \<open>The sequence of requests\<close>

text \<open>
  Requests whose refusal the sources ignore, calls that only move descriptors, and the record of a
  stage: the other requests of a successful run are one of \<open>S\<close>, all of them granted unless they
  are best effort, and on no path is the command executed.
\<close>

definition fd_call :: "syscall \<Rightarrow> bool" where
  "fd_call c = (case c of SRead _ \<Rightarrow> True | SClose _ \<Rightarrow> True | SOpen _ \<Rightarrow> True | SDup2 _ _ \<Rightarrow> True | _ \<Rightarrow> False)"

definition best_effort :: "syscall \<Rightarrow> bool" where
  "best_effort c = (case c of
     SRead _ \<Rightarrow> True | SClose _ \<Rightarrow> True | SRmdir _ \<Rightarrow> True | SMknod _ _ _ \<Rightarrow> True | SCapDrop _ _ \<Rightarrow> True
   | SMkdirAll d \<Rightarrow> d = ''/proc'' \<or> d = ''/dev'' | SMount src _ _ _ \<Rightarrow> src = Some ''devtmpfs'' | _ \<Rightarrow> False)"

definition call_settled :: "syscall \<times> bool \<Rightarrow> bool" where
  "call_settled e = (snd e \<or> best_effort (fst e))"

definition executed :: "syscall \<times> bool \<Rightarrow> bool" where
  "executed e = (snd e \<and> (case fst e of SExec _ _ _ \<Rightarrow> True | _ \<Rightarrow> False))"

definition requests :: "(syscall \<times> bool) list \<Rightarrow> syscall list" where
  "requests new = filter (\<lambda>c. \<not> fd_call c) (map fst new)"

definition stage :: "(pstate, 'e, 'a) eio \<Rightarrow> syscall list set \<Rightarrow> bool" where
  "stage m S \<longleftrightarrow> (\<forall>s. wp m
     (\<lambda>_ t. \<exists>new. calls t = calls s @ new \<and> requests new \<in> S \<and> list_all call_settled new \<and> \<not> list_ex executed new)
     (\<lambda>_ t. \<exists>new. calls t = calls s @ new \<and> \<not> list_ex executed new) s)"

definition conc :: "syscall list set \<Rightarrow> syscall list set \<Rightarrow> syscall list set" where
  "conc S T = {x @ y |x y. x \<in> S \<and> y \<in> T}"

named_theorems mc_stage \<open>stages of the set-up of a container\<close>

lemma stageD:
  "stage m S \<Longrightarrow> wp m
     (\<lambda>_ t. \<exists>new. calls t = calls s @ new \<and> requests new \<in> S \<and> list_all call_settled new \<and> \<not> list_ex executed new)
     (\<lambda>_ t. \<exists>new. calls t = calls s @ new \<and> \<not> list_ex executed new) s"
  by (simp add: stage_def)

lemma requests_simps [simp]: "requests [] = []" "requests (a @ b) = requests a @ requests b"
  "requests (e # b) = (if fd_call (fst e) then [] else [fst e]) @ requests b"
  by (simp_all add: requests_def)

lemma conc_single [simp]: "conc {x} {y} = {x @ y}" "conc {x} T = (\<lambda>y. x @ y) ` T" "conc S {y} = (\<lambda>x. x @ y) ` S"
  by (auto simp: conc_def)

lemma stage_return [mc_stage]: "stage (return_m a) {[]}"
  by (simp add: stage_def)

lemma stage_bind:
  assumes "stage m S" and "\<And>a. stage (f a) T"
  shows "stage (bind_m m f) (conc S T)"
  unfolding stage_def wp_bind
proof (intro allI wp_mono [OF stageD [OF assms(1)]])
  fix s a and t :: pstate
  assume "\<exists>new. calls t = calls s @ new \<and> requests new \<in> S \<and> list_all call_settled new \<and> \<not> list_ex executed new"
  then obtain new where new: "calls t = calls s @ new" "requests new \<in> S" "list_all call_settled new" "\<not> list_ex executed new"
    by blast
  show "wp (f a)
     (\<lambda>_ t. \<exists>new. calls t = calls s @ new \<and> requests new \<in> conc S T \<and> list_all call_settled new \<and> \<not> list_ex executed new)
     (\<lambda>_ t. \<exists>new. calls t = calls s @ new \<and> \<not> list_ex executed new) t"
  proof (rule wp_mono [OF stageD [OF assms(2)]])
    fix u :: pstate
    assume "\<exists>more. calls u = calls t @ more \<and> requests more \<in> T \<and> list_all call_settled more \<and> \<not> list_ex executed more"
    then obtain more where "calls u = calls t @ more" "requests more \<in> T" "list_all call_settled more" "\<not> list_ex executed more"
      by blast
    with new show "\<exists>new. calls u = calls s @ new \<and> requests new \<in> conc S T \<and> list_all call_settled new \<and> \<not> list_ex executed new"
      by (intro exI [of _ "new @ more"]) (auto simp: conc_def)
  next
    fix u :: pstate
    assume "\<exists>more. calls u = calls t @ more \<and> \<not> list_ex executed more"
    with new show "\<exists>new. calls u = calls s @ new \<and> \<not> list_ex executed new" by auto
  qed
qed simp

lemma stage_bind_one [mc_stage]:
  "stage m {x} \<Longrightarrow> (\<And>a. stage (f a) {y}) \<Longrightarrow> stage (bind_m m f) {x @ y}"
  using stage_bind [of m "{x}" f "{y}"] by simp

lemma stage_mono: "stage m S \<Longrightarrow> S \<subseteq> T \<Longrightarrow> stage m T"
  unfolding stage_def by (blast intro: wp_mono)

lemma stage_sysc: "\<not> executed (c, True) \<Longrightarrow> stage (fault_of g (sysc K c)) {if fd_call c then [] else [c]}"
  by (auto simp: stage_def fault_of_def sysc_def wp_def call_settled_def executed_def map_err_m_def split: option.splits)

lemma stage_request [mc_stage]:
  "\<not> fd_call c \<Longrightarrow> \<not> executed (c, True) \<Longrightarrow> stage (fault_of g (sysc K c)) {[c]}"
  using stage_sysc [of c g K] by simp

lemma stage_sc [mc_stage]: "\<not> fd_call c \<Longrightarrow> \<not> executed (c, True) \<Longrightarrow> stage (sc K n c) {[c]}"
  unfolding sc_def by (rule stage_request)

lemma stage_best_effort [mc_stage]:
  "best_effort c \<Longrightarrow> \<not> fd_call c \<Longrightarrow> stage (ignore_m (sysc K c)) {[c]}"
  by (auto simp: stage_def sysc_def wp_def ignore_m_def call_settled_def executed_def best_effort_def
      split: option.splits syscall.splits)

lemma stage_forM [mc_stage]: "(\<And>x. stage (f x) {g x}) \<Longrightarrow> stage (forM_m xs f) {concat (map g xs)}"
  by (induction xs) (simp_all add: mc_stage)

lemma stage_if [mc_stage]:
  "(b \<Longrightarrow> stage m {x}) \<Longrightarrow> (\<not> b \<Longrightarrow> stage n {y}) \<Longrightarrow> stage (if b then m else n) {if b then x else y}"
  by simp

text \<open>The requests of the set-up, in order; \<open>fb\<close> says whether the device file system was refused.\<close>

definition volume_calls :: "string \<Rightarrow> string \<Rightarrow> string \<Rightarrow> syscall list" where
  "volume_calls root host container =
     [SMkdirAll (mount_target root container),
      SMount (Some host) (mount_target root container) None [MS_BIND, MS_REC]]"

definition rootfs_calls :: "string \<Rightarrow> bool \<Rightarrow> syscall list" where
  "rootfs_calls root fb =
     [SMount None ''/'' None [MS_REC, MS_PRIVATE], SMount (Some root) root None [MS_BIND, MS_REC], SChdir root,
      SMkdirAll (path_join root ''.oldroot''), SPivotRoot ''.'' ''.oldroot'', SChdir ''/'', SUmount2 ''/.oldroot'',
      SRmdir ''/.oldroot'', SMkdirAll ''/proc'', SMount (Some ''proc'') ''/proc'' (Some ''proc'') [],
      SMkdirAll ''/dev'', SMount (Some ''devtmpfs'') ''/dev'' (Some ''devtmpfs'') []]
     @ (if fb then SMount (Some ''tmpfs'') ''/dev'' (Some ''tmpfs'') [] # map (\<lambda>(p, a, b). SMknod p a b) dev_nodes else [])"

definition setup_calls :: "ContainerConfig \<Rightarrow> string option \<Rightarrow> bool \<Rightarrow> syscall list" where
  "setup_calls cfg io fb =
     (if io \<noteq> None then [SSetsid] else []) @ [SSethostname (cc_hostname cfg)]
     @ concat (map (\<lambda>v. volume_calls (rootfs cfg) (host_path v) (container_path v)) (volumes cfg))
     @ (case io of None \<Rightarrow> [] | Some d \<Rightarrow> volume_calls (rootfs cfg) d IO_MOUNT)
     @ rootfs_calls (rootfs cfg) fb @ [SChdir ''/'']"

definition hardening_calls :: "seclib \<Rightarrow> ContainerConfig \<Rightarrow> string \<Rightarrow> syscall list" where
  "hardening_calls L cfg arch =
     (if drop_caps cfg
      then concat (map (\<lambda>c. [SCapDrop Bounding c, SCapDrop Ambient c]) DROP) @ [SCapClear Inheritable] else [])
     @ (if seccomp cfg then [SSeccomp (block_filter L arch)] else [])"

lemmas call_kinds = fd_call_def best_effort_def executed_def

lemma stage_dev_nodes [mc_stage]: "stage (make_dev_nodes K) {map (\<lambda>(p, a, b). SMknod p a b) dev_nodes}"
proof -
  have "stage (forM_m dev_nodes (\<lambda>(path, major, minor). ignore_m (sysc K (SMknod path major minor))))
      {concat (map (\<lambda>(p, a, b). [SMknod p a b]) dev_nodes)}"
    by (rule stage_forM) (auto intro!: mc_stage simp: call_kinds split: prod.split)
  then show ?thesis
    by (simp add: make_dev_nodes_def dev_nodes_def)
qed

lemma stage_dev:
  "stage (bind_m (try_m (sysc K (SMount (Some ''devtmpfs'') ''/dev'' (Some ''devtmpfs'') []))) (\<lambda>r.
     case r of Inr _ \<Rightarrow> return_m ()
     | Inl _ \<Rightarrow> bind_m (sc K n (SMount (Some ''tmpfs'') ''/dev'' (Some ''tmpfs'') [])) (\<lambda>_. make_dev_nodes K)))
     (range (\<lambda>fb. SMount (Some ''devtmpfs'') ''/dev'' (Some ''devtmpfs'') [] #
       (if fb then SMount (Some ''tmpfs'') ''/dev'' (Some ''tmpfs'') [] # map (\<lambda>(p, a, b). SMknod p a b) dev_nodes else [])))"
proof -
  let ?c = "SMount (Some ''devtmpfs'') ''/dev'' (Some ''devtmpfs'') []"
  let ?d = "SMount (Some ''tmpfs'') ''/dev'' (Some ''tmpfs'') [] # map (\<lambda>(p, a, b). SMknod p a b) dev_nodes"
  have probe: "stage (try_m (sysc K ?c)) {[?c]}"
    by (auto simp: stage_def sysc_def wp_def try_m_def call_settled_def call_kinds split: option.splits)
  have tmpfs: "stage (sc K n (SMount (Some ''tmpfs'') ''/dev'' (Some ''tmpfs'') [])) {[SMount (Some ''tmpfs'') ''/dev'' (Some ''tmpfs'') []]}"
    by (rule stage_sc) (simp_all add: call_kinds)
  have "stage (bind_m (sc K n (SMount (Some ''tmpfs'') ''/dev'' (Some ''tmpfs'') [])) (\<lambda>_. make_dev_nodes K)) {[], ?d}"
    by (rule stage_mono, rule stage_bind_one [OF tmpfs stage_dev_nodes]) simp
  moreover have "stage (return_m () :: unit pio) {[], ?d}"
    by (rule stage_mono, rule stage_return) simp
  ultimately have "stage (bind_m (try_m (sysc K ?c)) (\<lambda>r. case r of Inr _ \<Rightarrow> return_m ()
      | Inl _ \<Rightarrow> bind_m (sc K n (SMount (Some ''tmpfs'') ''/dev'' (Some ''tmpfs'') [])) (\<lambda>_. make_dev_nodes K)))
      (conc {[?c]} {[], ?d})"
    by (intro stage_bind [OF probe]) (simp split: sum.split)
  then show ?thesis
    by (rule stage_mono) (auto simp: image_iff)
qed

lemma stage_cons: "stage m {[c]} \<Longrightarrow> (\<And>a. stage (f a) T) \<Longrightarrow> stage (bind_m m f) ((#) c ` T)"
  using stage_bind [of m "{[c]}" f T] by (simp add: image_def)

lemma stage_rootfs: "stage (setup_rootfs K root) (range (rootfs_calls root))"
  unfolding setup_rootfs_def
  by (rule stage_mono, (rule stage_cons, rule mc_stage, simp add: call_kinds, simp add: call_kinds)+,
      rule stage_dev) (auto simp: rootfs_calls_def)

lemma stage_map_err [mc_stage]: "stage m {x} \<Longrightarrow> stage (fault_of g m) {x}"
  by (simp add: stage_def fault_of_def)

lemma stage_fd:
  assumes "fd_call c"
  shows "stage (sysc K c) {[]}" and "best_effort c \<Longrightarrow> stage (ignore_m (sysc K c)) {[]}"
proof -
  have "\<not> executed (c, g)" for g
    using assms by (auto simp: call_kinds split: syscall.splits)
  with assms show "stage (sysc K c) {[]}" "best_effort c \<Longrightarrow> stage (ignore_m (sysc K c)) {[]}"
    by (auto simp: stage_def sysc_def wp_def ignore_m_def call_settled_def split: option.splits)
qed

lemma stage_quiet [mc_stage]: "(\<And>s. calls (g s) = calls s) \<Longrightarrow> stage (modify_m g) {[]}"
  "stage (get_m h) {[]}" "stage (throw_m e) {[]}"
  by (simp_all add: stage_def)

lemma stage_option [mc_stage]:
  "stage m {[]} \<Longrightarrow> (\<And>x. stage (f x) {[]}) \<Longrightarrow> stage (case r of None \<Rightarrow> m | Some x \<Rightarrow> f x) {[]}"
  by (cases r) simp_all

lemma stage_silent: "stage m {[]} \<Longrightarrow> (\<And>a. stage (f a) T) \<Longrightarrow> stage (bind_m m f) T"
  using stage_bind [of m "{[]}" f T] by simp

lemma stage_nil_if [mc_stage]: "stage m {[]} \<Longrightarrow> stage n {[]} \<Longrightarrow> stage (if b then m else n) {[]}"
  by simp

lemma stage_descriptors [mc_stage]:
  "stage (p_open K p) {[]}" "stage (p_dup2 K a b) {[]}" "stage (p_close K fd) {[]}" "stage (wait_for K fd) {[]}"
  unfolding p_open_def p_dup2_def p_close_def wait_for_def
  by ((rule stage_silent, (rule stage_fd mc_stage; simp add: call_kinds)+)+
      | (rule stage_fd; simp add: call_kinds))

lemma stage_redirect: "stage (redirect_stdio K) {[]}"
proof -
  have "stage (redirect_one K x) {[]}" for x
    unfolding redirect_one_def by (cases x) (simp, intro stage_silent mc_stage)
  then have "stage (forM_m xs (redirect_one K)) {[]}" for xs
    by (induction xs) (simp_all add: stage_return stage_silent)
  then show ?thesis
    unfolding redirect_stdio_def by (intro stage_silent) (intro mc_stage)+
qed

lemma stage_volume:
  "stage (mount_volume_into_rootfs K root h c) {volume_calls root h c}"
proof -
  have "stage (mount_volume_into_rootfs K root h c)
      {[SMkdirAll (mount_target root c)] @ [SMount (Some h) (mount_target root c) None [MS_BIND, MS_REC]]}"
    unfolding mount_volume_into_rootfs_def Let_def
    by (rule stage_bind_one; rule mc_stage; simp add: call_kinds)
  then show ?thesis by (simp add: volume_calls_def)
qed

lemma stage_drop:
  "stage (drop_dangerous K)
     {concat (map (\<lambda>c. [SCapDrop Bounding c, SCapDrop Ambient c]) DROP) @ [SCapClear Inheritable]}"
proof -
  have one: "stage (bind_m (ignore_m (sysc K (SCapDrop Bounding c))) (\<lambda>_. ignore_m (sysc K (SCapDrop Ambient c))))
      {[SCapDrop Bounding c] @ [SCapDrop Ambient c]}" for c
    by (rule stage_bind_one; rule stage_best_effort; simp add: call_kinds)
  show ?thesis
    unfolding drop_dangerous_def
    by (intro stage_bind_one stage_forM stage_request) (use one in \<open>simp_all add: call_kinds\<close>)
qed

lemma stage_seccomp:
  "stage (seccomp_apply K L) {[SSeccomp (block_filter L a)] |a. sl_arch L = Inr a}"
proof (cases "sl_arch L")
  case (Inl e)
  then show ?thesis by (simp add: seccomp_apply_def lift_m_def stage_def wp_def bind_m_def)
next
  case (Inr a)
  have "stage (refuse_if what r) {[]}" for what r
    by (simp add: refuse_if_def mc_stage)
  moreover have "lift_m (Inr a) = (return_m a :: string pio)"
    by (simp add: fun_eq_iff lift_m_def return_m_def)
  moreover have "stage (fault_of g (sysc K (SSeccomp f))) {[SSeccomp f]}" for g f
    by (rule stage_request) (simp_all add: call_kinds)
  ultimately show ?thesis
    using Inr by (simp add: seccomp_apply_def Let_def stage_silent)
qed

text \<open>Executing the command is the last request; only when the kernel grants it is anything executed.\<close>

lemma exec_command_wp:
  "wp (exec_command K cfg)
     (\<lambda>_ t. calls t = calls s @ [(SExec (hd (command cfg)) (command cfg) (cc_env cfg), True)])
     (\<lambda>_ t. \<exists>new. calls t = calls s @ new \<and> \<not> list_ex executed new) s"
  by (auto simp: exec_command_def cstrings_def sc_def fault_of_def sysc_def wp_def [of "sysc K c" for c] executed_def
      split: list.splits option.splits)

lemma stage_harden: "stage (gc_harden K L cfg) {hardening_calls L cfg a |a. seccomp cfg \<longrightarrow> sl_arch L = Inr a}"
proof -
  let ?d = "if drop_caps cfg
      then concat (map (\<lambda>c. [SCapDrop Bounding c, SCapDrop Ambient c]) DROP) @ [SCapClear Inheritable] else []"
  have d: "stage (if drop_caps cfg then drop_dangerous K else return_m ()) {?d}"
    by (rule stage_if) (simp_all add: stage_drop stage_return)
  have f: "stage (if seccomp cfg then seccomp_apply K L else return_m ())
      {if seccomp cfg then [SSeccomp (block_filter L a)] else [] |a. seccomp cfg \<longrightarrow> sl_arch L = Inr a}"
    by (simp add: stage_seccomp stage_return)
  show ?thesis
    unfolding gc_harden_def by (rule stage_mono, rule stage_bind [OF d f]) (auto simp: hardening_calls_def)
qed

lemma stage_setup: "stage (gc_setup K cfg io go_r) (range (setup_calls cfg io))"
proof -
  have tail: "stage (bind_m (sc K ''chdir(/)'' (SChdir ''/'')) (\<lambda>_. if io \<noteq> None then redirect_stdio K else return_m ()))
      {[SChdir ''/'']}"
    by (rule stage_cons [of _ "SChdir ''/''" _ "{[]}", simplified]; intro stage_sc stage_nil_if stage_redirect stage_return;
        simp add: call_kinds)
  have io: "stage (case io of None \<Rightarrow> return_m () | Some d \<Rightarrow> mount_volume_into_rootfs K (rootfs cfg) d IO_MOUNT)
      {case io of None \<Rightarrow> [] | Some d \<Rightarrow> volume_calls (rootfs cfg) d IO_MOUNT}"
    by (cases io) (simp_all add: stage_return stage_volume)
  have vols: "stage (forM_m (volumes cfg) (\<lambda>vol. mount_volume_into_rootfs K (rootfs cfg) (host_path vol) (container_path vol)))
      {concat (map (\<lambda>v. volume_calls (rootfs cfg) (host_path v) (container_path v)) (volumes cfg))}"
    by (rule stage_forM) (rule stage_volume)
  have sid: "stage (if io \<noteq> None then sc K ''setsid'' SSetsid else return_m ()) {if io \<noteq> None then [SSetsid] else []}"
    by (rule stage_if; rule mc_stage; simp add: call_kinds)
  have host: "stage (sc K ''sethostname'' (SSethostname (cc_hostname cfg))) {[SSethostname (cc_hostname cfg)]}"
    by (rule stage_sc) (simp_all add: call_kinds)
  show ?thesis
    unfolding gc_setup_def
    by (rule stage_mono, rule stage_silent [OF stage_descriptors(4)], rule stage_silent [OF stage_descriptors(3)],
        rule stage_bind [OF sid], rule stage_bind [OF host], rule stage_bind [OF vols], rule stage_bind [OF io],
        rule stage_bind [OF stage_rootfs tail])
      (auto simp: setup_calls_def)
qed

text \<open>
  C6: A process that starts the container's command has made exactly these requests, in this order:
  its own session if it is detached, the host name, the volumes, the private mount tree and the new
  root, then dropping capabilities and installing the filter as configured, and the command last. All
  mount work precedes all hardening, and nothing but the command follows it. Each of the requests was
  granted, unless it is one whose refusal the sources ignore; dropping a capability is among those,
  installing the filter is not. On every other path nothing is executed.
\<close>
theorem container_executes_only_when_hardened:
  "wp (grandchild K L cfg io go_r)
     (\<lambda>_ t. \<exists>new fb arch. calls t = calls s @ new @ [(SExec (hd (command cfg)) (command cfg) (cc_env cfg), True)]
        \<and> requests new = setup_calls cfg io fb @ hardening_calls L cfg arch
        \<and> list_all call_settled new \<and> \<not> list_ex executed new)
     (\<lambda>_ t. \<exists>new. calls t = calls s @ new \<and> \<not> list_ex executed new) s"
  unfolding grandchild_def
proof (rule wp_seq [OF stageD [OF stage_setup, of K cfg io go_r s]])
  fix t :: pstate
  assume "\<exists>new. calls t = calls s @ new \<and> requests new \<in> range (setup_calls cfg io) \<and> list_all call_settled new \<and> \<not> list_ex executed new"
  then obtain xs fb where xs: "calls t = calls s @ xs" "requests xs = setup_calls cfg io fb" "list_all call_settled xs" "\<not> list_ex executed xs"
    by blast
  show "wp (bind_m (gc_harden K L cfg) (\<lambda>_. exec_command K cfg))
      (\<lambda>_ t. \<exists>new fb arch. calls t = calls s @ new @ [(SExec (hd (command cfg)) (command cfg) (cc_env cfg), True)]
        \<and> requests new = setup_calls cfg io fb @ hardening_calls L cfg arch \<and> list_all call_settled new \<and> \<not> list_ex executed new)
      (\<lambda>_ t. \<exists>new. calls t = calls s @ new \<and> \<not> list_ex executed new) t"
  proof (rule wp_seq [OF wp_mono [OF stageD [OF stage_harden, of K L cfg t]]])
    fix u :: pstate
    assume "\<exists>new. calls u = calls t @ new \<and> requests new \<in> {hardening_calls L cfg a |a. seccomp cfg \<longrightarrow> sl_arch L = Inr a}
      \<and> list_all call_settled new \<and> \<not> list_ex executed new"
    then obtain ys a where "calls u = calls t @ ys" "requests ys = hardening_calls L cfg a" "list_all call_settled ys" "\<not> list_ex executed ys"
      by blast
    with xs have "calls u = calls s @ xs @ ys" "requests (xs @ ys) = setup_calls cfg io fb @ hardening_calls L cfg a"
      "list_all call_settled (xs @ ys)" "\<not> list_ex executed (xs @ ys)"
      by simp_all
    then show "wp (exec_command K cfg)
        (\<lambda>_ t. \<exists>new fb arch. calls t = calls s @ new @ [(SExec (hd (command cfg)) (command cfg) (cc_env cfg), True)]
          \<and> requests new = setup_calls cfg io fb @ hardening_calls L cfg arch \<and> list_all call_settled new \<and> \<not> list_ex executed new)
        (\<lambda>_ t. \<exists>new. calls t = calls s @ new \<and> \<not> list_ex executed new) u"
      by (intro wp_mono [OF exec_command_wp]) (metis append.assoc, metis append.assoc list_ex_append)
  qed (use xs in auto)
qed

end
