(* ===== verification/Net_Setup.thy ===== *)
theory Net_Setup
  imports State
begin

text \<open>
  \<^verbatim>\<open>src/network.rs\<close>: the bridge and the veth pair of a container, configured by running \<^verbatim>\<open>ip\<close>,
  \<^verbatim>\<open>iptables\<close> and \<^verbatim>\<open>nsenter\<close>. The programs are parameters of the host; the model records every
  command line in order. A slice at a byte that is no character boundary panics: the value is
  \<open>None\<close>, and inside an operation the panic propagates like an error.
\<close>

section \<open>Operations\<close>

definition BRIDGE :: string where "BRIDGE = ''mc0''"
definition BRIDGE_ADDR :: string where "BRIDGE_ADDR = ''10.66.0.1''"
definition SUBNET :: string where "SUBNET = ''10.66.0.0/24''"

record NetHandle =
  nw_host_veth :: string
  nw_container_ip :: string

definition net_run :: "'b env_scheme \<Rightarrow> string \<Rightarrow> string list \<Rightarrow> unit io" where
  "net_run E cmd args =
     bind_m (map_err_m (\<lambda>e. Network (''spawn '' @ cmd @ '': '' @ e)) (exec_cmd E cmd args)) (\<lambda>out.
     if \<not> ex_success out
     then throw_m (Network (cmd @ '' '' @ join_with '' '' args @ '': '' @ trim (ex_stderr out)))
     else return_m ())"

definition nat_rule :: "string \<Rightarrow> string list" where
  "nat_rule op = [''-t'', ''nat'', op, ''POSTROUTING'', ''-s'', SUBNET, ''!'', ''-o'', BRIDGE, ''-j'', ''MASQUERADE'']"

definition ensure_bridge :: "'b env_scheme \<Rightarrow> unit io" where
  "ensure_bridge E =
     bind_m (try_m (exec_cmd E ''ip'' [''link'', ''show'', BRIDGE])) (\<lambda>r.
     if (case r of Inr out \<Rightarrow> ex_success out | Inl _ \<Rightarrow> False) then return_m ()
     else
       bind_m (net_run E ''ip'' [''link'', ''add'', BRIDGE, ''type'', ''bridge'']) (\<lambda>_.
       bind_m (net_run E ''ip'' [''addr'', ''add'', BRIDGE_ADDR @ ''/24'', ''dev'', BRIDGE]) (\<lambda>_.
       bind_m (net_run E ''ip'' [''link'', ''set'', BRIDGE, ''up'']) (\<lambda>_.
       bind_m (ignore_m (cg_write E ''/proc/sys/net/ipv4/ip_forward'' ''1'')) (\<lambda>_.
       bind_m (try_m (net_run E ''iptables'' (nat_rule ''-C''))) (\<lambda>c.
       case c of
         Inr _ \<Rightarrow> return_m ()
       | Inl _ \<Rightarrow> ignore_m (net_run E ''iptables'' (nat_rule ''-A''))))))))"

definition ifname :: "string \<Rightarrow> string \<Rightarrow> string option" where
  "ifname pre sid = (let n = pre @ sid in str_get_to n (min (length n) 15))"

definition host_veth_name :: "string \<Rightarrow> string option" where
  "host_veth_name sid = ifname ''mch'' sid"

text \<open>The last octet is computed at sixteen bits.\<close>

definition container_addr :: "byte \<Rightarrow> string" where
  "container_addr index = ''10.66.0.'' @ show_nat (unat (1 + ucast index + 1 :: u16))"

definition slice_m :: "string option \<Rightarrow> string io" where
  "slice_m r = (case r of None \<Rightarrow> throw_m (Network ''panicked: byte index 15 is not a char boundary'') | Some s \<Rightarrow> return_m s)"

definition net_setup :: "'b env_scheme \<Rightarrow> string \<Rightarrow> int \<Rightarrow> byte \<Rightarrow> NetHandle io" where
  "net_setup E sid pid index =
     bind_m (ensure_bridge E) (\<lambda>_.
     bind_m (slice_m (host_veth_name sid)) (\<lambda>host_veth.
     bind_m (slice_m (ifname ''mcp'' sid)) (\<lambda>peer.
     let container_ip = container_addr index; p = show_int pid in
     bind_m (net_run E ''ip'' [''link'', ''add'', host_veth, ''type'', ''veth'', ''peer'', ''name'', peer]) (\<lambda>_.
     bind_m (net_run E ''ip'' [''link'', ''set'', host_veth, ''master'', BRIDGE]) (\<lambda>_.
     bind_m (net_run E ''ip'' [''link'', ''set'', host_veth, ''up'']) (\<lambda>_.
     bind_m (net_run E ''ip'' [''link'', ''set'', peer, ''netns'', p]) (\<lambda>_.
     bind_m (net_run E ''nsenter'' [''-t'', p, ''-n'', ''ip'', ''link'', ''set'', peer, ''name'', ''eth0'']) (\<lambda>_.
     bind_m (net_run E ''nsenter'' [''-t'', p, ''-n'', ''ip'', ''addr'', ''add'', container_ip @ ''/24'', ''dev'', ''eth0'']) (\<lambda>_.
     bind_m (net_run E ''nsenter'' [''-t'', p, ''-n'', ''ip'', ''link'', ''set'', ''eth0'', ''up'']) (\<lambda>_.
     bind_m (net_run E ''nsenter'' [''-t'', p, ''-n'', ''ip'', ''link'', ''set'', ''lo'', ''up'']) (\<lambda>_.
     bind_m (net_run E ''nsenter'' [''-t'', p, ''-n'', ''ip'', ''route'', ''add'', ''default'', ''via'', BRIDGE_ADDR]) (\<lambda>_.
     return_m \<lparr>nw_host_veth = host_veth, nw_container_ip = container_ip\<rparr>))))))))))))"

definition net_cleanup :: "'b env_scheme \<Rightarrow> NetHandle \<Rightarrow> unit io" where
  "net_cleanup E n = ignore_m (net_run E ''ip'' [''link'', ''delete'', nw_host_veth n])"

definition cleanup_by_id :: "'b env_scheme \<Rightarrow> string \<Rightarrow> unit io" where
  "cleanup_by_id E sid =
     bind_m (slice_m (host_veth_name sid)) (\<lambda>n. ignore_m (net_run E ''ip'' [''link'', ''delete'', n]))"

section \<open>Names and addresses\<close>

lemma ifname_ascii: "ascii (pre @ sid) \<Longrightarrow> ifname pre sid = Some (take 15 (pre @ sid))"
  by (simp add: ifname_def Let_def str_get_to_def ascii_boundary min_def)

lemma ascii_append [simp]: "ascii (a @ b) \<longleftrightarrow> ascii a \<and> ascii b"
  by (simp add: ascii_def)

lemma ascii_take: "ascii s \<Longrightarrow> ascii (take n s)"
  by (auto simp: ascii_def list_all_iff dest: in_set_takeD)

lemma container_octet: "unat (1 + ucast (index :: byte) + 1 :: u16) = unat index + 2"
proof -
  have "unat index + 2 < 65536"
    using unat_byte_less [of index] by linarith
  then have "(unat index + 2) mod 2 ^ LENGTH(16) = unat index + 2" by simp
  moreover have "(1 + ucast index + 1 :: u16) = word_of_nat (unat index + 2)"
    by simp
  ultimately show ?thesis
    by (metis unat_of_nat len_num1)
qed

text \<open>
  For ASCII container identifiers, both ends of the veth pair have a name of at most fifteen
  bytes, the two ends have different names, and the host end identifies the container among those
  whose identifiers differ within the first twelve bytes: cleaning up by identifier can only
  delete the interface of a container with the same short identifier.
\<close>
theorem veth_names_fit_and_identify:
  assumes "ascii (cc_id c)" and "ascii (cc_id d)"
  shows "\<exists>h p. host_veth_name (short_id c) = Some h \<and> ifname ''mcp'' (short_id c) = Some p
     \<and> length h \<le> 15 \<and> length p \<le> 15 \<and> h \<noteq> p
     \<and> (host_veth_name (short_id d) = Some h \<longleftrightarrow> take 12 (cc_id d) = take 12 (cc_id c))"
proof -
  have a: "ascii ''mch''" "ascii ''mcp''" by code_simp+
  have "host_veth_name (short_id x) = Some (''mch'' @ take 12 (cc_id x))"
    "ifname ''mcp'' (short_id x) = Some (''mcp'' @ take 12 (cc_id x))" if "ascii (cc_id x)" for x
    using ifname_ascii [of "''mch''" "take 12 (cc_id x)"] ifname_ascii [of "''mcp''" "take 12 (cc_id x)"] that a
    by (simp_all add: host_veth_name_def ascii_take short_id_ascii del: append.simps)
  with assms show ?thesis by simp
qed

theorem veth_names_fit_and_identify_witness:
  "\<exists>h p. host_veth_name (short_id (demo_config\<lparr>cc_id := ''0123456789abcdef''\<rparr>)) = Some h
     \<and> ifname ''mcp'' (short_id (demo_config\<lparr>cc_id := ''0123456789abcdef''\<rparr>)) = Some p
     \<and> length h \<le> 15 \<and> length p \<le> 15 \<and> h \<noteq> p
     \<and> host_veth_name (short_id (demo_config\<lparr>cc_id := ''0123456789abXXXX''\<rparr>)) = Some h"
proof -
  have "ascii ''0123456789abcdef''" "ascii ''0123456789abXXXX''" by code_simp+
  with veth_names_fit_and_identify [of "demo_config\<lparr>cc_id := ''0123456789abcdef''\<rparr>"
      "demo_config\<lparr>cc_id := ''0123456789abXXXX''\<rparr>"]
  show ?thesis by auto
qed

text \<open>
  Containers with different indices get different addresses, none of them the bridge's own; the
  last octet is the index plus two, so it is a host address of the /24 subnet exactly for
  indices up to 252: index 253 gives the broadcast address and 254 and 255 no address at all.
\<close>
theorem container_addresses:
  "(container_addr i = container_addr j \<longleftrightarrow> i = j) \<and> container_addr i \<noteq> BRIDGE_ADDR
   \<and> container_addr i = ''10.66.0.'' @ show_nat (unat i + 2) \<and> (unat i + 2 \<le> 254 \<longleftrightarrow> i \<le> 252)"
proof -
  have b: "BRIDGE_ADDR = ''10.66.0.'' @ show_nat 1" by code_simp
  have "i \<le> 252 \<longleftrightarrow> unat i \<le> 252" by (simp add: word_le_nat_alt)
  then show ?thesis
    unfolding b container_addr_def container_octet same_append_eq show_nat_inj
    by (auto simp: word_unat_eq_iff)
qed

end
