(* ===== verification/Restore.thy ===== *)
theory Restore
  imports Checkpoint Net_Setup
begin

text \<open>
  \<^verbatim>\<open>src/restore.rs\<close>: rebuilding a container from a snapshot, undoing a restore that failed, and
  sweeping up after one that was killed. The rollback list is a value: it is run at the two places
  where the source runs it, and dropping it armed does nothing (the assertion in its destructor
  is a debug one). Error texts keep the source's leading words.
\<close>

section \<open>Options, report and the undo list\<close>

record RsOptions =
  rs_from :: "string option"
  rs_index :: byte
  rs_allow_tcp :: bool

record RsReport =
  rr_id :: string
  rr_pid :: int
  rr_generation :: u32
  rr_snapshot :: string
  rr_snapshot_bytes :: u64
  rr_verify_ms :: u64
  rr_unpack_ms :: u64
  rr_restore_ms :: u64
  rr_total_ms :: u64
  rr_container_ip :: "string option"

record Rollback =
  rb_id :: string
  rb_pid :: "int option"
  rb_cgroup :: "string option"
  rb_network :: "NetHandle option"
  rb_armed :: bool

definition Rollback_new :: "string \<Rightarrow> Rollback" where
  "Rollback_new cid = \<lparr>rb_id = cid, rb_pid = None, rb_cgroup = None, rb_network = None, rb_armed = True\<rparr>"

definition disarm :: "Rollback \<Rightarrow> Rollback" where
  "disarm rb = rb\<lparr>rb_armed := False\<rparr>"

text \<open>Each turn of the loop sleeps for ten milliseconds, which bounds the number of turns.\<close>

definition wait_for_exit :: "'b env_scheme \<Rightarrow> int \<Rightarrow> nat \<Rightarrow> (world, 'e, unit) eio" where
  "wait_for_exit E pid timeout =
     bind_m (get_m (\<lambda>w. mono_ms E (tick w))) (\<lambda>now. await_loop E pid (now + timeout) (Suc (timeout div 10)))"

definition rollback_run :: "'b env_scheme \<Rightarrow> Rollback \<Rightarrow> (world, 'e, Rollback) eio" where
  "rollback_run E rb =
     (if \<not> rb_armed rb then return_m rb
      else
        bind_m (case rb_network rb of Some net \<Rightarrow> ignore_m (net_cleanup E net) | None \<Rightarrow> return_m ()) (\<lambda>_.
        bind_m (case rb_pid rb of
                  Some pid \<Rightarrow>
                    bind_m (kill_sig E pid ''SIGKILL'') (\<lambda>_.
                    bind_m (reap_nohang E pid) (\<lambda>_.
                    wait_for_exit E pid 2000))
                | None \<Rightarrow> return_m ()) (\<lambda>_.
        bind_m (case rb_cgroup rb of Some cg \<Rightarrow> Cgroup_cleanup E (Cgroup_open cg) | None \<Rightarrow> return_m ()) (\<lambda>_.
        bind_m (ignore_m (fs_remove_dir_all E (resolve E (staging_dir (for_id E (rb_id rb)))))) (\<lambda>_.
        return_m (rb\<lparr>rb_pid := None, rb_cgroup := None, rb_network := None, rb_armed := False\<rparr>))))))"

section \<open>Reconciliation\<close>

definition stale :: "'a kstate_scheme \<Rightarrow> ContainerState \<Rightarrow> bool" where
  "stale w st =
     (if cs_status st = ''restoring'' then True
      else if cs_status st = ''checkpointing'' then True
      else if cs_status st = ''running'' then (case cs_pid st of Some p \<Rightarrow> \<not> pid_alive w p | None \<Rightarrow> True)
      else False)"

definition has_snapshot :: "'b env_scheme \<Rightarrow> ContainerStateDir \<Rightarrow> ContainerState \<Rightarrow> world \<Rightarrow> bool" where
  "has_snapshot E dir st w =
     ((case cs_snapshot st of Some p \<Rightarrow> is_file w (resolve E p) | None \<Rightarrow> False)
      \<or> is_file w (resolve E (snapshot_file dir ''latest'')))"

definition reconciled_update :: "bool \<Rightarrow> string \<Rightarrow> ContainerState \<Rightarrow> ContainerState" where
  "reconciled_update snap now st =
     st\<lparr>cs_pid := None, cs_status := (if snap then as_str Checkpointed else as_str Failed)\<rparr>"

definition sweep :: "'b senv_scheme \<Rightarrow> string \<Rightarrow> ContainerState \<Rightarrow> unit io" where
  "sweep E cid st =
     (let dir = for_id E cid in
      bind_m (case cs_pid st of
                Some pid \<Rightarrow>
                  bind_m (get_m (\<lambda>w. pid_alive w pid)) (\<lambda>alive.
                  if alive then bind_m (kill_sig E pid ''SIGKILL'') (\<lambda>_. wait_for_exit E pid 2000) else return_m ())
              | None \<Rightarrow> return_m ()) (\<lambda>_.
      bind_m (try_m (load_config E dir)) (\<lambda>r.
      bind_m (case r of
                Inr cfg \<Rightarrow>
                  bind_m (Cgroup_cleanup E (Cgroup_open (cc_id cfg))) (\<lambda>_.
                  if network cfg then cleanup_by_id E (short_id cfg) else return_m ())
              | Inl _ \<Rightarrow> return_m ()) (\<lambda>_.
      ignore_m (fs_remove_dir_all E (resolve E (staging_dir dir)))))))"

definition reconcile :: "'b senv_scheme \<Rightarrow> string \<Rightarrow> unit io" where
  "reconcile E cid =
     (let dir = for_id E cid in
      bind_m (dir_exists E dir) (\<lambda>ex.
      if \<not> ex then return_m ()
      else
        bind_m (load_state E dir) (\<lambda>st.
        bind_m (get_m (\<lambda>w. stale w st)) (\<lambda>s.
        if \<not> s then return_m ()
        else
          bind_m (sweep E cid st) (\<lambda>_.
          bind_m (get_m (has_snapshot E dir st)) (\<lambda>snap.
          update_at E cid (reconciled_update snap)))))))"

definition reconcile_all :: "'b senv_scheme \<Rightarrow> unit io" where
  "reconcile_all E =
     bind_m (try_m (list_all_containers E)) (\<lambda>r.
     case r of
       Inr cs \<Rightarrow> forM_m cs (\<lambda>c. ignore_m (reconcile E (cs_id c)))
     | Inl _ \<Rightarrow> return_m ())"

section \<open>Checks and preparations\<close>

definition resolve_snapshot :: "'b env_scheme \<Rightarrow> ContainerStateDir \<Rightarrow> ContainerState \<Rightarrow> RsOptions \<Rightarrow> string io" where
  "resolve_snapshot E dir st opts =
     (case rs_from opts of
        Some p \<Rightarrow>
          bind_m (get_m (\<lambda>w. is_file w (resolve E p))) (\<lambda>f.
          if \<not> f then throw_m (Restore (''snapshot '' @ p @ '' does not exist'')) else return_m p)
      | None \<Rightarrow>
          bind_m (get_m (\<lambda>w. case cs_snapshot st of Some p \<Rightarrow> is_file w (resolve E p) | None \<Rightarrow> False)) (\<lambda>f.
          if f then return_m (the (cs_snapshot st))
          else
            bind_m (get_m (\<lambda>w. is_file w (resolve E (snapshot_file dir ''latest'')))) (\<lambda>f.
            if f then return_m (snapshot_file dir ''latest'')
            else throw_m (Restore (''no snapshot found for this container'')))))"

definition check_compatible :: "'b env_scheme \<Rightarrow> Manifest \<Rightarrow> unit io" where
  "check_compatible E m =
     (if mf_source_arch m \<noteq> e_arch E
      then throw_m (Restore (''snapshot was taken on '' @ mf_source_arch m @ '' but this host is '' @ e_arch E))
      else bind_m (criu_version E) (\<lambda>_. return_m ()))"

definition self_ns :: "'b env_scheme \<Rightarrow> string \<Rightarrow> u64 option" where
  "self_ns E kind = (case e_self_ns E kind of None \<Rightarrow> None | Some link \<Rightarrow> ns_inode link)"

definition shares_ns :: "'b env_scheme \<Rightarrow> 'a kstate_scheme \<Rightarrow> int \<Rightarrow> string \<Rightarrow> bool" where
  "shares_ns E w pid kind =
     (case self_ns E kind of
        None \<Rightarrow> False
      | Some host \<Rightarrow> (case read_ns w pid kind of None \<Rightarrow> False | Some restored \<Rightarrow> host = restored))"

definition assert_isolated_from_host :: "'b env_scheme \<Rightarrow> int \<Rightarrow> unit io" where
  "assert_isolated_from_host E pid =
     forM_m [''pid'', ''mnt'', ''uts'', ''ipc'', ''net''] (\<lambda>kind.
       bind_m (get_m (\<lambda>w. shares_ns E w pid kind)) (\<lambda>sh.
       if sh then throw_m (Restore (''restored process '' @ show_int pid @ '' shares the host's '' @ kind @ '' namespace''))
       else return_m ()))"

definition prepare_mount :: "'b env_scheme \<Rightarrow> ContainerConfig \<Rightarrow> ExternalMount \<Rightarrow> unit io" where
  "prepare_mount E cfg m =
     (let target = path_join (rootfs cfg) (trim_start_matches (CHR ''/'') (xm_container_path m)) in
      bind_m (map_err_m (\<lambda>e. Restore (''create mount point '' @ target @ '': '' @ e)) (fs_create_dir_all E (resolve E target))) (\<lambda>_.
      bind_m (get_m (\<lambda>w. path_exists w (resolve E (xm_host_path m)))) (\<lambda>ex.
      if ex then return_m ()
      else if xm_key m = ''mcio''
      then map_err_m (\<lambda>e. Restore (''create io dir '' @ xm_host_path m @ '': '' @ e)) (fs_create_dir_all E (resolve E (xm_host_path m)))
      else throw_m (Restore (''volume source '' @ xm_host_path m @ '' does not exist on this host'')))))"

definition prepare_mount_points :: "'b env_scheme \<Rightarrow> ContainerConfig \<Rightarrow> Layout \<Rightarrow> unit io" where
  "prepare_mount_points E cfg layout = forM_m (ly_external_mounts layout) (prepare_mount E cfg)"

definition restore_io_file :: "'b env_scheme \<Rightarrow> string \<Rightarrow> ContainerStateDir \<Rightarrow> string \<Rightarrow> unit io" where
  "restore_io_file E staging dir name =
     (let src = path_join (path_join staging ''io'') name; dst = path_join (io_dir dir) name in
      bind_m (get_m (\<lambda>w. is_file w (resolve E src))) (\<lambda>f.
      if f then map_err_m (\<lambda>e. Restore (''restore '' @ dst @ '': '' @ e)) (fs_copy E (resolve E src) (resolve E dst))
      else
        bind_m (get_m (\<lambda>w. path_exists w (resolve E dst))) (\<lambda>ex.
        if ex then return_m ()
        else map_err_m (\<lambda>e. Restore (''create '' @ dst @ '': '' @ e)) (fs_write E (resolve E dst) []))))"

definition restore_io_files :: "'b env_scheme \<Rightarrow> string \<Rightarrow> ContainerStateDir \<Rightarrow> unit io" where
  "restore_io_files E staging dir =
     bind_m (map_err_m (\<lambda>e. Restore (''mkdir io dir: '' @ e)) (fs_create_dir_all E (resolve E (io_dir dir)))) (\<lambda>_.
     forM_m [''stdout'', ''stderr''] (restore_io_file E staging dir))"

section \<open>The operation\<close>

text \<open>Everything up to the point where the container is marked: no host resource is touched.\<close>

definition rs_admit :: "'b senv_scheme \<Rightarrow> string \<Rightarrow> RsOptions \<Rightarrow> string io" where
  "rs_admit E cid opts =
     (let dir = for_id E cid in
      bind_m (dir_exists E dir) (\<lambda>ex.
      if \<not> ex then throw_m (Restore (''container '' @ cid @ '' not found''))
      else
        bind_m (load_state E dir) (\<lambda>st.
        bind_m (get_m (\<lambda>w. case cs_pid st of Some pid \<Rightarrow> cs_is st Running \<and> pid_alive w pid | None \<Rightarrow> False)) (\<lambda>live.
        if live then throw_m (Restore (''container '' @ cid @ '' is already running as pid '' @ show_int (the (cs_pid st))))
        else resolve_snapshot E dir st opts))))"

definition rs_verify :: "'b snenv_scheme \<Rightarrow> string \<Rightarrow> SnapshotReader io" where
  "rs_verify E path =
     bind_m (snapshot_open E path) (\<lambda>reader.
     bind_m (verify E reader) (\<lambda>_.
     bind_m (check_compatible E (sr_manifest reader)) (\<lambda>_.
     return_m reader)))"

definition rs_unpack :: "'b snenv_scheme \<Rightarrow> string \<Rightarrow> SnapshotReader \<Rightarrow> unit io" where
  "rs_unpack E staging reader =
     bind_m (ignore_m (fs_remove_dir_all E (resolve E staging))) (\<lambda>_.
     bind_m (extract_all E reader staging) (\<lambda>_.
     bind_m (get_m (\<lambda>w. is_dir w (resolve E (path_join staging ''images'')))) (\<lambda>d.
     if \<not> d then throw_m (Restore ''snapshot contains no images/ entries'') else return_m ())))"

text \<open>The closure after the engine has brought the processes back.\<close>

definition rs_built ::
  "'b env_scheme \<Rightarrow> ContainerConfig \<Rightarrow> RsOptions \<Rightarrow> CgroupLeaf \<Rightarrow> int \<Rightarrow> Rollback \<Rightarrow> (string option \<times> Rollback) io" where
  "rs_built E cfg opts cgroup pid rb =
     bind_m (get_m (\<lambda>w. pid_alive w pid)) (\<lambda>alive.
     if \<not> alive then throw_m (Restore (''restored pid '' @ show_int pid @ '' died immediately after restore''))
     else
       bind_m (add_process E cgroup pid) (\<lambda>_.
       bind_m (assert_isolated_from_host E pid) (\<lambda>_.
       if network cfg
       then bind_m (net_setup E (short_id cfg) pid (rs_index opts)) (\<lambda>net.
            return_m (Some (nw_container_ip net), rb\<lparr>rb_network := Some net\<rparr>))
       else return_m (None, rb))))"

definition rs_undo :: "'b senv_scheme \<Rightarrow> string \<Rightarrow> Rollback \<Rightarrow> RuntimeError \<Rightarrow> 'a io" where
  "rs_undo E cid rb e =
     bind_m (rollback_run E rb) (\<lambda>_.
     bind_m (ignore_m (set_status E cid Checkpointed)) (\<lambda>_.
     throw_m e))"

text \<open>From marking the container to the processes running in its control group.\<close>

definition rs_prepare :: "'b senv_scheme \<Rightarrow> string \<Rightarrow> ContainerConfig \<Rightarrow> CgroupLeaf io" where
  "rs_prepare E cid cfg =
     (let dir = for_id E cid; staging = staging_dir dir in
      bind_m (set_status E cid Restoring) (\<lambda>_.
      bind_m (restore_io_files E staging dir) (\<lambda>_.
      bind_m (prepare_mount_points E cfg (layout_for cfg dir)) (\<lambda>_.
      bind_m (Cgroup_create E (cc_id cfg)) (\<lambda>cgroup.
      bind_m (Cgroup_apply E cgroup (resources cfg)) (\<lambda>_.
      return_m cgroup))))))"

definition rs_revive :: "'b senv_scheme \<Rightarrow> string \<Rightarrow> ContainerConfig \<Rightarrow> RsOptions \<Rightarrow> CgroupLeaf \<Rightarrow> (int \<times> string option) io" where
  "rs_revive E cid cfg opts cgroup =
     (let dir = for_id E cid; staging = staging_dir dir; rb = (Rollback_new cid)\<lparr>rb_cgroup := Some (cc_id cfg)\<rparr> in
      bind_m (try_m (criu_restore E \<lparr>ro_images_dir = path_join staging ''images'', ro_layout = layout_for cfg dir,
                ro_pidfile = path_join staging ''restored.pid'', ro_tcp_established = rs_allow_tcp opts\<rparr>)) (\<lambda>r.
      case r of
        Inl e \<Rightarrow> rs_undo E cid rb (Restore (ee_to_string e @ [CHR 0x0A, CHR 0x0A] @ ''The snapshot is untouched; fix the cause and retry.''))
      | Inr pid \<Rightarrow>
          let rb' = rb\<lparr>rb_pid := Some pid\<rparr> in
          bind_m (try_m (rs_built E cfg opts cgroup pid rb')) (\<lambda>built.
          case built of
            Inl e \<Rightarrow> rs_undo E cid rb' e
          | Inr (ip, _) \<Rightarrow> return_m (pid, ip))))"

definition origin_update :: "string \<Rightarrow> string \<Rightarrow> ContainerState \<Rightarrow> ContainerState" where
  "origin_update host now st = st\<lparr>cs_origin_host := Some host\<rparr>"

definition rs_commit :: "'b senv_scheme \<Rightarrow> string \<Rightarrow> Manifest \<Rightarrow> int \<Rightarrow> unit io" where
  "rs_commit E cid manifest pid =
     bind_m (set_restored E cid pid) (\<lambda>_.
     if mf_source_host manifest \<noteq> hostname E then update_at E cid (origin_update (mf_source_host manifest))
     else return_m ())"

definition restore :: "'b snenv_scheme \<Rightarrow> string \<Rightarrow> RsOptions \<Rightarrow> RsReport io" where
  "restore E cid opts =
     (let dir = for_id E cid; staging = staging_dir dir in
      bind_m (get_m tick) (\<lambda>t0.
      bind_m (reconcile E cid) (\<lambda>_.
      bind_m (rs_admit E cid opts) (\<lambda>snapshot_path.
      bind_m (get_m tick) (\<lambda>t_verify.
      bind_m (rs_verify E snapshot_path) (\<lambda>reader.
      bind_m (since_m E t_verify) (\<lambda>verify_ms.
      bind_m (get_m tick) (\<lambda>t_unpack.
      bind_m (rs_unpack E staging reader) (\<lambda>_.
      bind_m (since_m E t_unpack) (\<lambda>unpack_ms.
      let manifest = sr_manifest reader; cfg = mf_config manifest in
      bind_m (get_m (\<lambda>w. is_dir w (resolve E (rootfs cfg)))) (\<lambda>d.
      if \<not> d then throw_m (Restore (''rootfs '' @ rootfs cfg @ '' does not exist on this host''))
      else
        bind_m (get_m tick) (\<lambda>t_restore.
        bind_m (rs_prepare E cid cfg) (\<lambda>cgroup.
        bind_m (rs_revive E cid cfg opts cgroup) (\<lambda>(pid, container_ip).
        bind_m (rs_commit E cid manifest pid) (\<lambda>_.
        bind_m (since_m E t_restore) (\<lambda>restore_ms.
        bind_m (ignore_m (fs_remove_dir_all E (resolve E staging))) (\<lambda>_.
        bind_m (try_m (load_state E dir)) (\<lambda>st.
        bind_m (image_len E snapshot_path) (\<lambda>snapshot_bytes.
        bind_m (since_m E t0) (\<lambda>total_ms.
        return_m
          \<lparr>rr_id = cid, rr_pid = pid, rr_generation = (case st of Inr s \<Rightarrow> cs_generation s | Inl _ \<Rightarrow> 0),
           rr_snapshot = snapshot_path, rr_snapshot_bytes = snapshot_bytes, rr_verify_ms = verify_ms,
           rr_unpack_ms = unpack_ms, rr_restore_ms = restore_ms, rr_total_ms = total_ms,
           rr_container_ip = container_ip\<rparr>))))))))))))))))))))"

section \<open>Inspecting and adopting a snapshot\<close>

definition inspect :: "'b snenv_scheme \<Rightarrow> string \<Rightarrow> bool \<Rightarrow> Manifest io" where
  "inspect E path check =
     bind_m (snapshot_open E path) (\<lambda>reader.
     bind_m (if check then verify E reader else return_m ()) (\<lambda>_.
     return_m (sr_manifest reader)))"

definition adopted_state :: "Manifest \<Rightarrow> string \<Rightarrow> ContainerState" where
  "adopted_state m path =
     (mf_lifecycle m)\<lparr>cs_status := as_str Checkpointed, cs_pid := None, cs_snapshot := Some path,
        cs_origin_host := Some (mf_source_host m)\<rparr>"

definition adopt_snapshot :: "'b snenv_scheme \<Rightarrow> string \<Rightarrow> (string \<times> ContainerConfig) io" where
  "adopt_snapshot E path =
     bind_m (snapshot_open E path) (\<lambda>reader.
     bind_m (verify E reader) (\<lambda>_.
     let m = sr_manifest reader in
     bind_m (adopt E (adopted_state m path) (mf_config m)) (\<lambda>_.
     return_m (mf_container_id m, mf_config m))))"

end
