(* ===== verification/Container.thy ===== *)
theory Container
  imports Container_Init Restore
begin

text \<open>
  \<^verbatim>\<open>src/container.rs\<close>, the part that runs on the host: starting a container with two forks, and
  waiting for it. Forking, the bytes that arrive on the pid pipe and \<^verbatim>\<open>waitpid\<close> are parameters of the
  sequential model of \<open>spawn\<close>; the relation \<open>launch_step\<close> is the three processes together, with
  the two pipes between them. Making a pipe is a fallible call; its descriptors are left abstract.
\<close>

section \<open>Data\<close>

record Metrics =
  me_id :: string
  me_setup_ms :: u64
  me_wall_ms :: u64
  me_peak_mem_bytes :: u64
  me_cpu_usec :: u64
  me_exit_code :: int
  me_container_ip :: "string option"

record Handle =
  hd_id :: string
  hd_container_pid :: int
  hd_supervisor_pid :: int
  hd_cgroup :: CgroupLeaf
  hd_network :: "NetHandle option"
  hd_setup_ms :: u64
  hd_t0 :: nat

datatype WaitStatus = Exited int int | Signaled int int bool | OtherStatus

record forkenv =
  fk_fork :: "nat \<Rightarrow> string + int"
  fk_report :: "int \<Rightarrow> bytes"
  fk_wait :: "int \<Rightarrow> kstate \<Rightarrow> (string + WaitStatus) \<times> kstate"

section \<open>Waiting and tearing down\<close>

definition wait_code :: "WaitStatus \<Rightarrow> int" where
  "wait_code st = (case st of Exited _ code \<Rightarrow> code | Signaled _ sig _ \<Rightarrow> 128 + sig | OtherStatus \<Rightarrow> -1)"

definition container_ip :: "Handle \<Rightarrow> string option" where
  "container_ip h = map_option nw_container_ip (hd_network h)"

definition handle_finish :: "'b env_scheme \<Rightarrow> Handle \<Rightarrow> int \<Rightarrow> u64 \<Rightarrow> (world, 'e, Metrics) eio" where
  "handle_finish E h exit_code wall_ms =
     bind_m (peak_memory E (hd_cgroup h)) (\<lambda>peak.
     bind_m (cpu_usage_usec E (hd_cgroup h)) (\<lambda>cpu.
     bind_m (case hd_network h of Some n \<Rightarrow> ignore_m (net_cleanup E n) | None \<Rightarrow> return_m ()) (\<lambda>_.
     bind_m (Cgroup_cleanup E (hd_cgroup h)) (\<lambda>_.
     return_m
       \<lparr>me_id = hd_id h, me_setup_ms = hd_setup_ms h, me_wall_ms = wall_ms,
        me_peak_mem_bytes = (case peak of Some v \<Rightarrow> v | None \<Rightarrow> 0),
        me_cpu_usec = (case cpu of Some v \<Rightarrow> v | None \<Rightarrow> 0),
        me_exit_code = exit_code, me_container_ip = container_ip h\<rparr>))))"

definition waitpid :: "forkenv \<Rightarrow> int \<Rightarrow> WaitStatus sys" where
  "waitpid F pid = kernel (Reap pid) (fk_wait F pid)"

definition elapsed_ms :: "'b env_scheme \<Rightarrow> Handle \<Rightarrow> (world, 'e, u64) eio" where
  "elapsed_ms E h = since_m E (hd_t0 h)"

definition handle_wait :: "'b env_scheme \<Rightarrow> forkenv \<Rightarrow> Handle \<Rightarrow> Metrics io" where
  "handle_wait E F h =
     bind_m (map_err_m (Syscall ''waitpid'') (waitpid F (hd_supervisor_pid h))) (\<lambda>status.
     bind_m (since_m E (hd_t0 h)) (\<lambda>wall_ms.
     handle_finish E h (wait_code status) wall_ms))"

definition container_reap :: "forkenv \<Rightarrow> int \<Rightarrow> (world, 'e, unit) eio" where
  "container_reap F pid = ignore_m (waitpid F pid)"

section \<open>Starting\<close>

definition make_pipe :: "'b env_scheme \<Rightarrow> unit io" where
  "make_pipe E = map_err_m Io (io_touch E)"

text \<open>A pid crosses its pipe as the four bytes of an \<^verbatim>\<open>i32\<close>; the read does not look at how many arrived.\<close>

definition write_pid :: "int \<Rightarrow> bytes" where
  "write_pid pid = u32_to_le (word_of_int pid)"

definition read_pid :: "bytes \<Rightarrow> int" where
  "read_pid b = sint (u32_from_le (take 4 (b @ [0, 0, 0, 0])))"

definition spawn_attach :: "'b env_scheme \<Rightarrow> ContainerConfig \<Rightarrow> byte \<Rightarrow> CgroupLeaf \<Rightarrow> int \<Rightarrow> NetHandle option io" where
  "spawn_attach E cfg index cg pid =
     bind_m (add_process E cg pid) (\<lambda>_.
     if network cfg then bind_m (net_setup E (short_id cfg) pid index) (\<lambda>n. return_m (Some n))
     else return_m None)"

definition fork_m :: "forkenv \<Rightarrow> int io" where
  "fork_m F w =
     (case fk_fork F (tick w) of
        Inl e \<Rightarrow> (Inl (Syscall ''fork'' e), w)
      | Inr pid \<Rightarrow> (Inr pid, log_event (Fork pid) w))"

definition notify :: "(world, 'e, unit) eio" where
  "notify = modify_m (log_event Release)"

definition spawn :: "'b env_scheme \<Rightarrow> forkenv \<Rightarrow> ContainerConfig \<Rightarrow> byte \<Rightarrow> Handle io" where
  "spawn E F cfg index =
     bind_m (get_m tick) (\<lambda>t0.
     bind_m (Cgroup_create E (cc_id cfg)) (\<lambda>cg.
     bind_m (Cgroup_apply E cg (resources cfg)) (\<lambda>_.
     bind_m (make_pipe E) (\<lambda>_.
     bind_m (make_pipe E) (\<lambda>_.
     bind_m (fork_m F) (\<lambda>middle_pid.
     let gc_pid = read_pid (fk_report F middle_pid) in
     bind_m (spawn_attach E cfg index cg gc_pid) (\<lambda>net.
     bind_m (since_m E t0) (\<lambda>setup_ms.
     bind_m notify (\<lambda>_.
     return_m
       \<lparr>hd_id = cc_id cfg, hd_container_pid = gc_pid, hd_supervisor_pid = middle_pid, hd_cgroup = cg,
        hd_network = net, hd_setup_ms = setup_ms, hd_t0 = t0\<rparr>)))))))))"

definition run :: "'b env_scheme \<Rightarrow> forkenv \<Rightarrow> ContainerConfig \<Rightarrow> byte \<Rightarrow> Metrics io" where
  "run E F cfg index = bind_m (spawn E F cfg index) (handle_wait E F)"

section \<open>The processes together\<close>

text \<open>
  The exit codes of the middle process; \<open>exit_status\<close> is what the kernel reports for one. A panic in
  the container process ends it with Rust's code 101.
\<close>

definition middle_code :: "string + WaitStatus \<Rightarrow> int" where
  "middle_code r = (case r of Inr (Exited _ c) \<Rightarrow> c | Inr (Signaled _ sig _) \<Rightarrow> 128 + sig | _ \<Rightarrow> 1)"

definition exit_status :: "int \<Rightarrow> int" where
  "exit_status code = code mod 256"

definition setup_failure_code :: "pfail \<Rightarrow> int" where
  "setup_failure_code f = (case f of Fault _ \<Rightarrow> 127 | Panic _ \<Rightarrow> 101)"

datatype parent_pc =
  PReadPid | PAttach int | PRelease Handle | PReturned Handle | PError RuntimeError | PGone "RuntimeError + Handle"

datatype middle_pc = MUnshare | MFork | MWritePid int | MWaits int | MExited int

datatype child_pc = CAbsent | CWaitGo int | CSetup int | CRunning int | CEnded int WaitStatus

record launch =
  la_world :: world
  la_parent :: parent_pc
  la_middle :: middle_pc
  la_child :: child_pc
  la_pidp :: bytes
  la_go :: bool

definition launch_init :: "world \<Rightarrow> launch" where
  "launch_init w = \<lparr>la_world = w, la_parent = PReadPid, la_middle = MUnshare, la_child = CAbsent, la_pidp = [], la_go = False\<rparr>"

definition launch_handle :: "ContainerConfig \<Rightarrow> CgroupLeaf \<Rightarrow> int \<Rightarrow> u64 \<Rightarrow> nat \<Rightarrow> int \<Rightarrow> NetHandle option \<Rightarrow> Handle" where
  "launch_handle cfg cg mp ms t0 pid net =
     \<lparr>hd_id = cc_id cfg, hd_container_pid = pid, hd_supervisor_pid = mp, hd_cgroup = cg, hd_network = net,
      hd_setup_ms = ms, hd_t0 = t0\<rparr>"

text \<open>
  Steps from the moment of the first fork. The parent's read of the pid returns when bytes are there
  or when the middle process, the only writer left, is gone. The container's read returns when the
  parent has written or is gone; it ignores which. What a failed unshare or fork and the command
  itself do is not determined.
\<close>

inductive launch_step ::
  "'b env_scheme \<Rightarrow> pkern \<Rightarrow> seclib \<Rightarrow> ContainerConfig \<Rightarrow> string option \<Rightarrow> byte \<Rightarrow> CgroupLeaf \<Rightarrow> pstate \<Rightarrow> nat \<Rightarrow> int \<Rightarrow>
     launch \<Rightarrow> launch \<Rightarrow> bool"
  for E K L cfg io index cg p0 go_r mp where
  unshare_ok: "la_middle s = MUnshare \<Longrightarrow> launch_step E K L cfg io index cg p0 go_r mp s (s\<lparr>la_middle := MFork\<rparr>)"
| unshare_err: "la_middle s = MUnshare \<Longrightarrow> launch_step E K L cfg io index cg p0 go_r mp s (s\<lparr>la_middle := MExited 127\<rparr>)"
| fork_ok: "la_middle s = MFork \<Longrightarrow> 0 < gc \<Longrightarrow> gc < 2 ^ 31 \<Longrightarrow>
    launch_step E K L cfg io index cg p0 go_r mp s (s\<lparr>la_middle := MWritePid gc, la_child := CWaitGo gc\<rparr>)"
| fork_err: "la_middle s = MFork \<Longrightarrow> launch_step E K L cfg io index cg p0 go_r mp s (s\<lparr>la_middle := MExited 127\<rparr>)"
| report: "la_middle s = MWritePid gc \<Longrightarrow>
    launch_step E K L cfg io index cg p0 go_r mp s (s\<lparr>la_middle := MWaits gc, la_pidp := write_pid gc\<rparr>)"
| relay: "la_middle s = MWaits gc \<Longrightarrow> la_child s = CEnded gc st \<Longrightarrow>
    launch_step E K L cfg io index cg p0 go_r mp s (s\<lparr>la_middle := MExited (exit_status (middle_code (Inr st)))\<rparr>)"
| learn_pid: "la_parent s = PReadPid \<Longrightarrow> la_pidp s \<noteq> [] \<or> la_middle s = MExited c \<Longrightarrow>
    launch_step E K L cfg io index cg p0 go_r mp s (s\<lparr>la_parent := PAttach (read_pid (la_pidp s)), la_pidp := []\<rparr>)"
| attach: "la_parent s = PAttach pid \<Longrightarrow> spawn_attach E cfg index cg pid (la_world s) = (Inr net, w) \<Longrightarrow>
    launch_step E K L cfg io index cg p0 go_r mp s (s\<lparr>la_world := w, la_parent := PRelease (launch_handle cfg cg mp ms t0 pid net)\<rparr>)"
| attach_err: "la_parent s = PAttach pid \<Longrightarrow> spawn_attach E cfg index cg pid (la_world s) = (Inl e, w) \<Longrightarrow>
    launch_step E K L cfg io index cg p0 go_r mp s (s\<lparr>la_world := w, la_parent := PError e\<rparr>)"
| release: "la_parent s = PRelease h \<Longrightarrow>
    launch_step E K L cfg io index cg p0 go_r mp s
      (s\<lparr>la_world := log_event Release (la_world s), la_parent := PReturned h, la_go := True\<rparr>)"
| leave: "la_parent s = PReturned h \<Longrightarrow> launch_step E K L cfg io index cg p0 go_r mp s (s\<lparr>la_parent := PGone (Inr h)\<rparr>)"
| fail: "la_parent s = PError e \<Longrightarrow> launch_step E K L cfg io index cg p0 go_r mp s (s\<lparr>la_parent := PGone (Inl e)\<rparr>)"
| go: "la_child s = CWaitGo gc \<Longrightarrow> la_go s \<or> la_parent s = PGone r \<Longrightarrow>
    launch_step E K L cfg io index cg p0 go_r mp s (s\<lparr>la_child := CSetup gc\<rparr>)"
| set_up: "la_child s = CSetup gc \<Longrightarrow> grandchild K L cfg io go_r p0 = (Inr (), p) \<Longrightarrow>
    launch_step E K L cfg io index cg p0 go_r mp s (s\<lparr>la_child := CRunning gc\<rparr>)"
| set_up_err: "la_child s = CSetup gc \<Longrightarrow> grandchild K L cfg io go_r p0 = (Inl f, p) \<Longrightarrow>
    launch_step E K L cfg io index cg p0 go_r mp s (s\<lparr>la_child := CEnded gc (Exited gc (setup_failure_code f))\<rparr>)"
| ends: "la_child s = CRunning gc \<Longrightarrow> launch_step E K L cfg io index cg p0 go_r mp s (s\<lparr>la_child := CEnded gc st\<rparr>)"

end
