(* ===== verification/Transport.thy ===== *)
theory Transport
  imports Checkpoint
begin

text \<open>
  \<^verbatim>\<open>src/transport.rs\<close>: the framed wire protocol, the sending side of a migration and the receiving of
  a snapshot. The bytes that arrive on a connection are an argument of the code that reads them;
  the bytes it sends are recorded as events. Buffered writers are transparent. Name resolution,
  connecting and \<^verbatim>\<open>serde_json\<close> are parameters. Error texts keep the source's leading words.
\<close>

section \<open>Framing\<close>

definition DEFAULT_PORT :: u16 where "DEFAULT_PORT = 7373"
definition PROTO_VERSION :: u32 where "PROTO_VERSION = 1"
definition CHUNK_SIZE :: nat where "CHUNK_SIZE = 256 * 1024"
definition MAX_CONTROL_FRAME :: u32 where "MAX_CONTROL_FRAME = 4 * 1024 * 1024"
definition MAX_CHUNK_FRAME :: u32 where "MAX_CHUNK_FRAME = 4 * 1024 * 1024"

datatype FrameType = FHello | FHelloAck | FChunk | FEof | FResult | FError

definition frame_code :: "FrameType \<Rightarrow> byte" where
  "frame_code t = (case t of FHello \<Rightarrow> 1 | FHelloAck \<Rightarrow> 2 | FChunk \<Rightarrow> 3 | FEof \<Rightarrow> 4 | FResult \<Rightarrow> 5 | FError \<Rightarrow> 6)"

definition from_u8 :: "byte \<Rightarrow> FrameType option" where
  "from_u8 b =
     (if b = 1 then Some FHello else if b = 2 then Some FHelloAck else if b = 3 then Some FChunk
      else if b = 4 then Some FEof else if b = 5 then Some FResult else if b = 6 then Some FError else None)"

definition mig_err :: "string \<Rightarrow> 'a sys \<Rightarrow> 'a io" where
  "mig_err what m = map_err_m (\<lambda>e. Migration (what @ '': '' @ e)) m"

definition write_frame :: "'b env_scheme \<Rightarrow> FrameType \<Rightarrow> bytes \<Rightarrow> unit io" where
  "write_frame E t payload =
     (if 2 ^ 32 \<le> length payload then throw_m (Migration ''frame payload exceeds 4 GiB'')
      else mig_err ''write frame''
        (bind_m (net_send E [frame_code t]) (\<lambda>_.
         bind_m (net_send E (u32_to_be (word_of_nat (length payload)))) (\<lambda>_.
         net_send E payload))))"

definition write_json :: "'b env_scheme \<Rightarrow> FrameType \<Rightarrow> 'a json \<Rightarrow> 'a \<Rightarrow> unit io" where
  "write_json E t J v = bind_m (lift_m (to_json J v)) (\<lambda>body. write_frame E t (as_bytes body))"

definition frame_cap :: "FrameType \<Rightarrow> u32" where
  "frame_cap t = (if t = FChunk then MAX_CHUNK_FRAME else MAX_CONTROL_FRAME)"

definition read_header :: "'b env_scheme \<Rightarrow> bytes \<Rightarrow> ((FrameType \<times> u32) \<times> bytes) io" where
  "read_header E r =
     bind_m (mig_err ''read frame header'' (read_exact E 5 r)) (\<lambda>(hdr, rest).
     case from_u8 (hd hdr) of
       None \<Rightarrow> throw_m (Migration (''unknown frame type 0x'' @ pad_zero 2 (show_hex (unat (hd hdr)))))
     | Some t \<Rightarrow>
         (let len = u32_from_be (tl hdr) in
          if frame_cap t < len then throw_m (Migration (''frame of '' @ show_nat (unat len) @ '' bytes exceeds the limit''))
          else return_m ((t, len), rest)))"

definition read_payload :: "'b env_scheme \<Rightarrow> u32 \<Rightarrow> bytes \<Rightarrow> (bytes \<times> bytes) io" where
  "read_payload E len r = mig_err ''read frame payload'' (read_exact E (unat len) r)"

record ErrorMsg =
  er_message :: string

record Hello =
  he_proto_version :: u32
  he_producer :: string
  he_container_id :: string
  he_source_host :: string
  he_source_arch :: string
  he_snapshot_bytes :: u64
  he_snapshot_crc32 :: u32
  he_token :: string

record HelloAck =
  ha_proto_version :: u32
  ha_accept :: bool
  ha_receiver_host :: string
  ha_receiver_arch :: string
  ha_reason :: string

record Eof =
  ef_bytes :: u64
  ef_crc32 :: u32

text \<open>The two durations are \<^verbatim>\<open>f64\<close> bit patterns.\<close>

record MigrateResult =
  mr_ok :: bool
  mr_container_id :: string
  mr_pid :: int
  mr_generation :: u32
  mr_restore_total_ms :: u64
  mr_restore_build_ms :: u64
  mr_container_ip :: "string option"
  mr_message :: string

record tenv = snenv +
  j_hello :: "Hello json"
  j_hello_ack :: "HelloAck json"
  j_eof :: "Eof json"
  j_result :: "MigrateResult json"
  j_error :: "ErrorMsg json"
  net_resolve :: "string \<Rightarrow> string + string list"
  net_connect :: "string \<Rightarrow> nat \<Rightarrow> string option"
  net_bind :: "string \<Rightarrow> string option"
  f64_mib_per_s :: "u64 \<Rightarrow> u64 \<Rightarrow> u64"

text \<open>\<^verbatim>\<open>serde_json::from_slice\<close>: the parameter reads the bytes of the frame.\<close>

definition from_slice :: "'a json \<Rightarrow> bytes \<Rightarrow> 'a result" where
  "from_slice J b = from_json J (of_bytes b)"

definition read_json :: "'b tenv_scheme \<Rightarrow> FrameType \<Rightarrow> 'a json \<Rightarrow> bytes \<Rightarrow> ('a \<times> bytes) io" where
  "read_json E expect J r =
     bind_m (read_header E r) (\<lambda>((t, len), r1).
     bind_m (read_payload E len r1) (\<lambda>(body, r2).
     if t = FError then
       throw_m (Migration (''peer refused: '' @
         (case from_slice (j_error E) body of Inr e \<Rightarrow> er_message e | Inl _ \<Rightarrow> ''peer sent an unreadable error'')))
     else if t \<noteq> expect then throw_m (Migration ''protocol error: unexpected frame'')
     else bind_m (lift_m (from_slice J body)) (\<lambda>v. return_m (v, r2))))"

section \<open>Sending\<close>

record Transfer =
  tr_result :: MigrateResult
  tr_hash_ms :: u64
  tr_transfer_ms :: u64
  tr_bytes :: u64

definition net_resolve_m :: "'b tenv_scheme \<Rightarrow> string \<Rightarrow> string io" where
  "net_resolve_m E target =
     (let with_port = (if CHR '':'' \<in> set target then target else target @ '':'' @ show_nat (unat DEFAULT_PORT))
      in case net_resolve E with_port of
           Inl e \<Rightarrow> throw_m (Migration (''resolve '' @ target @ '': '' @ e))
         | Inr [] \<Rightarrow> throw_m (Migration (target @ '' resolved to no addresses''))
         | Inr (a # _) \<Rightarrow> return_m a)"

lemma mig_read_nonempty: "mig_err what (fd_read E n src) w = (Inr c, t) \<Longrightarrow> c \<noteq> [] \<Longrightarrow> src \<noteq> []"
  by (auto simp: mig_err_def map_err_m_def split: prod.splits sum.splits dest: fd_read_nonempty)

function crc_loop :: "'b env_scheme \<Rightarrow> string \<Rightarrow> bytes \<Rightarrow> Crc32 \<Rightarrow> Crc32 io" where
  "crc_loop E what f crc w =
     bind_m (mig_err what (fd_read E CHUNK_SIZE f)) (\<lambda>chunk u.
       if chunk = [] then return_m crc u
       else crc_loop E what (drop (length chunk) f) (crc32_update crc chunk) u) w"
  by auto

termination
  by (relation "measure (\<lambda>(_, _, f, _). length f)") (auto dest: mig_read_nonempty)

definition crc_of_file :: "'b env_scheme \<Rightarrow> string \<Rightarrow> u32 io" where
  "crc_of_file E path =
     bind_m (mig_err (''open '' @ path) (fs_read E (resolve E path))) (\<lambda>f.
     bind_m (crc_loop E (''read '' @ path) f crc32_new) (\<lambda>crc. return_m (crc32_finish crc)))"

function send_loop :: "'b env_scheme \<Rightarrow> bytes \<Rightarrow> u64 \<Rightarrow> u64 io" where
  "send_loop E f sent w =
     bind_m (mig_err ''read snapshot'' (fd_read E CHUNK_SIZE f)) (\<lambda>buf u.
       if buf = [] then return_m sent u
       else bind_m (write_frame E FChunk buf) (\<lambda>_ v.
            send_loop E (drop (length buf) f) (sent + word_of_nat (length buf)) v) u) w"
  by auto

termination
  by (relation "measure (\<lambda>(_, f, _). length f)") (auto dest: mig_read_nonempty)

definition connect_m :: "'b tenv_scheme \<Rightarrow> string \<Rightarrow> string \<Rightarrow> unit io" where
  "connect_m E target addr =
     bind_m (get_m (\<lambda>w. net_connect E addr (tick w))) (\<lambda>r.
     case r of Some e \<Rightarrow> throw_m (Migration (''connect to '' @ target @ '': '' @ e))
     | None \<Rightarrow> mig_err ''clone socket'' (io_touch E))"

text \<open>The handshake and the snapshot, up to and including the end-of-file frame.\<close>

definition send_hello ::
  "'b tenv_scheme \<Rightarrow> string \<Rightarrow> string \<Rightarrow> u64 \<Rightarrow> u32 \<Rightarrow> string \<Rightarrow> bytes \<Rightarrow> bytes io" where
  "send_hello E cid target file_bytes crc token inp =
     bind_m (write_json E FHello (j_hello E)
       \<lparr>he_proto_version = PROTO_VERSION, he_producer = ''mincontainer/0.1.0'', he_container_id = cid,
        he_source_host = hostname E, he_source_arch = e_arch E, he_snapshot_bytes = file_bytes,
        he_snapshot_crc32 = crc, he_token = token\<rparr>) (\<lambda>_.
     bind_m (mig_err ''flush hello'' (io_touch E)) (\<lambda>_.
     bind_m (read_json E FHelloAck (j_hello_ack E) inp) (\<lambda>(ack, rest).
     if \<not> ha_accept ack then throw_m (Migration (target @ '' refused the migration: '' @ ha_reason ack))
     else if ha_receiver_arch ack \<noteq> e_arch E
     then throw_m (Migration (target @ '' is '' @ ha_receiver_arch ack @ '' but this host is '' @ e_arch E))
     else return_m rest)))"

definition send_body :: "'b tenv_scheme \<Rightarrow> string \<Rightarrow> u64 \<Rightarrow> u32 \<Rightarrow> unit io" where
  "send_body E path file_bytes crc =
     bind_m (mig_err (''open '' @ path) (fs_read E (resolve E path))) (\<lambda>f.
     bind_m (send_loop E f 0) (\<lambda>sent.
     if sent \<noteq> file_bytes then throw_m (Migration ''snapshot changed size mid-transfer'')
     else
       bind_m (write_json E FEof (j_eof E) \<lparr>ef_bytes = sent, ef_crc32 = crc\<rparr>) (\<lambda>_.
       mig_err ''flush'' (io_touch E))))"

definition file_bytes_m :: "'b env_scheme \<Rightarrow> string \<Rightarrow> u64 io" where
  "file_bytes_m E path =
     mig_err (''stat '' @ path) (io_op E no_work (\<lambda>w.
       (if path_exists w (resolve E path) then Inr (word_of_nat (file_len w (resolve E path))) else Inl enoent, w)))"

definition send_snapshot :: "'b tenv_scheme \<Rightarrow> string \<Rightarrow> string \<Rightarrow> string \<Rightarrow> string \<Rightarrow> bytes \<Rightarrow> Transfer io" where
  "send_snapshot E cid snapshot target token inp =
     bind_m (net_resolve_m E target) (\<lambda>addr.
     bind_m (file_bytes_m E snapshot) (\<lambda>file_bytes.
     bind_m (get_m tick) (\<lambda>t_hash.
     bind_m (crc_of_file E snapshot) (\<lambda>crc.
     bind_m (since_m E t_hash) (\<lambda>hash_ms.
     bind_m (get_m tick) (\<lambda>t0.
     bind_m (connect_m E target addr) (\<lambda>_.
     bind_m (send_hello E cid target file_bytes crc token inp) (\<lambda>rest.
     bind_m (send_body E snapshot file_bytes crc) (\<lambda>_.
     bind_m (since_m E t0) (\<lambda>transfer_ms.
     bind_m (read_json E FResult (j_result E) rest) (\<lambda>(res, _).
     if \<not> mr_ok res
     then throw_m (Migration (target @ '' failed to restore the container: '' @ mr_message res))
     else return_m \<lparr>tr_result = res, tr_hash_ms = hash_ms, tr_transfer_ms = transfer_ms, tr_bytes = file_bytes\<rparr>)))))))))))"

section \<open>Receiving\<close>

definition inbox :: "'b env_scheme \<Rightarrow> string" where
  "inbox E = path_join (home_dir E) ''.mincontainer/inbox''"

definition send_ack :: "'b tenv_scheme \<Rightarrow> bool \<Rightarrow> string \<Rightarrow> unit io" where
  "send_ack E ok reason =
     write_json E FHelloAck (j_hello_ack E)
       \<lparr>ha_proto_version = PROTO_VERSION, ha_accept = ok, ha_receiver_host = hostname E,
        ha_receiver_arch = e_arch E, ha_reason = reason\<rparr>"

definition refuse :: "'b tenv_scheme \<Rightarrow> string \<Rightarrow> 'a io" where
  "refuse E reason =
     bind_m (send_ack E False reason) (\<lambda>_.
     bind_m (ignore_m (io_touch E)) (\<lambda>_.
     throw_m (Migration reason)))"

definition handshake :: "'b tenv_scheme \<Rightarrow> string \<Rightarrow> bytes \<Rightarrow> (Hello \<times> bytes) io" where
  "handshake E token inp =
     bind_m (mig_err ''clone socket'' (io_touch E)) (\<lambda>_.
     bind_m (read_json E FHello (j_hello E) inp) (\<lambda>(hello, rest).
     if he_proto_version hello \<noteq> PROTO_VERSION
     then refuse E (''protocol version '' @ show_nat (unat (he_proto_version hello)) @ '' not supported (this node speaks 1)'')
     else if he_token hello \<noteq> token then refuse E ''authentication token mismatch''
     else if he_source_arch hello \<noteq> e_arch E
     then refuse E (''snapshot is '' @ he_source_arch hello @ '' but this host is '' @ e_arch E)
     else
       bind_m (send_ack E True []) (\<lambda>_.
       bind_m (mig_err ''flush ack'' (io_touch E)) (\<lambda>_. return_m (hello, rest)))))"

definition corrupted :: "'b tenv_scheme \<Rightarrow> fspath \<Rightarrow> u64 \<Rightarrow> u32 \<Rightarrow> Eof \<Rightarrow> 'a io" where
  "corrupted E part received got eof =
     bind_m (ignore_m (fs_remove_file E part)) (\<lambda>_.
     let msg = ''transfer corrupted: '' @ show_nat (unat received) @ '' bytes crc 0x'' @ pad_zero 8 (show_hex (unat got))
           @ '', sender said '' @ show_nat (unat (ef_bytes eof)) @ '' bytes crc 0x'' @ pad_zero 8 (show_hex (unat (ef_crc32 eof))) in
     bind_m (write_json E FError (j_error E) \<lparr>er_message = msg\<rparr>) (\<lambda>_.
     bind_m (ignore_m (io_touch E)) (\<lambda>_. throw_m (Migration msg))))"

text \<open>The end-of-file frame: its claims must agree with what arrived and with the handshake.\<close>

definition recv_eof :: "'b tenv_scheme \<Rightarrow> Hello \<Rightarrow> fspath \<Rightarrow> u32 \<Rightarrow> bytes \<Rightarrow> Crc32 \<Rightarrow> u64 \<Rightarrow> bytes io" where
  "recv_eof E hello part len r crc received =
     bind_m (read_payload E len r) (\<lambda>(body, r2).
     bind_m (lift_m (from_slice (j_eof E) body)) (\<lambda>eof.
     bind_m (mig_err ''flush'' (io_touch E)) (\<lambda>_.
     let got = crc32_finish crc in
     if ef_bytes eof \<noteq> received \<or> ef_crc32 eof \<noteq> got \<or> got \<noteq> he_snapshot_crc32 hello
     then corrupted E part received got eof
     else return_m r2)))"

lemma read_header_consumes: "read_header E r w = (Inr (h, r1), t) \<Longrightarrow> length r1 + 5 = length r"
  by (auto simp: read_header_def mig_err_def read_exact_def io_op_def Let_def map_err_m_def bind_m_def return_m_def throw_m_def
      split: prod.splits sum.splits option.splits if_splits)

lemma read_payload_consumes: "read_payload E len r w = (Inr (b, r2), t) \<Longrightarrow> length r2 \<le> length r"
  by (auto simp: read_payload_def mig_err_def read_exact_def io_op_def Let_def map_err_m_def
      split: prod.splits sum.splits option.splits if_splits)

function recv_loop :: "'b tenv_scheme \<Rightarrow> Hello \<Rightarrow> fspath \<Rightarrow> bytes \<Rightarrow> Crc32 \<Rightarrow> u64 \<Rightarrow> bytes io" where
  "recv_loop E hello part r crc received w =
     bind_m (read_header E r) (\<lambda>h u.
       let t = fst (fst h); len = snd (fst h); r1 = snd h in
       if t = FChunk then
         bind_m (read_payload E len r1) (\<lambda>p v.
         bind_m (mig_err ''write'' (fs_append E part (fst p))) (\<lambda>_ x.
           let received' = received + word_of_nat (length (fst p)) in
           if he_snapshot_bytes hello < received'
           then bind_m (ignore_m (fs_remove_file E part)) (\<lambda>_.
                throw_m (Migration ''sender exceeded the bytes it announced'')) x
           else recv_loop E hello part (snd p) (crc32_update crc (fst p)) received' x) v) u
       else if t = FEof then recv_eof E hello part len r1 crc received u
       else bind_m (ignore_m (fs_remove_file E part)) (\<lambda>_.
            throw_m (Migration ''protocol error: expected CHUNK or EOF'')) u) w"
  by auto

termination
proof (relation "measure (\<lambda>(_, _, _, r, _). length r)", goal_cases)
  case (2 E hello part r crc received w h u t len r1 p v x received')
  have "length (snd h) + 5 = length r"
    using 2(1) read_header_consumes [of E r w "fst h" "snd h" u] by simp
  moreover have "length (snd p) \<le> length (snd h)"
    using 2 read_payload_consumes [of E "snd (fst h)" "snd h" u "fst p" "snd p" v] by simp
  ultimately show ?case by simp
qed simp

declare crc_loop.simps [simp del] send_loop.simps [simp del] recv_loop.simps [simp del]

definition part_name :: "'b env_scheme \<Rightarrow> string \<Rightarrow> string" where
  "part_name E cid = path_join (inbox E) (cid @ ''.mcsnap.part'')"

definition final_name :: "'b env_scheme \<Rightarrow> string \<Rightarrow> string" where
  "final_name E cid = path_join (inbox E) (cid @ ''.mcsnap'')"

definition receive_snapshot :: "'b tenv_scheme \<Rightarrow> Hello \<Rightarrow> bytes \<Rightarrow> string io" where
  "receive_snapshot E hello inp =
     (let dir = inbox E; part = part_name E (he_container_id hello); final_path = final_name E (he_container_id hello) in
      bind_m (mig_err ''mkdir inbox'' (fs_create_dir_all E (resolve E dir))) (\<lambda>_.
      bind_m (mig_err (''create '' @ part) (fs_write E (resolve E part) [])) (\<lambda>_.
      bind_m (recv_loop E hello (resolve E part) inp crc32_new 0) (\<lambda>_.
      bind_m (mig_err ''commit snapshot'' (fs_rename E (resolve E part) (resolve E final_path))) (\<lambda>_.
      return_m final_path)))))"

end
