(* ===== verification/Migrate.thy ===== *)
theory Migrate
  imports Transport Restore
begin

text \<open>
  The receiving end of \<^verbatim>\<open>src/transport.rs\<close> as a whole (one connection, and the loop over
  connections) and \<^verbatim>\<open>src/migrate.rs\<close>: freeze here, restore there, hand over. Connections arrive as
  a list: what each peer sends, or the error with which accepting failed. Times and the
  throughput are \<^verbatim>\<open>f64\<close> bit patterns; the division that gives the throughput is a parameter.
\<close>

section \<open>One incoming migration\<close>

definition adopt_and_restore :: "'b tenv_scheme \<Rightarrow> byte \<Rightarrow> string \<Rightarrow> RsReport io" where
  "adopt_and_restore E index final_path =
     bind_m (adopt_snapshot E final_path) (\<lambda>(cid, _).
     restore E cid \<lparr>rs_from = Some final_path, rs_index = index, rs_allow_tcp = False\<rparr>)"

definition result_ok :: "'b env_scheme \<Rightarrow> RsReport \<Rightarrow> MigrateResult" where
  "result_ok E rep =
     \<lparr>mr_ok = True, mr_container_id = rr_id rep, mr_pid = rr_pid rep, mr_generation = rr_generation rep,
      mr_restore_total_ms = rr_total_ms rep, mr_restore_build_ms = rr_restore_ms rep,
      mr_container_ip = rr_container_ip rep, mr_message = ''restored on '' @ hostname E\<rparr>"

definition result_failed :: "Hello \<Rightarrow> RuntimeError \<Rightarrow> MigrateResult" where
  "result_failed hello e =
     \<lparr>mr_ok = False, mr_container_id = he_container_id hello, mr_pid = 0, mr_generation = 0,
      mr_restore_total_ms = 0, mr_restore_build_ms = 0, mr_container_ip = None, mr_message = err_to_string e\<rparr>"

definition answer :: "'b tenv_scheme \<Rightarrow> Hello \<Rightarrow> RsReport result \<Rightarrow> string io" where
  "answer E hello outcome =
     (case outcome of
        Inr rep \<Rightarrow>
          bind_m (write_json E FResult (j_result E) (result_ok E rep)) (\<lambda>_.
          bind_m (ignore_m (io_touch E)) (\<lambda>_. return_m (rr_id rep)))
      | Inl e \<Rightarrow>
          bind_m (write_json E FResult (j_result E) (result_failed hello e)) (\<lambda>_.
          bind_m (ignore_m (io_touch E)) (\<lambda>_. throw_m e)))"

definition handle_one :: "'b tenv_scheme \<Rightarrow> string \<Rightarrow> byte \<Rightarrow> bytes \<Rightarrow> string io" where
  "handle_one E token index inp =
     bind_m (handshake E token inp) (\<lambda>(hello, rest).
     bind_m (receive_snapshot E hello rest) (\<lambda>final_path.
     bind_m (try_m (adopt_and_restore E index final_path)) (\<lambda>outcome.
     answer E hello outcome)))"

section \<open>Serving\<close>

primrec serve_loop :: "'b tenv_scheme \<Rightarrow> string \<Rightarrow> byte \<Rightarrow> (string + bytes) list \<Rightarrow> unit io" where
  "serve_loop E token index [] = return_m ()"
| "serve_loop E token index (c # cs) =
     (case c of
        Inl _ \<Rightarrow> serve_loop E token index cs
      | Inr inp \<Rightarrow>
          bind_m (try_m (handle_one E token index inp)) (\<lambda>_.
          serve_loop E token index cs))"

definition serve :: "'b tenv_scheme \<Rightarrow> string \<Rightarrow> string \<Rightarrow> byte \<Rightarrow> (string + bytes) list \<Rightarrow> unit io" where
  "serve E addr token index conns =
     (case net_bind E addr of
        Some e \<Rightarrow> throw_m (Migration (''bind '' @ addr @ '': '' @ e))
      | None \<Rightarrow> serve_loop E token index conns)"

section \<open>Migrating away\<close>

record MgOptions =
  mg_token :: string
  mg_use_existing :: bool
  mg_allow_tcp :: bool
  mg_keep_local :: bool

record MigrationReport =
  mp_id :: string
  mp_target :: string
  mp_snapshot_bytes :: u64
  mp_checkpoint_ms :: u64
  mp_hash_ms :: u64
  mp_transfer_ms :: u64
  mp_remote_restore_ms :: u64
  mp_remote_build_ms :: u64
  mp_total_ms :: u64
  mp_throughput_mib_s :: u64
  mp_remote_pid :: int
  mp_remote_ip :: "string option"

definition mg_freeze :: "'b snenv_scheme \<Rightarrow> string \<Rightarrow> MgOptions \<Rightarrow> (string \<times> u64) io" where
  "mg_freeze E cid opts =
     (let dir = for_id E cid in
      bind_m (dir_exists E dir) (\<lambda>ex.
      if \<not> ex then throw_m (Migration (''container '' @ cid @ '' not found''))
      else
        bind_m (load_state E dir) (\<lambda>st.
        if mg_use_existing opts
        then
          bind_m (get_m (\<lambda>w. case cs_snapshot st of Some p \<Rightarrow> is_file w (resolve E p) | None \<Rightarrow> False)) (\<lambda>f.
          if f then return_m (the (cs_snapshot st), 0)
          else throw_m (Migration ''--use-existing was given but this container has no snapshot on disk''))
        else if \<not> cs_is st Running
        then throw_m (Migration (''container '' @ cid @ '' is '' @ cs_status st @ '': migrate freezes a running container''))
        else
          bind_m (checkpoint E cid \<lparr>ck_name = ''migrate'', ck_dest = None, ck_leave_running = False, ck_allow_tcp = mg_allow_tcp opts\<rparr>) (\<lambda>rep.
          return_m (cr_snapshot rep, cr_total_ms rep)))))"

definition migrated_update :: "string \<Rightarrow> ContainerState \<Rightarrow> ContainerState" where
  "migrated_update now st = st\<lparr>cs_status := as_str Migrated, cs_pid := None\<rparr>"

definition not_handed_over :: "string \<Rightarrow> string \<Rightarrow> RuntimeError \<Rightarrow> RuntimeError" where
  "not_handed_over cid target e =
     Migration (err_to_string e @ [CHR 0x0A, CHR 0x0A] @ ''The container is checkpointed on this node and was NOT handed over.'')"

definition migrate :: "'b tenv_scheme \<Rightarrow> string \<Rightarrow> string \<Rightarrow> MgOptions \<Rightarrow> bytes \<Rightarrow> MigrationReport io" where
  "migrate E cid target opts inp =
     bind_m (get_m tick) (\<lambda>t0.
     bind_m (mg_freeze E cid opts) (\<lambda>(snapshot, checkpoint_ms).
     bind_m (map_err_m (not_handed_over cid target) (send_snapshot E cid snapshot target (mg_token opts) inp)) (\<lambda>tx.
     bind_m (if mg_keep_local opts then return_m () else update_at E cid migrated_update) (\<lambda>_.
     bind_m (since_m E t0) (\<lambda>total_ms.
     let result = tr_result tx in
     return_m
       \<lparr>mp_id = cid, mp_target = target, mp_snapshot_bytes = tr_bytes tx, mp_checkpoint_ms = checkpoint_ms,
        mp_hash_ms = tr_hash_ms tx, mp_transfer_ms = tr_transfer_ms tx, mp_remote_restore_ms = mr_restore_total_ms result,
        mp_remote_build_ms = mr_restore_build_ms result, mp_total_ms = total_ms,
        mp_throughput_mib_s = f64_mib_per_s E (tr_bytes tx) (tr_transfer_ms tx),
        mp_remote_pid = mr_pid result, mp_remote_ip = mr_container_ip result\<rparr>)))))"

end
