(* ===== verification/Cli.thy ===== *)
theory Cli
  imports Container Migrate
begin

text \<open>
  \<^verbatim>\<open>src/main.rs\<close>: the commands. A command returns its exit code and what it writes to the standard
  output; diagnostics on the standard error stream are left out. A panic is the error case of the
  computation. Parsing the command line (the \<^verbatim>\<open>clap\<close> crate), drawing identifiers (\<^verbatim>\<open>uuid\<close>), pretty
  JSON, the decimal form of floating-point numbers and the debug form of strings are parameters, and
  so is the text of a table of statistics. Between two looks at the state file a polling command
  sleeps, and everything other processes do happens then.
\<close>

section \<open>Arguments and parameters\<close>

record CreateArgs =
  ca_id :: "string option"
  ca_rootfs :: string
  ca_memory :: u64
  ca_bind :: "string list"
  ca_cpu :: u64
  ca_pids :: u64
  ca_net :: bool
  ca_no_seccomp :: bool
  ca_no_drop_caps :: bool
  ca_cmd :: "string list"

record RunArgs =
  ra_rootfs :: string
  ra_memory :: u64
  ra_bind :: "string list"
  ra_cpu :: u64
  ra_pids :: u64
  ra_net :: bool
  ra_no_seccomp :: bool
  ra_no_drop_caps :: bool
  ra_json :: bool
  ra_cmd :: "string list"

record CheckpointArgs =
  ka_id :: string
  ka_name :: string
  ka_output :: "string option"
  ka_leave_running :: bool
  ka_allow_tcp :: bool
  ka_json :: bool

record RestoreArgs =
  ta_id :: string
  ta_from :: "string option"
  ta_index :: byte
  ta_allow_tcp :: bool
  ta_json :: bool

record MigrateArgs =
  ga_id :: string
  ga_host :: string
  ga_token :: string
  ga_use_existing :: bool
  ga_allow_tcp :: bool
  ga_keep_local :: bool
  ga_json :: bool

record ServeArgs =
  va_listen :: string
  va_token :: string
  va_index :: byte

record InspectArgs =
  ia_snapshot :: string
  ia_verify :: bool
  ia_json :: bool

record BenchArgs =
  ba_rootfs :: string
  ba_runs :: nat
  ba_memory :: u64
  ba_cmd :: "string list"

record BenchCrArgs =
  qa_rootfs :: string
  qa_runs :: nat
  qa_touch_mb :: nat
  qa_memory :: u64
  qa_json :: bool

text \<open>
  The fork results, the pid of this process, what the target of a migration answers and what
  connections arrive belong to the run as well. The first argument of \<open>uuid_v4\<close> numbers the call.
\<close>

record clienv = tenv +
  uuid_v4 :: "nat \<Rightarrow> nat \<Rightarrow> string"
  c_fork :: forkenv
  c_self :: int
  c_answer :: bytes
  c_conns :: "(string + bytes) list"
  pp_config :: "ContainerConfig \<Rightarrow> string"
  pp_metrics :: "Metrics \<Rightarrow> string"
  pp_checkpoint :: "CkReport \<Rightarrow> string"
  pp_restore :: "RsReport \<Rightarrow> string"
  pp_migration :: "MigrationReport \<Rightarrow> string"
  pp_manifest :: "Manifest \<Rightarrow> string"
  pp_bench :: "nat \<Rightarrow> nat \<Rightarrow> u64 list \<Rightarrow> u64 list \<Rightarrow> u64 list \<Rightarrow> u64 list \<Rightarrow> string"
  f64_dec1 :: "u64 \<Rightarrow> string"
  mib_dec2 :: "u64 \<Rightarrow> string"
  dbg_strings :: "string list \<Rightarrow> string"
  stats_text :: "string \<Rightarrow> u64 list \<Rightarrow> string"

type_synonym cmd = "(world, string, int \<times> string) eio"

section \<open>Output\<close>

definition nl :: string where "nl = [CHR 0x0A]"

definition println :: "string \<Rightarrow> string" where "println s = s @ nl"

text \<open>The width counts characters, not bytes.\<close>

definition char_count :: "string \<Rightarrow> nat" where
  "char_count s = length (filter (\<lambda>b. \<not> utf8_cont b) (as_bytes s))"

definition left_in :: "nat \<Rightarrow> string \<Rightarrow> string" where
  "left_in n s = s @ replicate (n - char_count s) (CHR '' '')"

definition right_in :: "nat \<Rightarrow> string \<Rightarrow> string" where
  "right_in n s = replicate (n - char_count s) (CHR '' '') @ s"

definition code :: "int \<Rightarrow> cmd" where
  "code c = return_m (c, [])"

text \<open>Report the error and leave with code 1.\<close>

definition or_fail :: "'a io \<Rightarrow> ('a \<Rightarrow> cmd) \<Rightarrow> cmd" where
  "or_fail m k = bind_m (try_m m) (\<lambda>r. case r of Inl _ \<Rightarrow> code 1 | Inr a \<Rightarrow> k a)"

section \<open>Creating\<close>

definition bind_volume :: "string \<Rightarrow> Volume option" where
  "bind_volume b = (case split_on (CHR '':'') b of
     [h, c] \<Rightarrow> Some \<lparr>host_path = h, container_path = c\<rparr> | _ \<Rightarrow> None)"

primrec create_volumes :: "string list \<Rightarrow> Volume list option" where
  "create_volumes [] = Some []"
| "create_volumes (b # bs) =
     (case bind_volume b of
        None \<Rightarrow> None
      | Some v \<Rightarrow> (case create_volumes bs of None \<Rightarrow> None | Some vs \<Rightarrow> Some (v # vs)))"

definition create_config :: "CreateArgs \<Rightarrow> string \<Rightarrow> string \<Rightarrow> ContainerConfig" where
  "create_config a cid uuid =
     (ContainerConfig_new uuid (ca_rootfs a) (ca_cmd a))
       \<lparr>cc_id := cid,
        resources := \<lparr>memory_max = ca_memory a, cpu_quota = ca_cpu a, cpu_period = 100000, pids_max = ca_pids a\<rparr>,
        network := ca_net a, seccomp := \<not> ca_no_seccomp a, drop_caps := \<not> ca_no_drop_caps a\<rparr>"

definition cmd_create :: "'b clienv_scheme \<Rightarrow> CreateArgs \<Rightarrow> cmd" where
  "cmd_create E a =
     bind_m (get_m (\<lambda>w. case ca_id a of Some i \<Rightarrow> i | None \<Rightarrow> uuid_v4 E 0 (tick w))) (\<lambda>cid.
     or_fail (state_dir_init E) (\<lambda>_.
     or_fail (init_container E cid) (\<lambda>_.
     bind_m (get_m (\<lambda>w. create_config a cid (uuid_v4 E 1 (tick w)))) (\<lambda>cfg.
     case create_volumes (ca_bind a) of
       None \<Rightarrow> code 1
     | Some vs \<Rightarrow>
         or_fail (save_config E (for_id E cid) (pp_config E (cfg\<lparr>volumes := vs\<rparr>))) (\<lambda>_.
         return_m (0, println cid))))))"

section \<open>Starting\<close>

definition failed_update :: "string \<Rightarrow> ContainerState \<Rightarrow> ContainerState" where
  "failed_update now st = st\<lparr>cs_status := as_str Failed, cs_pid := None\<rparr>"

definition is_frozen :: "ContainerState \<Rightarrow> bool" where
  "is_frozen st = (cs_is st Checkpointing \<or> cs_is st Checkpointed)"

text \<open>What the supervisor does when the container has ended.\<close>

definition supervise_end :: "'b clienv_scheme \<Rightarrow> string \<Rightarrow> Metrics result \<Rightarrow> cmd" where
  "supervise_end E cid metrics =
     bind_m (try_m (get_container E cid)) (\<lambda>r.
     let frozen = (case r of Inr st \<Rightarrow> is_frozen st | Inl _ \<Rightarrow> False) in
     bind_m (case metrics of
               Inr m \<Rightarrow> if frozen then return_m () else ignore_m (set_stopped E cid (me_exit_code m))
             | Inl _ \<Rightarrow> if frozen then return_m () else ignore_m (set_stopped E cid 127)) (\<lambda>_.
     code 0))"

definition open_log :: "'b env_scheme \<Rightarrow> fspath \<Rightarrow> unit sys" where
  "open_log E p = bind_m (get_m (\<lambda>w. path_exists w p)) (\<lambda>ex. if ex then io_touch E else fs_write E p [])"

definition supervise :: "'b clienv_scheme \<Rightarrow> string \<Rightarrow> ContainerConfig \<Rightarrow> cmd" where
  "supervise E cid cfg =
     bind_m (modify_m (log_event Setsid)) (\<lambda>_.
     bind_m (ignore_m (open_log E (resolve E (path_join (sd_root (for_id E cid)) ''supervisor.log'')))) (\<lambda>_.
     bind_m (try_m (spawn E (c_fork E) cfg 0)) (\<lambda>r.
     case r of
       Inl _ \<Rightarrow> bind_m (ignore_m (update_at E cid failed_update)) (\<lambda>_. code 1)
     | Inr handle \<Rightarrow>
         bind_m (ignore_m (set_running_under E cid (hd_container_pid handle) (Some (c_self E)))) (\<lambda>_.
         bind_m (try_m (handle_wait E (c_fork E) handle)) (\<lambda>metrics.
         supervise_end E cid metrics)))))"

primrec await_running_loop :: "'b senv_scheme \<Rightarrow> string \<Rightarrow> nat \<Rightarrow> nat \<Rightarrow> (world, 'e, int option) eio" where
  "await_running_loop E cid deadline 0 = return_m None"
| "await_running_loop E cid deadline (Suc n) =
     bind_m (get_m (\<lambda>w. mono_ms E (tick w))) (\<lambda>now.
     if now < deadline
     then
       bind_m (try_m (get_container E cid)) (\<lambda>r.
       case r of
         Inr st \<Rightarrow>
           if cs_is st Running \<and> cs_pid st \<noteq> None then return_m (cs_pid st)
           else if cs_is st Failed \<or> cs_is st Stopped then return_m None
           else bind_m (thread_sleep E) (\<lambda>_. await_running_loop E cid deadline n)
       | Inl _ \<Rightarrow> bind_m (thread_sleep E) (\<lambda>_. await_running_loop E cid deadline n))
     else return_m None)"

text \<open>Each turn of the loop sleeps for five milliseconds, which bounds the number of turns.\<close>

definition await_running :: "'b senv_scheme \<Rightarrow> string \<Rightarrow> nat \<Rightarrow> (world, 'e, int option) eio" where
  "await_running E cid timeout =
     bind_m (get_m (\<lambda>w. mono_ms E (tick w))) (\<lambda>now. await_running_loop E cid (now + timeout) (polls_for timeout))"

definition start_foreground :: "'b clienv_scheme \<Rightarrow> string \<Rightarrow> ContainerConfig \<Rightarrow> cmd" where
  "start_foreground E cid cfg =
     bind_m (try_m (run E (c_fork E) cfg 0)) (\<lambda>r.
     case r of
       Inr m \<Rightarrow> bind_m (ignore_m (set_stopped E cid (me_exit_code m))) (\<lambda>_. code (me_exit_code m))
     | Inl _ \<Rightarrow> bind_m (ignore_m (set_stopped E cid 127)) (\<lambda>_. code 1))"

text \<open>The detached start is the parent's side of the fork; the child's side is \<open>supervise\<close>.\<close>

definition start_detached :: "'b clienv_scheme \<Rightarrow> string \<Rightarrow> bool \<Rightarrow> cmd" where
  "start_detached E cid quiet =
     (let io = io_dir (for_id E cid) in
      bind_m (ignore_m (fs_write E (resolve E (path_join io ''stdout'')) [])) (\<lambda>_.
      bind_m (ignore_m (fs_write E (resolve E (path_join io ''stderr'')) [])) (\<lambda>_.
      or_fail (fork_m (c_fork E)) (\<lambda>_.
      bind_m (await_running E cid 10000) (\<lambda>r.
      case r of
        Some _ \<Rightarrow> return_m (0, if quiet then [] else println cid)
      | None \<Rightarrow> code 1)))))"

definition cmd_start :: "'b clienv_scheme \<Rightarrow> string \<Rightarrow> bool \<Rightarrow> bool \<Rightarrow> cmd" where
  "cmd_start E cid detach quiet =
     or_fail (state_dir_init E) (\<lambda>_.
     bind_m (dir_exists E (for_id E cid)) (\<lambda>ex.
     if \<not> ex then code 1
     else
       or_fail (create E (for_id E cid)) (\<lambda>_.
       or_fail (load_config E (for_id E cid)) (\<lambda>cfg.
       if \<not> detach then start_foreground E cid cfg else start_detached E cid quiet))))"

section \<open>Stopping, listing, reading logs, removing\<close>

definition cmd_stop :: "'b clienv_scheme \<Rightarrow> string \<Rightarrow> cmd" where
  "cmd_stop E cid =
     or_fail (state_dir_init E) (\<lambda>_.
     or_fail (get_container E cid) (\<lambda>st.
     if cs_is st Checkpointed then code 1
     else
       (case cs_pid st of
          None \<Rightarrow> code 1
        | Some pid \<Rightarrow>
            bind_m (kill_sig E pid ''SIGTERM'') (\<lambda>_.
            bind_m (wait_for_exit E pid 500) (\<lambda>_.
            bind_m (get_m (\<lambda>w. pid_alive w pid)) (\<lambda>alive.
            bind_m (if alive then kill_sig E pid ''SIGKILL'' else return_m ()) (\<lambda>_.
            code 0)))))))"

definition ps_head :: string where
  "ps_head = println (left_in 38 ''ID'' @ '' '' @ left_in 14 ''STATUS'' @ '' '' @ left_in 8 ''PID'' @ '' ''
     @ left_in 4 ''GEN'' @ '' '' @ ''SNAPSHOT'')"

definition ps_snapshot :: "ContainerState \<Rightarrow> string" where
  "ps_snapshot c = (case cs_snapshot c of None \<Rightarrow> ''-'' | Some p \<Rightarrow> (case file_name p of Some n \<Rightarrow> n | None \<Rightarrow> p))"

definition ps_row :: "ContainerState \<Rightarrow> string option" where
  "ps_row c =
     map_option (\<lambda>i. println (left_in 38 i @ '' '' @ left_in 14 (cs_status c) @ '' ''
         @ left_in 8 (case cs_pid c of Some p \<Rightarrow> show_int p | None \<Rightarrow> ''-'') @ '' ''
         @ left_in 4 (show_nat (unat (cs_generation c))) @ '' '' @ ps_snapshot c))
       (str_get_to (cs_id c) (min (length (cs_id c)) 38))"

primrec ps_rows :: "ContainerState list \<Rightarrow> string option" where
  "ps_rows [] = Some []"
| "ps_rows (c # cs) = (case ps_row c of None \<Rightarrow> None | Some r \<Rightarrow> map_option ((@) r) (ps_rows cs))"

definition cmd_ps :: "'b clienv_scheme \<Rightarrow> cmd" where
  "cmd_ps E =
     or_fail (state_dir_init E) (\<lambda>_.
     bind_m (ignore_m (reconcile_all E)) (\<lambda>_.
     or_fail (list_all_containers E) (\<lambda>cs.
     case ps_rows (sort_key cs_created_at cs) of
       None \<Rightarrow> throw_m ''byte index 38 is not a char boundary''
     | Some rows \<Rightarrow> return_m (0, ps_head @ rows))))"

definition log_section :: "'b clienv_scheme \<Rightarrow> string \<times> string \<Rightarrow> (world, string, string) eio" where
  "log_section E = (\<lambda>(label, path).
     bind_m (try_m (fs_read_to_string E (resolve E path))) (\<lambda>r.
     return_m (println (''=== '' @ label @ '' ==='') @
       (case r of Inr t \<Rightarrow> t | Inl e \<Rightarrow> println (''('' @ e @ '')'')))))"

definition cmd_logs :: "'b clienv_scheme \<Rightarrow> string \<Rightarrow> cmd" where
  "cmd_logs E cid =
     or_fail (state_dir_init E) (\<lambda>_.
     let dir = for_id E cid in
     bind_m (dir_exists E dir) (\<lambda>ex.
     if \<not> ex then code 1
     else
       bind_m (mapM_m (log_section E) [(''STDOUT'', path_join (io_dir dir) ''stdout''), (''STDERR'', path_join (io_dir dir) ''stderr'')])
         (\<lambda>texts. return_m (0, concat texts))))"

definition cmd_rm :: "'b clienv_scheme \<Rightarrow> string \<Rightarrow> cmd" where
  "cmd_rm E cid =
     or_fail (state_dir_init E) (\<lambda>_.
     bind_m (dir_exists E (for_id E cid)) (\<lambda>ex.
     if \<not> ex then code 1
     else or_fail (cleanup E (for_id E cid)) (\<lambda>_. return_m (0, println (''Removed '' @ cid)))))"

section \<open>Running\<close>

definition run_config :: "RunArgs \<Rightarrow> string \<Rightarrow> ContainerConfig" where
  "run_config a uuid =
     (ContainerConfig_new uuid (ra_rootfs a) (ra_cmd a))
       \<lparr>network := ra_net a, seccomp := \<not> ra_no_seccomp a, drop_caps := \<not> ra_no_drop_caps a,
        resources := \<lparr>memory_max = ra_memory a, cpu_quota = ra_cpu a, cpu_period = 100000, pids_max = ra_pids a\<rparr>,
        volumes := List.map_filter bind_volume (ra_bind a)\<rparr>"

definition cmd_run :: "'b clienv_scheme \<Rightarrow> RunArgs \<Rightarrow> cmd" where
  "cmd_run E a =
     bind_m (get_m (\<lambda>w. run_config a (uuid_v4 E 0 (tick w)))) (\<lambda>cfg.
     or_fail (run E (c_fork E) cfg 0) (\<lambda>m.
     return_m (me_exit_code m, if ra_json a then println (pp_metrics E m) else [])))"

section \<open>Checkpoint, restore, migration\<close>

definition cmd_checkpoint :: "'b clienv_scheme \<Rightarrow> CheckpointArgs \<Rightarrow> cmd" where
  "cmd_checkpoint E a =
     or_fail (state_dir_init E) (\<lambda>_.
     or_fail (checkpoint E (ka_id a)
         \<lparr>ck_name = ka_name a, ck_dest = ka_output a, ck_leave_running = ka_leave_running a, ck_allow_tcp = ka_allow_tcp a\<rparr>) (\<lambda>r.
     return_m (0, println (if ka_json a then pp_checkpoint E r else cr_snapshot r))))"

definition cmd_restore :: "'b clienv_scheme \<Rightarrow> RestoreArgs \<Rightarrow> cmd" where
  "cmd_restore E a =
     or_fail (state_dir_init E) (\<lambda>_.
     or_fail (restore E (ta_id a) \<lparr>rs_from = ta_from a, rs_index = ta_index a, rs_allow_tcp = ta_allow_tcp a\<rparr>) (\<lambda>r.
     return_m (0, println (if ta_json a then pp_restore E r else rr_id r))))"

definition cmd_migrate :: "'b clienv_scheme \<Rightarrow> MigrateArgs \<Rightarrow> cmd" where
  "cmd_migrate E a =
     or_fail (state_dir_init E) (\<lambda>_.
     or_fail (migrate E (ga_id a) (ga_host a)
         \<lparr>mg_token = ga_token a, mg_use_existing = ga_use_existing a, mg_allow_tcp = ga_allow_tcp a, mg_keep_local = ga_keep_local a\<rparr>
         (c_answer E)) (\<lambda>r.
     return_m (0, if ga_json a then println (pp_migration E r) else [])))"

definition cmd_serve :: "'b clienv_scheme \<Rightarrow> ServeArgs \<Rightarrow> cmd" where
  "cmd_serve E a =
     or_fail (state_dir_init E) (\<lambda>_.
     or_fail (serve E (va_listen a) (va_token a) (va_index a) (c_conns E)) (\<lambda>_. code 0))"

end
