(* ===== verification/Cli_Report.thy ===== *)
theory Cli_Report
  imports Cli Hardening
begin

text \<open>
  \<^verbatim>\<open>src/main.rs\<close>, continued: printing a manifest, the two benchmarks, the description of the runtime,
  and the dispatch of a parsed command. The number of benchmark runs is a list of run indices;
  measured times and sizes are \<^verbatim>\<open>f64\<close> bit patterns handed to the parameter that prints statistics
  (the sizes in bytes stay integers).
\<close>

section \<open>Inspecting a snapshot\<close>

definition show_bool :: "bool \<Rightarrow> string" where
  "show_bool b = (if b then ''true'' else ''false'')"

definition dbg_option :: "u64 option \<Rightarrow> string" where
  "dbg_option v = (case v of None \<Rightarrow> ''None'' | Some n \<Rightarrow> ''Some('' @ show_u64 n @ '')'')"

definition show_u32 :: "u32 \<Rightarrow> string" where
  "show_u32 v = show_nat (unat v)"

definition margin :: string where "margin = replicate 15 (CHR '' '')"

definition mount_line_text :: "MountEntry \<Rightarrow> string" where
  "mount_line_text e = println (margin @ left_in 24 (me_mount_point e) @ '' '' @ left_in 10 (me_fs_type e) @ '' '' @ me_source e)"

definition fd_line_text :: "FdEntry \<Rightarrow> string" where
  "fd_line_text e = println (margin @ left_in 4 (show_int (fe_fd e)) @ '' -> '' @ fe_target e)"

definition entry_line_text :: "EntryMeta \<Rightarrow> string" where
  "entry_line_text e = println (margin @ left_in 28 (em_name e) @ '' '' @ right_in 10 (show_u64 (em_len e)) @ '' bytes  crc 0x''
     @ pad_zero 8 (show_hex (unat (em_crc32 e))))"

text \<open>Sorting by the reversed length is stable.\<close>

definition largest_first :: "EntryMeta list \<Rightarrow> EntryMeta list" where
  "largest_first es = sort_key (\<lambda>e. - int (unat (em_len e))) es"

definition entries_text :: "EntryMeta list \<Rightarrow> string" where
  "entries_text es =
     (let by_size = largest_first es in
      concat (map entry_line_text (take 10 by_size))
      @ (if 10 < length by_size then println (margin @ ''... and '' @ show_nat (length by_size - 10) @ '' more'') else []))"

definition manifest_text :: "'b clienv_scheme \<Rightarrow> string \<Rightarrow> bool \<Rightarrow> Manifest \<Rightarrow> string" where
  "manifest_text E path checked m =
     println (''snapshot     : '' @ path)
     @ println (''format       : v'' @ show_u32 (mf_format_version m))
     @ println (''producer     : '' @ mf_producer m)
     @ println (''engine       : '' @ mf_engine m @ '' '' @ mf_engine_version m)
     @ println (''created      : '' @ mf_created_at m)
     @ println (''source       : '' @ mf_source_host m @ '' ('' @ mf_source_arch m @ '', kernel '' @ mf_source_kernel m @ '')'')
     @ println (''container    : '' @ mf_container_id m)
     @ println (''command      : '' @ dbg_strings E (command (mf_config m)))
     @ println (''rootfs       : '' @ rootfs (mf_config m))
     @ println (''network      : '' @ show_bool (network (mf_config m)))
     @ println (''dumped pid   : '' @ show_int (mf_checkpoint_pid m) @ '' (freeze+dump '' @ f64_dec1 E (mf_dump_ms m) @ ''ms)'')
     @ println (''cgroup       : memory.max='' @ cg_memory_max (mf_cgroup m) @ '' cpu.max='' @ cg_cpu_max (mf_cgroup m)
         @ '' pids.max='' @ cg_pids_max (mf_cgroup m) @ '' peak='' @ mib_dec2 E (cg_memory_peak (mf_cgroup m)) @ ''MiB cpu=''
         @ show_u64 (cg_cpu_usage_usec (mf_cgroup m)) @ ''us'')
     @ println (''namespaces   : pid='' @ dbg_option (ns_pid (mf_namespaces m)) @ '' mnt='' @ dbg_option (ns_mnt (mf_namespaces m))
         @ '' net='' @ dbg_option (ns_net (mf_namespaces m)) @ '' uts='' @ dbg_option (ns_uts (mf_namespaces m))
         @ '' ipc='' @ dbg_option (ns_ipc (mf_namespaces m)))
     @ println (''mounts       : '' @ show_nat (length (mf_mounts m)))
     @ concat (map mount_line_text (mf_mounts m))
     @ println (''open fds     : '' @ show_nat (length (mf_open_fds m)))
     @ concat (map fd_line_text (mf_open_fds m))
     @ println (''entries      : '' @ show_nat (length (mf_entries m)) @ '' ('' @ mib_dec2 E (payload_bytes m) @ '' MiB payload)'')
     @ entries_text (mf_entries m)
     @ (if checked then println ''checksum     : OK (whole file and every entry)'' else [])"

definition cmd_inspect :: "'b clienv_scheme \<Rightarrow> InspectArgs \<Rightarrow> cmd" where
  "cmd_inspect E a =
     or_fail (inspect E (ia_snapshot a) (ia_verify a)) (\<lambda>m.
     return_m (0, if ia_json a then println (pp_manifest E m) else manifest_text E (ia_snapshot a) (ia_verify a) m))"

section \<open>Benchmarks\<close>

definition bench_config :: "BenchArgs \<Rightarrow> string \<Rightarrow> ContainerConfig" where
  "bench_config a uuid =
     (ContainerConfig_new uuid (ba_rootfs a) (if ba_cmd a = [] then [''/bin/true''] else ba_cmd a))
       \<lparr>resources := Resources_default\<lparr>memory_max := ba_memory a\<rparr>\<rparr>"

primrec bench_runs :: "'b clienv_scheme \<Rightarrow> BenchArgs \<Rightarrow> nat list \<Rightarrow> Metrics list io" where
  "bench_runs E a [] = return_m []"
| "bench_runs E a (i # is) =
     bind_m (get_m (\<lambda>w. bench_config a (uuid_v4 E i (tick w)))) (\<lambda>cfg.
     bind_m (run E (c_fork E) cfg 0) (\<lambda>m.
     bind_m (bench_runs E a is) (\<lambda>ms.
     return_m (m # ms))))"

definition cmd_bench :: "'b clienv_scheme \<Rightarrow> BenchArgs \<Rightarrow> cmd" where
  "cmd_bench E a =
     or_fail (bench_runs E a [0..<ba_runs a]) (\<lambda>ms.
     return_m (0, stats_text E ''setup overhead (ms)'' (map me_setup_ms ms)
       @ stats_text E ''end-to-end wall (ms)'' (map me_wall_ms ms)
       @ stats_text E ''peak memory (MiB)'' (map me_peak_mem_bytes ms)))"

definition bench_script :: "nat \<Rightarrow> string" where
  "bench_script touch_mb =
     (if touch_mb = 0 then ''echo filled; while true; do sleep 1; done''
      else ''target=$(('' @ show_nat touch_mb @ '' * 1024 * 1024)); '' @ ''s=$(awk '' @ [CHR 0x27] @ ''BEGIN{while(i++<1024) printf ''
        @ [CHR 0x22] @ ''x'' @ [CHR 0x22] @ ''}'' @ [CHR 0x27] @ ''); ''
        @ ''while [ ${#s} -lt $target ]; do s='' @ [CHR 0x22] @ ''$s$s'' @ [CHR 0x22] @ ''; done; ''
        @ ''echo filled; while true; do sleep 1; done'')"

text \<open>Each turn of the loop sleeps for twenty milliseconds, which bounds the number of turns.\<close>

primrec wait_for_log_loop :: "'b env_scheme \<Rightarrow> fspath \<Rightarrow> string \<Rightarrow> nat \<Rightarrow> nat \<Rightarrow> (world, 'e, bool) eio" where
  "wait_for_log_loop E path needle deadline 0 = return_m False"
| "wait_for_log_loop E path needle deadline (Suc n) =
     bind_m (get_m (\<lambda>w. mono_ms E (tick w))) (\<lambda>now.
     if now < deadline
     then
       bind_m (try_m (fs_read_to_string E path)) (\<lambda>r.
       if (case r of Inr t \<Rightarrow> contains_str needle t | Inl _ \<Rightarrow> False) then return_m True
       else bind_m (thread_sleep E) (\<lambda>_. wait_for_log_loop E path needle deadline n))
     else return_m False)"

definition wait_for_log :: "'b env_scheme \<Rightarrow> ContainerStateDir \<Rightarrow> string \<Rightarrow> nat \<Rightarrow> (world, 'e, bool) eio" where
  "wait_for_log E dir needle timeout =
     bind_m (get_m (\<lambda>w. mono_ms E (tick w))) (\<lambda>now.
     wait_for_log_loop E (resolve E (path_join (io_dir dir) ''stdout'')) needle (now + timeout) (Suc (timeout div 20)))"

definition bench_cr_config :: "BenchCrArgs \<Rightarrow> string \<Rightarrow> string \<Rightarrow> ContainerConfig" where
  "bench_cr_config a cid uuid =
     (ContainerConfig_new uuid (qa_rootfs a) [''/bin/sh'', ''-c'', bench_script (qa_touch_mb a)])
       \<lparr>cc_id := cid, resources := Resources_default\<lparr>memory_max := qa_memory a\<rparr>\<rparr>"

text \<open>
  One iteration: preparing, measuring, and the whole; \<open>None\<close> is an early return with code 1. What
  starting the container prints is kept.
\<close>

definition or_none :: "'a io \<Rightarrow> ('a \<Rightarrow> (world, string, 'c option) eio) \<Rightarrow> (world, string, 'c option) eio" where
  "or_none m k = bind_m (try_m m) (\<lambda>r. case r of Inl _ \<Rightarrow> return_m None | Inr a \<Rightarrow> k a)"

definition bench_cr_prepare :: "'b clienv_scheme \<Rightarrow> BenchCrArgs \<Rightarrow> nat \<Rightarrow> string \<Rightarrow> (world, string, unit option) eio" where
  "bench_cr_prepare E a i cid =
     or_none (init_container E cid) (\<lambda>_.
     bind_m (get_m (\<lambda>w. bench_cr_config a cid (uuid_v4 E (2 * i + 1) (tick w)))) (\<lambda>cfg.
     bind_m (ignore_m (create E (for_id E cid))) (\<lambda>_.
     or_none (save_config E (for_id E cid) (pp_config E cfg)) (\<lambda>_. return_m (Some ())))))"

definition bench_cr_measure :: "'b clienv_scheme \<Rightarrow> string \<Rightarrow> (world, string, (CkReport \<times> RsReport) option) eio" where
  "bench_cr_measure E cid =
     bind_m (wait_for_log E (for_id E cid) ''filled'' 60000) (\<lambda>ready.
     if \<not> ready then bind_m (cmd_stop E cid) (\<lambda>_. return_m None)
     else
       or_none (checkpoint E cid CkOptions_default) (\<lambda>c.
       or_none (restore E cid \<lparr>rs_from = None, rs_index = 0, rs_allow_tcp = False\<rparr>) (\<lambda>r.
       bind_m (cmd_stop E cid) (\<lambda>_.
       bind_m (thread_sleep E) (\<lambda>_.
       bind_m (ignore_m (cleanup E (for_id E cid))) (\<lambda>_.
       return_m (Some (c, r))))))))"

definition bench_cr_one ::
  "'b clienv_scheme \<Rightarrow> BenchCrArgs \<Rightarrow> nat \<Rightarrow> (world, string, (CkReport \<times> RsReport) option \<times> string) eio" where
  "bench_cr_one E a i =
     bind_m (get_m (\<lambda>w. ''bench-cr-'' @ uuid_v4 E (2 * i) (tick w))) (\<lambda>cid.
     bind_m (bench_cr_prepare E a i cid) (\<lambda>p.
     if p = None then return_m (None, [])
     else
       bind_m (cmd_start E cid True (qa_json a)) (\<lambda>(n, out).
       if n \<noteq> 0 then return_m (None, out)
       else bind_m (bench_cr_measure E cid) (\<lambda>r. return_m (r, out)))))"

primrec bench_cr_runs ::
  "'b clienv_scheme \<Rightarrow> BenchCrArgs \<Rightarrow> nat list \<Rightarrow> (world, string, (CkReport \<times> RsReport) list option \<times> string) eio" where
  "bench_cr_runs E a [] = return_m (Some [], [])"
| "bench_cr_runs E a (i # is) =
     bind_m (bench_cr_one E a i) (\<lambda>(r, out).
     case r of
       None \<Rightarrow> return_m (None, out)
     | Some p \<Rightarrow>
         bind_m (bench_cr_runs E a is) (\<lambda>(rs, outs).
         return_m (map_option ((#) p) rs, out @ outs)))"

definition bench_cr_text :: "'b clienv_scheme \<Rightarrow> BenchCrArgs \<Rightarrow> (CkReport \<times> RsReport) list \<Rightarrow> string" where
  "bench_cr_text E a rs =
     (let ckpt = map (cr_total_ms \<circ> fst) rs; dump = map (cr_dump_ms \<circ> fst) rs;
          rest = map (rr_total_ms \<circ> snd) rs; sizes = map (cr_snapshot_bytes \<circ> fst) rs
      in if qa_json a then println (pp_bench E (qa_runs a) (qa_touch_mb a) ckpt dump rest sizes)
         else stats_text E ''checkpoint total (ms)'' ckpt @ stats_text E ''  freeze+dump (ms)'' dump
           @ stats_text E ''restore total (ms)'' rest @ stats_text E ''snapshot size (MiB)'' sizes)"

definition cmd_bench_cr :: "'b clienv_scheme \<Rightarrow> BenchCrArgs \<Rightarrow> cmd" where
  "cmd_bench_cr E a =
     or_fail (state_dir_init E) (\<lambda>_.
     bind_m (bench_cr_runs E a [0..<qa_runs a]) (\<lambda>(r, out).
     return_m (case r of None \<Rightarrow> (1, out) | Some rs \<Rightarrow> (0, out @ bench_cr_text E a rs))))"

section \<open>Describing the runtime\<close>

text \<open>The two dashes of the text are three bytes of UTF-8 each.\<close>

definition em_dash :: string where "em_dash = [CHR 0xE2, CHR 0x80, CHR 0x94]"

definition info_head :: "seclib \<Rightarrow> string" where
  "info_head L =
     println (''mincontainer '' @ em_dash @ '' isolation applied per container:'')
     @ println ''  namespaces : PID, mount, UTS, IPC, network (5)''
     @ println ''  rootfs     : pivot_root + private mounts, fresh /proc and /dev''
     @ println ''  cgroup v2  : memory.max, cpu.max, pids.max + peak-memory/cpu accounting''
     @ println ''  network    : veth pair into a bridge, per-container IP, NAT egress''
     @ println ''  volumes    : bind mounts (--bind /host:/container)''
     @ println (''  seccomp    : default-allow BPF filter, '' @ show_nat (blocked_count L) @ '' syscalls denied (EPERM)'')
     @ println (''  caps       : '' @ show_nat dropped_count @ '' dangerous capabilities dropped from the bounding set'')
     @ println (''  snapshots  : .mcsnap format v'' @ show_u32 FORMAT_VERSION @ '', CRC32 per entry and whole-file'')
     @ println (''  migration  : raw TCP, length-prefixed frames, protocol v'' @ show_u32 PROTO_VERSION)
     @ ''  engine     : ''"

definition check_text :: "RuntimeError + bool \<times> string \<Rightarrow> string" where
  "check_text r = (case r of
     Inr (True, _) \<Rightarrow> println ''  c/r ready  : yes (criu check --all passed)''
   | Inr (False, out) \<Rightarrow>
       println (''  c/r ready  : PARTIAL '' @ em_dash @ '' criu check --all reported:'')
       @ concat (map (\<lambda>l. println (margin @ l)) (filter (\<lambda>l. contains_str ''Error'' l \<or> contains_str ''Warn'' l) (lines out)))
   | Inl e \<Rightarrow> println (''  c/r ready  : unknown ('' @ err_to_string e @ '')''))"

definition cmd_info :: "'b clienv_scheme \<Rightarrow> seclib \<Rightarrow> cmd" where
  "cmd_info E L =
     bind_m (try_m (criu_version E)) (\<lambda>v.
     case v of
       Inl e \<Rightarrow> return_m (0, info_head L @ println ''MISSING''
         @ println (''  c/r ready  : no '' @ em_dash @ '' '' @ err_to_string e))
     | Inr ver \<Rightarrow>
         bind_m (try_m (criu_check E)) (\<lambda>c.
         return_m (0, info_head L @ println (''criu '' @ ver) @ check_text c)))"

section \<open>Dispatch\<close>

datatype Commands =
    CmdCreate CreateArgs
  | CmdStart string bool
  | CmdStop string
  | CmdPs
  | CmdLogs string
  | CmdRm string
  | CmdRun RunArgs
  | CmdBench BenchArgs
  | CmdCheckpoint CheckpointArgs
  | CmdRestore RestoreArgs
  | CmdMigrate MigrateArgs
  | CmdServe ServeArgs
  | CmdInspect InspectArgs
  | CmdBenchCr BenchCrArgs
  | CmdInfo

definition main_cmd :: "'b clienv_scheme \<Rightarrow> seclib \<Rightarrow> Commands \<Rightarrow> cmd" where
  "main_cmd E L c = (case c of
     CmdCreate a \<Rightarrow> cmd_create E a
   | CmdStart i detach \<Rightarrow> cmd_start E i detach False
   | CmdStop i \<Rightarrow> cmd_stop E i
   | CmdPs \<Rightarrow> cmd_ps E
   | CmdLogs i \<Rightarrow> cmd_logs E i
   | CmdRm i \<Rightarrow> cmd_rm E i
   | CmdRun a \<Rightarrow> cmd_run E a
   | CmdBench a \<Rightarrow> cmd_bench E a
   | CmdCheckpoint a \<Rightarrow> cmd_checkpoint E a
   | CmdRestore a \<Rightarrow> cmd_restore E a
   | CmdMigrate a \<Rightarrow> cmd_migrate E a
   | CmdServe a \<Rightarrow> cmd_serve E a
   | CmdInspect a \<Rightarrow> cmd_inspect E a
   | CmdBenchCr a \<Rightarrow> cmd_bench_cr E a
   | CmdInfo \<Rightarrow> cmd_info E L)"

end
