(* ===== verification/Restore_Facts.thy ===== *)
theory Restore_Facts
  imports Restore Checkpoint_Facts "HOL-Library.Countable"
begin

text \<open>
  What restoring promises: the undo list is run in reverse order, an interrupted operation is swept
  up to a settled record, a live container is never restored a second time, the snapshot itself is
  never touched, and a restore that succeeds leaves an isolated, live, recorded container.
\<close>

section \<open>Requests made\<close>

text \<open>Everything requested since \<open>w\<close> satisfies \<open>P\<close>.\<close>

named_theorems mc_logs \<open>which requests a computation makes\<close>

definition logs :: "(event \<Rightarrow> bool) \<Rightarrow> world \<Rightarrow> world \<Rightarrow> bool" where
  "logs P w t \<longleftrightarrow> (\<exists>es. events t = events w @ es \<and> list_all P es)"

lemma logs_refl [simp]: "logs P w w"
  by (simp add: logs_def)

lemma logs_cong: "events t = events u \<Longrightarrow> logs P w t = logs P w u"
  by (simp add: logs_def)

lemma logs_log: "P e \<Longrightarrow> logs P w t \<Longrightarrow> logs P w (log_event e t)"
  by (auto simp: logs_def)

lemma logs_put [simp]: "logs P w (put_kpart k t) = logs P w t" "logs P w (t\<lparr>tick := n\<rparr>) = logs P w t"
  by (simp_all add: logs_def)

lemma fs_blind_logs [simp]: "fs_blind (logs P w)"
  by (simp add: fs_blind_def logs_def)

lemma keeps_logs_kernel: "P e \<Longrightarrow> keeps (logs P w) (kernel e f)"
  by (intro keepsI) (simp add: kernel_def logs_log split: prod.splits)

lemma keeps_logs_requests [mc_logs]:
  "P (Exec bin args) \<Longrightarrow> keeps (logs P w) (exec_cmd E bin args)"
  "P (CgMkdir p) \<Longrightarrow> keeps (logs P w) (cg_mkdir E p)"
  "P (CgRmdir p) \<Longrightarrow> keeps (logs P w) (cg_rmdir E p)"
  "P (CgWrite p v) \<Longrightarrow> keeps (logs P w) (cg_write E p v)"
  unfolding exec_cmd_def cg_mkdir_def cg_rmdir_def cg_write_def by (rule keeps_logs_kernel; assumption)+

lemma keeps_logs_signals [mc_logs]:
  "P (Kill pid sig) \<Longrightarrow> keeps (logs P w) (kill_sig E pid sig)"
  "P (Reap pid) \<Longrightarrow> keeps (logs P w) (reap_nohang E pid)"
  "keeps (logs P w) (thread_sleep E)"
  by (intro keepsI; simp add: kill_sig_def reap_nohang_def thread_sleep_def logs_log)+

lemma keeps_logs_await [mc_logs]: "keeps (logs P w) (await_loop E pid d n)" "keeps (logs P w) (wait_for_exit E pid k)"
proof -
  show await: "keeps (logs P w) (await_loop E pid d n)" for d n
    by (induction n) (auto intro!: mc_keeps mc_logs)
  show "keeps (logs P w) (wait_for_exit E pid k)"
    unfolding wait_for_exit_def by (intro mc_keeps await)
qed

lemmas keeps_logs_fs = keeps_fs_blind [OF fs_blind_logs] keeps_fs_blind_string [OF fs_blind_logs]
declare keeps_logs_fs [mc_logs]

section \<open>The undo list\<close>

lemma await_loop_wp:
  "wp (await_loop E pid d n :: (world, 'e, unit) eio) (\<lambda>_ t. events t = events w) (\<lambda>_ _. False) w"
proof (induction n arbitrary: w)
  case (Suc n)
  show ?case
    using Suc [of "(put_kpart (k_sleep E (kpart w)) w)\<lparr>tick := Suc (tick w)\<rparr>"]
    by (auto simp: thread_sleep_def wp_def bind_m_def get_m_def return_m_def split: prod.splits sum.splits)
qed simp

lemma wait_for_exit_wp:
  "wp (wait_for_exit E pid k :: (world, 'e, unit) eio) (\<lambda>_ t. events t = events w) (\<lambda>_ _. False) w"
  unfolding wait_for_exit_def wp_bind wp_get by (rule await_loop_wp)

definition rollback_requests :: "Rollback \<Rightarrow> event list" where
  "rollback_requests rb =
     (case rb_network rb of Some n \<Rightarrow> [Exec ''ip'' [''link'', ''delete'', nw_host_veth n]] | None \<Rightarrow> [])
     @ (case rb_pid rb of Some p \<Rightarrow> [Kill p ''SIGKILL'', Reap p] | None \<Rightarrow> [])
     @ (case rb_cgroup rb of Some c \<Rightarrow> [CgRmdir (path_join CGROUP_ROOT c)] | None \<Rightarrow> [])"

lemma net_run_events:
  "wp (net_run E bin args) (\<lambda>_ t. events t = events w @ [Exec bin args]) (\<lambda>_ t. events t = events w @ [Exec bin args]) w"
  unfolding net_run_def
  by (auto intro!: wp_mono [OF exec_cmd_events])

lemma rollback_parts:
  "wp ((case n of Some net \<Rightarrow> ignore_m (net_cleanup E net) | None \<Rightarrow> return_m ()) :: (world, 'e, unit) eio)
     (\<lambda>_ t. events t = events w @ (case n of Some n \<Rightarrow> [Exec ''ip'' [''link'', ''delete'', nw_host_veth n]] | None \<Rightarrow> [])) (\<lambda>_ _. False) w"
  "wp ((case p of Some pid \<Rightarrow> bind_m (kill_sig E pid ''SIGKILL'') (\<lambda>_. bind_m (reap_nohang E pid) (\<lambda>_. wait_for_exit E pid 2000))
         | None \<Rightarrow> return_m ()) :: (world, 'e, unit) eio)
     (\<lambda>_ t. events t = events w @ (case p of Some p \<Rightarrow> [Kill p ''SIGKILL'', Reap p] | None \<Rightarrow> [])) (\<lambda>_ _. False) w"
  "wp ((case c of Some cg \<Rightarrow> Cgroup_cleanup E (Cgroup_open cg) | None \<Rightarrow> return_m ()) :: (world, 'e, unit) eio)
     (\<lambda>_ t. events t = events w @ (case c of Some c \<Rightarrow> [CgRmdir (path_join CGROUP_ROOT c)] | None \<Rightarrow> [])) (\<lambda>_ _. False) w"
proof -
  show "wp ((case n of Some net \<Rightarrow> ignore_m (net_cleanup E net) | None \<Rightarrow> return_m ()) :: (world, 'e, unit) eio)
     (\<lambda>_ t. events t = events w @ (case n of Some n \<Rightarrow> [Exec ''ip'' [''link'', ''delete'', nw_host_veth n]] | None \<Rightarrow> [])) (\<lambda>_ _. False) w"
    by (cases n) (auto simp: net_cleanup_def intro!: wp_mono [OF net_run_events])
  show "wp ((case c of Some cg \<Rightarrow> Cgroup_cleanup E (Cgroup_open cg) | None \<Rightarrow> return_m ()) :: (world, 'e, unit) eio)
     (\<lambda>_ t. events t = events w @ (case c of Some c \<Rightarrow> [CgRmdir (path_join CGROUP_ROOT c)] | None \<Rightarrow> [])) (\<lambda>_ _. False) w"
    by (cases c) (auto simp: Cgroup_cleanup_def Cgroup_open_def intro!: wp_mono [OF cg_rmdir_events])
  have "wp (wait_for_exit E pid 2000 :: (world, 'e, unit) eio) (\<lambda>_ t. events t = events w @ [Kill pid ''SIGKILL'', Reap pid]) (\<lambda>_ _. False) u"
    if "events u = events w @ [Kill pid ''SIGKILL'', Reap pid]" for u pid
    using that by (intro wp_mono [OF wait_for_exit_wp]) auto
  then show "wp ((case p of Some pid \<Rightarrow> bind_m (kill_sig E pid ''SIGKILL'') (\<lambda>_. bind_m (reap_nohang E pid) (\<lambda>_. wait_for_exit E pid 2000))
         | None \<Rightarrow> return_m ()) :: (world, 'e, unit) eio)
     (\<lambda>_ t. events t = events w @ (case p of Some p \<Rightarrow> [Kill p ''SIGKILL'', Reap p] | None \<Rightarrow> [])) (\<lambda>_ _. False) w"
    by (cases p) (simp, simp add: wp_def kill_sig_def reap_nohang_def bind_m_def split: prod.splits sum.splits)
qed

lemma rollback_run_wp:
  "wp (rollback_run E rb :: (world, 'e, Rollback) eio)
     (\<lambda>rb' t. \<not> rb_armed rb' \<and> (if rb_armed rb then events t = events w @ rollback_requests rb else t = w)) (\<lambda>_ _. False) w"
proof -
  let ?Q = "\<lambda>rb' t. \<not> rb_armed rb' \<and> events t = events w @ rollback_requests rb"
  have staging: "wp (bind_m (ignore_m (fs_remove_dir_all E d)) (\<lambda>_. return_m (rb\<lparr>rb_pid := None, rb_cgroup := None, rb_network := None, rb_armed := False\<rparr>))
      :: (world, 'e, Rollback) eio) ?Q (\<lambda>_ _. False) u" if "events u = events w @ rollback_requests rb" for u d
  proof -
    have "keeps (\<lambda>t. events t = events w @ rollback_requests rb) (fs_remove_dir_all E d)"
      by (rule mc_blind) (simp add: fs_blind_def)
    from keeps_wp [OF this, of u] that show ?thesis by simp (erule wp_mono; simp)
  qed
  show ?thesis
  proof (cases "rb_armed rb")
    case True
    show ?thesis
      unfolding rollback_run_def using True
      by (simp del: wp_bind)
        (rule wp_seq [OF rollback_parts(1)], rule wp_seq [OF rollback_parts(2)], rule wp_seq [OF rollback_parts(3)],
         rule staging, simp add: rollback_requests_def)
  qed (simp add: rollback_run_def)
qed

text \<open>
  C36: Undoing a failed restore never fails, and it makes exactly these requests in this order: the
  network interface is deleted, the restored process is killed and reaped, and only after the wait
  for its exit its control group is removed; nothing that was not registered is touched. A list
  that was disarmed, or has been run before, does nothing.
\<close>
theorem rollback_undoes_in_reverse:
  "wp (rollback_run E rb :: (world, 'e, Rollback) eio)
     (\<lambda>rb' t. \<not> rb_armed rb' \<and> (if rb_armed rb then events t = events w @ rollback_requests rb else t = w)) (\<lambda>_ _. False) w"
  by (rule rollback_run_wp)

section \<open>Reconciliation\<close>

lemma keeps_logs_net [mc_logs]:
  "P (Exec bin args) \<Longrightarrow> keeps (logs P w) (net_run E bin args)"
  unfolding net_run_def by (intro mc_keeps mc_logs)

lemma keeps_logs_slice [mc_logs]: "keeps (logs P w) (slice_m r)"
  unfolding slice_m_def by (intro mc_keeps)

lemma keeps_logs_state [mc_logs]:
  "keeps (logs P w) (load_state E d)" "keeps (logs P w) (load_config E d)" "keeps (logs P w) (update_at E cid f)"
  unfolding load_state_def load_config_def by (intro mc_keeps mc_logs keeps_blind_update fs_blind_logs)+

lemma keeps_logs_cleanup [mc_logs]:
  "P (CgRmdir (cgl_path g)) \<Longrightarrow> keeps (logs P w) (Cgroup_cleanup E g)"
  unfolding Cgroup_cleanup_def by (intro mc_keeps mc_logs)

definition may_kill :: "int option \<Rightarrow> event \<Rightarrow> bool" where
  "may_kill p e = (case e of Kill pid _ \<Rightarrow> p = Some pid | _ \<Rightarrow> True)"

lemma may_kill_simps [simp]:
  "may_kill p (Kill pid s) \<longleftrightarrow> p = Some pid" "may_kill p (Reap pid)" "may_kill p (Exec b a)" "may_kill p (CgRmdir c)"
  "may_kill p (CgMkdir c)" "may_kill p (CgWrite c v)"
  by (simp_all add: may_kill_def)

text \<open>The process that sweeping kills, if any.\<close>

definition sweep_target :: "'a kstate_scheme \<Rightarrow> ContainerState \<Rightarrow> int option" where
  "sweep_target w st = (case cs_pid st of Some p \<Rightarrow> if pid_alive w p then Some p else None | None \<Rightarrow> None)"

lemma sweep_wp:
  assumes "only_tick w u"
  shows "wp (sweep E cid st) (\<lambda>_ t. logs (may_kill (sweep_target w st)) w t) (\<lambda>_ t. logs (may_kill (sweep_target w st)) w t) u"
proof -
  let ?L = "logs (may_kill (sweep_target w st)) w"
  have u: "?L u"
    using logs_cong [of u w] only_tick_same(4) [OF assms] by simp
  have alive: "pid_alive u p = pid_alive w p" for p
    by (rule pid_alive_cong) (rule only_tick_same [OF assms])
  have kill: "wp (bind_m (kill_sig E pid ''SIGKILL'') (\<lambda>_. wait_for_exit E pid 2000)) (\<lambda>_. ?L) (\<lambda>_. ?L) u"
    if "sweep_target w st = Some pid" for pid
    by (rule keeps_wp [where P = ?L], use that in \<open>intro mc_keeps mc_logs; simp\<close>, rule u)
  have first: "wp (case cs_pid st of
                Some pid \<Rightarrow>
                  bind_m (get_m (\<lambda>w. pid_alive w pid)) (\<lambda>alive.
                  if alive then bind_m (kill_sig E pid ''SIGKILL'') (\<lambda>_. wait_for_exit E pid 2000) else return_m ())
              | None \<Rightarrow> return_m ()) (\<lambda>_. ?L) (\<lambda>_. ?L) u"
    using kill u by (auto simp: alive sweep_target_def simp del: wp_bind split: option.splits)
      (auto simp: alive wp_bind [of "get_m f" for f] simp del: wp_bind)
  have rest: "keeps ?L (bind_m (try_m (load_config E (for_id E cid))) (\<lambda>r.
      bind_m (case r of
                Inr cfg \<Rightarrow>
                  bind_m (Cgroup_cleanup E (Cgroup_open (cc_id cfg))) (\<lambda>_.
                  if network cfg then cleanup_by_id E (short_id cfg) else return_m ())
              | Inl _ \<Rightarrow> return_m ()) (\<lambda>_.
      ignore_m (fs_remove_dir_all E (resolve E (staging_dir (for_id E cid)))))))"
    unfolding cleanup_by_id_def by (intro mc_keeps mc_logs; simp)
  show ?thesis
    unfolding sweep_def Let_def by (rule wp_seq [OF first], rule keeps_wp [OF rest])
qed

text \<open>What reconciling leaves behind: nothing new if the record was settled, else a settled record.\<close>

definition settled :: "'b senv_scheme \<Rightarrow> string \<Rightarrow> world \<Rightarrow> ContainerState \<Rightarrow> world \<Rightarrow> bool" where
  "settled E cid w st t \<longleftrightarrow>
     (if stale w st
      then (\<exists>u. stores E cid (\<lambda>r. cs_pid r = None
               \<and> cs_status r = as_str (if has_snapshot E (for_id E cid) st u then Checkpointed else Failed)) t
             \<and> (\<forall>q. q \<noteq> resolve E (state_file (for_id E cid)) \<longrightarrow> fget t q = fget u q))
          \<and> logs (may_kill (sweep_target w st)) w t
      else only_tick w t)"

lemma load_state_tick:
  "wp (load_state E (for_id E cid)) (\<lambda>st t. content_of E cid w = Some st \<and> only_tick w t) (\<lambda>_ t. only_tick w t) w"
  by (rule wp_mono [OF wp_conj [OF load_state_spec keeps_wp [OF keeps_only_tick_loads(1), of w w]]]) auto

lemma stale_cong: "procs t = procs w \<Longrightarrow> stale t st = stale w st"
  using pid_alive_cong [of t w] by (cases "cs_pid st") (simp_all add: stale_def)

lemma stores_mono: "stores E cid P t \<Longrightarrow> (\<And>r. P r \<Longrightarrow> Q r) \<Longrightarrow> stores E cid Q t"
  unfolding stores_def by blast

lemma reconcile_wp:
  "wp (reconcile E cid)
     (\<lambda>_ t. if path_exists w (resolve E (sd_root (for_id E cid))) then \<exists>st. content_of E cid w = Some st \<and> settled E cid w st t else t = w)
     (\<lambda>_ t. only_tick w t \<or> (\<exists>st. content_of E cid w = Some st \<and> stale w st \<and> logs (may_kill (sweep_target w st)) w t)) w"
    (is "wp _ ?Q ?R w")
proof (cases "path_exists w (resolve E (sd_root (for_id E cid)))")
  case ex: True
  have step: "wp (bind_m (sweep E cid st) (\<lambda>_. bind_m (get_m (has_snapshot E (for_id E cid) st)) (\<lambda>snap.
      update_at E cid (reconciled_update snap)))) ?Q ?R u"
    if u: "only_tick w u" and st: "content_of E cid w = Some st" "stale w st" for u st
    unfolding wp_bind wp_get
  proof (rule wp_mono [OF sweep_wp [OF u]])
    fix a v
    assume v: "logs (may_kill (sweep_target w st)) w v"
    show "wp (update_at E cid (reconciled_update (has_snapshot E (for_id E cid) st v))) ?Q ?R v"
    proof (rule wp_mono [OF wp_conj [OF update_at_stores keeps_wp [OF keeps_logs_state(3) v]]], goal_cases)
      case (1 a t)
      then have "stores E cid (\<lambda>r. cs_pid r = None
          \<and> cs_status r = as_str (if has_snapshot E (for_id E cid) st v then Checkpointed else Failed)) t"
        by (elim conjE stores_mono) (auto simp: reconciled_update_def)
      with 1 st(2) have "settled E cid w st t"
        unfolding settled_def by (simp only: if_True) blast
      with ex st(1) show ?case by (simp only: if_True) blast
    qed (use st in auto)
  qed (use st in auto)
  have "wp (bind_m (load_state E (for_id E cid)) (\<lambda>st. bind_m (get_m (\<lambda>w. stale w st)) (\<lambda>s. if \<not> s then return_m ()
      else bind_m (sweep E cid st) (\<lambda>_. bind_m (get_m (has_snapshot E (for_id E cid) st)) (\<lambda>snap.
      update_at E cid (reconciled_update snap)))))) ?Q ?R w"
    unfolding wp_bind [of "load_state E d" for d]
  proof (rule wp_mono [OF load_state_tick], goal_cases)
    case (1 st u)
    then have "stale u st = stale w st"
      by (intro stale_cong) (simp add: only_tick_same)
    with 1 step [of u st] ex show ?case
      by (cases "stale w st") (auto simp: settled_def simp del: wp_bind simp add: wp_bind [of "get_m f" for f])
  qed simp
  with ex show ?thesis
    unfolding reconcile_def Let_def dir_exists_def wp_bind [of "get_m f" for f] wp_get by simp
qed (simp add: reconcile_def dir_exists_def Let_def)

text \<open>
  C21: Reconciling settles a container. If its record was in order, meaning neither half-way through
  an operation nor running with a dead process, nothing happens. Otherwise the record it writes has
  no process and says checkpointed exactly if a snapshot file exists (the recorded one or the
  latest) and failed if none does; and the only process ever signalled on the way is the one
  recorded, if it was alive.
\<close>
theorem reconcile_settles:
  "wp (reconcile E cid)
     (\<lambda>_ t. if path_exists w (resolve E (sd_root (for_id E cid))) then \<exists>st. content_of E cid w = Some st \<and> settled E cid w st t else t = w)
     (\<lambda>_ t. only_tick w t \<or> (\<exists>st. content_of E cid w = Some st \<and> stale w st \<and> logs (may_kill (sweep_target w st)) w t)) w"
  by (rule reconcile_wp)

section \<open>Admission\<close>

text \<open>The record says that the container runs, and it does.\<close>

definition runs :: "'b senv_scheme \<Rightarrow> string \<Rightarrow> world \<Rightarrow> bool" where
  "runs E cid w \<longleftrightarrow> (\<exists>st pid. content_of E cid w = Some st \<and> cs_is st Running \<and> cs_pid st = Some pid \<and> pid_alive w pid)"

lemma runs_tick: "only_tick w t \<Longrightarrow> runs E cid t = runs E cid w"
  using content_of_cong [OF only_tick_fget, of w t E cid] pid_alive_cong [OF only_tick_same(2), of w t]
  by (simp add: runs_def)

lemma runs_not_stale: "runs E cid w \<Longrightarrow> content_of E cid w = Some st \<Longrightarrow> \<not> stale w st"
  by (auto simp: runs_def cs_is_def as_str_def stale_def)

lemma rs_admit_live:
  assumes "runs E cid w"
  shows "wp (rs_admit E cid opts) (\<lambda>_ _. False) (\<lambda>_ t. only_tick w t) w"
proof -
  obtain st pid where r: "content_of E cid w = Some st" "cs_is st Running" "cs_pid st = Some pid" "pid_alive w pid"
    using assms by (auto simp: runs_def)
  have "wp (bind_m (load_state E (for_id E cid)) (\<lambda>st.
        bind_m (get_m (\<lambda>w. case cs_pid st of Some pid \<Rightarrow> cs_is st Running \<and> pid_alive w pid | None \<Rightarrow> False)) (\<lambda>live.
        if live then throw_m (e st) else resolve_snapshot E (for_id E cid) st opts)))
      (\<lambda>_ _. False) (\<lambda>_ t. only_tick w t) w" for e
    unfolding wp_bind [of "load_state E d" for d]
  proof (rule wp_mono [OF load_state_tick], goal_cases)
    case (1 st' u)
    then have "pid_alive u pid"
      using r(4) pid_alive_cong [of u w pid] by (simp add: only_tick_same)
    with 1 r show ?case by simp
  qed simp
  note load = this
  show ?thesis
    unfolding rs_admit_def Let_def dir_exists_def wp_bind [of "get_m f" for f] wp_get
    by (cases "path_exists w (resolve E (sd_root (for_id E cid)))", simp_all only: not_True_eq_False not_False_eq_True if_True if_False)
      (rule load, simp)
qed

text \<open>
  C14: A container that runs is never restored a second time: if its record says running and the
  recorded process is alive, restoring it fails, whatever snapshot was asked for, and leaves the
  host exactly as it was (no file changed, no request made).
\<close>
theorem restore_refuses_live_container:
  assumes "runs E cid w"
  shows "wp (restore E cid opts) (\<lambda>_ _. False) (\<lambda>_ t. only_tick w t) w"
proof -
  have sweep: "wp (reconcile E cid) (\<lambda>_ t. only_tick w t) (\<lambda>_ t. only_tick w t) w"
    by (rule wp_mono [OF reconcile_wp])
      (use runs_not_stale [OF assms] in \<open>auto simp: settled_def split: if_splits\<close>)
  have admit: "wp (rs_admit E cid opts) (\<lambda>_ _. False) (\<lambda>_ t. only_tick w t) u" if u: "only_tick w u" for u
    by (rule wp_mono [OF rs_admit_live]) (use assms runs_tick [OF u] only_tick_trans [OF u] in auto)
  show ?thesis
    unfolding restore_def Let_def wp_bind [of "get_m f" for f] wp_get
    by (rule wp_seq [OF sweep], rule wp_seq [OF admit], assumption, simp)
qed

section \<open>Files that a restore leaves alone\<close>

text \<open>The kernel and the programs it runs do not change the files in \<open>S\<close>.\<close>

definition leaves_alone :: "'b env_scheme \<Rightarrow> (fspath \<Rightarrow> bool) \<Rightarrow> bool" where
  "leaves_alone E S \<longleftrightarrow>
     (\<forall>k q. S q \<longrightarrow>
        (\<forall>bin args. fget (snd (k_exec E bin args k)) q = fget k q) \<and> (\<forall>pid sig. fget (k_kill E pid sig k) q = fget k q)
      \<and> (\<forall>pid. fget (k_reap E pid k) q = fget k q) \<and> fget (k_sleep E k) q = fget k q
      \<and> (\<forall>p. fget (snd (k_cg_mkdir E p k)) q = fget k q) \<and> (\<forall>p. fget (snd (k_cg_rmdir E p k)) q = fget k q)
      \<and> (\<forall>p v. fget (snd (k_cg_write E p v k)) q = fget k q))"

lemma same_files_put: "same_files S g (put_kpart k t) \<longleftrightarrow> (\<forall>q. S q \<longrightarrow> fget k q = g q)"
  by (simp add: same_files_def)

lemma same_files_log_event [simp]: "same_files S g (log_event e t) = same_files S g t"
  by (simp add: same_files_def)

lemma keeps_same_kernel:
  assumes "\<And>k q. S q \<Longrightarrow> fget (snd (f k)) q = fget k q"
  shows "keeps (same_files S g) (kernel e f)"
proof (rule keepsI)
  fix w
  assume "same_files S g w"
  then have "S q \<Longrightarrow> fget (snd (f (kpart w))) q = g q" for q
    using assms [of q "kpart w"] by (simp add: same_files_def)
  then show "same_files S g (snd (kernel e f w))"
    by (simp add: kernel_def same_files_put split_beta)
qed

lemma keeps_same_requests [mc_same]:
  assumes "leaves_alone E S"
  shows "keeps (same_files S g) (exec_cmd E bin args)" "keeps (same_files S g) (cg_mkdir E p)"
    "keeps (same_files S g) (cg_rmdir E p)" "keeps (same_files S g) (cg_write E p v)"
  unfolding exec_cmd_def cg_mkdir_def cg_rmdir_def cg_write_def
  by (rule keeps_same_kernel; use assms in \<open>simp add: leaves_alone_def\<close>)+

lemma keeps_same_signals [mc_same]:
  assumes "leaves_alone E S"
  shows "keeps (same_files S g) (kill_sig E pid sig)" "keeps (same_files S g) (reap_nohang E pid)"
    "keeps (same_files S g) (thread_sleep E)"
proof -
  show "keeps (same_files S g) (kill_sig E pid sig)" "keeps (same_files S g) (reap_nohang E pid)"
    "keeps (same_files S g) (thread_sleep E)"
    using assms
    by (intro keepsI; simp add: kill_sig_def reap_nohang_def thread_sleep_def same_files_put leaves_alone_def same_files_def)+
qed

lemma keeps_same_await [mc_same]:
  assumes "leaves_alone E S"
  shows "keeps (same_files S g) (await_loop E pid d n)" "keeps (same_files S g) (wait_for_exit E pid k)"
proof -
  show await: "keeps (same_files S g) (await_loop E pid d n)" for d n
    by (induction n) (auto intro!: mc_keeps mc_same assms)
  show "keeps (same_files S g) (wait_for_exit E pid k)"
    unfolding wait_for_exit_def by (intro mc_keeps await)
qed

lemma keeps_same_net [mc_same]:
  assumes "leaves_alone E S"
  shows "keeps (same_files S g) (net_run E bin args)" "keeps (same_files S g) (ensure_bridge E)"
    "keeps (same_files S g) (net_setup E sid pid i)" "keeps (same_files S g) (net_cleanup E n)"
    "keeps (same_files S g) (cleanup_by_id E sid)"
proof -
  show run: "keeps (same_files S g) (net_run E bin args)" for bin args
    unfolding net_run_def by (intro mc_keeps mc_same assms)
  show bridge: "keeps (same_files S g) (ensure_bridge E)"
    unfolding ensure_bridge_def by (intro mc_keeps mc_same assms run)
  show "keeps (same_files S g) (net_setup E sid pid i)" "keeps (same_files S g) (net_cleanup E n)"
    "keeps (same_files S g) (cleanup_by_id E sid)"
    unfolding net_setup_def net_cleanup_def cleanup_by_id_def slice_m_def by (intro mc_keeps run bridge)+
qed

lemma keeps_same_cgroup [mc_same]:
  assumes "leaves_alone E S"
  shows "keeps (same_files S g) (Cgroup_create E cid)" "keeps (same_files S g) (Cgroup_apply E c r)"
    "keeps (same_files S g) (add_process E c pid)" "keeps (same_files S g) (Cgroup_cleanup E c)"
proof -
  have wr: "keeps (same_files S g) (Cgroup_write E c n v)" for n v
    unfolding Cgroup_write_def cg_err_def by (intro mc_keeps mc_same assms)
  have delegation: "keeps (same_files S g) (ensure_delegation E)"
    unfolding ensure_delegation_def cg_err_def cg_read_def by (intro mc_keeps mc_same assms)
  show "keeps (same_files S g) (Cgroup_create E cid)" "keeps (same_files S g) (Cgroup_apply E c r)"
    "keeps (same_files S g) (add_process E c pid)" "keeps (same_files S g) (Cgroup_cleanup E c)"
    unfolding Cgroup_create_def Cgroup_apply_def add_process_def Cgroup_cleanup_def cg_err_def
    by (intro mc_keeps mc_same assms wr delegation)+
qed

lemma keeps_same_criu [mc_same]:
  assumes "leaves_alone E S"
  shows "keeps (same_files S g) (criu_version E)"
    "\<not> S (resolve E (ro_pidfile opts)) \<Longrightarrow> keeps (same_files S g) (criu_restore E opts)"
proof -
  show "keeps (same_files S g) (criu_version E)"
    unfolding criu_version_def by (intro mc_keeps mc_same assms)
  have run: "keeps (same_files S g) (criu_run E bin args st log)" for bin args st log
    unfolding criu_run_def tail_log_def by (intro mc_keeps mc_same assms)
  show "keeps (same_files S g) (criu_restore E opts)" if "\<not> S (resolve E (ro_pidfile opts))"
    unfolding criu_restore_def by (intro mc_keeps mc_same run that)
qed

text \<open>
  Files that neither the kernel nor a restore of \<open>cid\<close> has any business with: outside its staging
  directory, and neither its state file nor its output files.
\<close>

definition spared :: "'b senv_scheme \<Rightarrow> string \<Rightarrow> (fspath \<Rightarrow> bool) \<Rightarrow> (fspath \<Rightarrow> node option) \<Rightarrow> bool" where
  "spared E cid S g \<longleftrightarrow> leaves_alone E S \<and>
     (\<forall>q. S q \<longrightarrow> g q \<noteq> None \<and> \<not> under (resolve E (staging_dir (for_id E cid))) q
        \<and> q \<noteq> resolve E (state_file (for_id E cid))
        \<and> q \<noteq> resolve E (path_join (io_dir (for_id E cid)) ''stdout'') \<and> q \<noteq> resolve E (path_join (io_dir (for_id E cid)) ''stderr''))"

lemma sparedD:
  assumes "spared E cid S g"
  shows "leaves_alone E S" "S q \<Longrightarrow> g q \<noteq> None" "S q \<Longrightarrow> \<not> under (resolve E (staging_dir (for_id E cid))) q"
    "\<not> S (resolve E (state_file (for_id E cid)))"
    "\<not> S (resolve E (path_join (io_dir (for_id E cid)) ''stdout''))" "\<not> S (resolve E (path_join (io_dir (for_id E cid)) ''stderr''))"
  using assms by (auto simp: spared_def simp del: resolve_dir_files)

lemma keeps_same_loads [mc_same]:
  "keeps (same_files S g) (load_state E d)" "keeps (same_files S g) (load_config E d)"
  unfolding load_state_def load_config_def by (intro mc_keeps mc_same)+

lemma keeps_same_mkdir: "spared E cid S g \<Longrightarrow> keeps (same_files S g) (fs_create_dir_all E p)"
  by (rule keeps_same_files_mkdir) (auto dest: sparedD(2))

lemma keeps_same_staging: "spared E cid S g \<Longrightarrow> keeps (same_files S g) (fs_remove_dir_all E (resolve E (staging_dir (for_id E cid))))"
  by (rule keeps_same_files_rmdir) (rule sparedD(3))

lemma keeps_same_update: "spared E cid S g \<Longrightarrow> keeps (same_files S g) (update_at E cid f)"
  unfolding update_at_def now_m_def save_state_def by (intro mc_keeps mc_same sparedD(4))

lemma keeps_same_sweep:
  assumes "spared E cid S g"
  shows "keeps (same_files S g) (sweep E cid st)" "keeps (same_files S g) (reconcile E cid)"
    "keeps (same_files S g) (rs_admit E cid opts)"
proof -
  note a = sparedD(1) [OF assms]
  show sweep: "keeps (same_files S g) (sweep E cid st)" for st
    unfolding sweep_def Let_def by (intro mc_keeps mc_same a keeps_same_staging [OF assms])
  show "keeps (same_files S g) (reconcile E cid)"
    unfolding reconcile_def Let_def dir_exists_def by (intro mc_keeps mc_same sweep keeps_same_update [OF assms])
  show "keeps (same_files S g) (rs_admit E cid opts)"
    unfolding rs_admit_def resolve_snapshot_def Let_def dir_exists_def by (intro mc_keeps mc_same)
qed

lemma keeps_same_extract:
  assumes "spared E cid S g"
  shows "keeps (same_files S g) (extract_all E r (staging_dir (for_id E cid)))"
proof (rule keepsI)
  fix s
  assume s: "same_files S g s"
  have "fget (snd (extract_all E r (staging_dir (for_id E cid)) s)) q = g q" if q: "S q" for q
  proof -
    have "fget s q = g q" using s q by (simp add: same_files_def)
    with sparedD(2,3) [OF assms q] extract_all_outside [of E "staging_dir (for_id E cid)" q s r] show ?thesis by simp
  qed
  then show "same_files S g (snd (extract_all E r (staging_dir (for_id E cid)) s))"
    by (simp add: same_files_def)
qed

lemma keeps_same_verify:
  assumes "leaves_alone E S"
  shows "keeps (same_files S g) (rs_verify E path)"
  unfolding rs_verify_def snapshot_open_def check_compatible_def
  by (intro mc_keeps mc_same assms keeps_implements [OF open_file_implements] keeps_implements [OF verify_implements])

lemma keeps_same_prepare:
  assumes "spared E cid S g"
  shows "keeps (same_files S g) (rs_prepare E cid cfg)"
proof -
  note mk = keeps_same_mkdir [OF assms] and a = sparedD(1) [OF assms]
  have io: "keeps (same_files S g) (restore_io_file E staging (for_id E cid) name)" if "name \<in> {''stdout'', ''stderr''}" for staging name
    unfolding restore_io_file_def Let_def using that sparedD(5,6) [OF assms] by (intro mc_keeps mc_same) auto
  have "keeps (same_files S g) (restore_io_files E staging (for_id E cid))" for staging
    unfolding restore_io_files_def forM_m.simps by (intro mc_keeps mk io) simp_all
  moreover have "keeps (same_files S g) (prepare_mount_points E cfg l)" for l
    unfolding prepare_mount_points_def prepare_mount_def by (intro mc_keeps mk)
  ultimately show ?thesis
    unfolding rs_prepare_def set_status_def Let_def by (intro mc_keeps mc_same a keeps_same_update [OF assms])
qed

lemma keeps_same_rollback:
  assumes "spared E cid S g" and "rb_id rb = cid"
  shows "keeps (same_files S g) (rollback_run E rb)"
  unfolding rollback_run_def assms(2)
  by (intro mc_keeps mc_same sparedD(1) [OF assms(1)] keeps_same_staging [OF assms(1)])

lemma keeps_same_revive:
  assumes "spared E cid S g"
  shows "keeps (same_files S g) (rs_revive E cid cfg opts c)"
proof -
  note a = sparedD(1) [OF assms]
  have pidfile: "\<not> S (resolve E (path_join (staging_dir (for_id E cid)) ''restored.pid''))"
    using sparedD(3) [OF assms, of "resolve E (staging_dir (for_id E cid)) @ [''restored.pid'']"]
    by (auto simp: simple_name_def simp del: resolve_dir_files)
  have engine: "keeps (same_files S g) (criu_restore E \<lparr>ro_images_dir = i, ro_layout = l,
      ro_pidfile = path_join (staging_dir (for_id E cid)) ''restored.pid'', ro_tcp_established = b\<rparr>)" for i l b
    by (rule keeps_same_criu [OF a]) (simp add: pidfile del: resolve_dir_files)
  have undo: "keeps (same_files S g) (rs_undo E cid rb e)" if "rb_id rb = cid" for rb e
    unfolding rs_undo_def set_status_def by (intro mc_keeps keeps_same_rollback [OF assms that] keeps_same_update [OF assms])
  have built: "keeps (same_files S g) (rs_built E cfg opts c pid rb)" for pid rb
    unfolding rs_built_def assert_isolated_from_host_def by (intro mc_keeps mc_same a)
  show ?thesis
    unfolding rs_revive_def Let_def by (intro mc_keeps engine undo built) (simp_all add: Rollback_new_def)
qed

lemma keeps_same_restore:
  fixes E :: "'b snenv_scheme"
  assumes "spared E cid S g"
  shows "keeps (same_files S g) (restore E cid opts)"
proof -
  note a = sparedD(1) [OF assms] and st = keeps_same_staging [OF assms]
  have unpack: "keeps (same_files S g) (rs_unpack E (staging_dir (for_id E cid)) r)" for r
    unfolding rs_unpack_def by (intro mc_keeps st keeps_same_extract [OF assms])
  have commit: "keeps (same_files S g) (rs_commit E cid m pid)" for m pid
    unfolding rs_commit_def set_restored_def by (intro mc_keeps keeps_same_update [OF assms])
  have len: "keeps (same_files S g) (image_len E p)" for p
    unfolding image_len_def by (intro mc_keeps keeps_tick_only)
  show ?thesis
    unfolding restore_def Let_def since_m_def
    by (intro mc_keeps mc_same a st unpack commit len keeps_same_sweep [OF assms] keeps_same_verify keeps_same_prepare [OF assms]
        keeps_same_revive [OF assms])
qed

text \<open>
  C3: A restore never consumes the snapshot. For any file that exists, lies outside the container's
  staging directory and is neither its state file nor one of its two output files (in particular
  for a snapshot file), if the kernel and the programs it runs leave that file alone, then so does
  the whole restore, on every path through it, whatever the snapshot contains, whichever I/O calls
  fail and whether it succeeds, fails, or has to undo what it built.
\<close>
theorem restore_never_consumes_snapshot:
  fixes E :: "'b snenv_scheme"
  assumes "leaves_alone E (\<lambda>q. q = p)" and "fget w p \<noteq> None"
    and "\<not> under (resolve E (staging_dir (for_id E cid))) p" and "p \<noteq> resolve E (state_file (for_id E cid))"
    and "p \<noteq> resolve E (path_join (io_dir (for_id E cid)) ''stdout'')" and "p \<noteq> resolve E (path_join (io_dir (for_id E cid)) ''stderr'')"
  shows "fget (snd (restore E cid opts w)) p = fget w p"
proof -
  have "spared E cid (\<lambda>q. q = p) (fget w)"
    using assms by (simp add: spared_def del: resolve_dir_files)
  from keepsD [OF keeps_same_restore [OF this], of w] show ?thesis
    by (simp add: same_files_def)
qed

section \<open>Revival\<close>

definition ns_kinds :: "string list" where
  "ns_kinds = [''pid'', ''mnt'', ''uts'', ''ipc'', ''net'']"

text \<open>
  The process lives in \<open>u\<close>, and once it has been added to its control group it shares none of the
  checked namespaces with the host.
\<close>

definition revived_in :: "'b env_scheme \<Rightarrow> CgroupLeaf \<Rightarrow> int \<Rightarrow> world \<Rightarrow> bool" where
  "revived_in E c pid u \<longleftrightarrow>
     pid_alive u pid \<and> (\<forall>kind\<in>set ns_kinds. \<not> shares_ns E (snd (add_process E c pid u)) pid kind)"

lemma assert_isolated_wp:
  "wp (assert_isolated_from_host E pid)
     (\<lambda>_ t. t = w \<and> (\<forall>kind\<in>set ns_kinds. \<not> shares_ns E w pid kind))
     (\<lambda>_ t. t = w \<and> (\<exists>kind\<in>set ns_kinds. shares_ns E w pid kind)) w"
  by (auto simp: assert_isolated_from_host_def ns_kinds_def)

lemma wp_same_end: "wp m (\<lambda>_ t. t = snd (m w)) (\<lambda>_ t. t = snd (m w)) w"
  by (simp add: wp_def split: prod.splits sum.splits)

lemma rs_built_wp: "wp (rs_built E cfg opts c pid rb) (\<lambda>_ _. revived_in E c pid w) (\<lambda>_ _. True) w"
proof -
  have iso: "wp (bind_m (assert_isolated_from_host E pid) (\<lambda>_. m)) (\<lambda>_ _. revived_in E c pid w) (\<lambda>_ _. True) v"
    if "pid_alive w pid" "v = snd (add_process E c pid w)" for m :: "(string option \<times> Rollback) io" and v
    unfolding wp_bind
    by (rule wp_mono [OF assert_isolated_wp]) (use that in \<open>auto simp: revived_in_def intro!: wp_TrueI\<close>)
  have add: "wp (add_process E c pid) (\<lambda>_ t. t = snd (add_process E c pid w)) (\<lambda>_ _. True) w"
    by (rule wp_mono [OF wp_same_end]) simp_all
  show ?thesis
    unfolding rs_built_def wp_bind [of "get_m f" for f] wp_get
    by (cases "pid_alive w pid", simp_all only: not_True_eq_False not_False_eq_True if_True if_False wp_throw)
      (rule wp_seq [OF add], rule iso)
qed

lemma rollback_events:
  assumes "rb_armed rb"
  shows "wp (rollback_run E rb :: (world, 'e, Rollback) eio) (\<lambda>_ t. \<exists>es. events t = es @ rollback_requests rb) (\<lambda>_ _. False) w"
  by (rule wp_mono [OF rollback_run_wp]) (use assms in auto)

lemma rs_undo_wp:
  assumes "rb_armed rb"
  shows "wp (rs_undo E cid rb e) (\<lambda>_ _. False) (\<lambda>_ t. \<exists>es. events t = es @ rollback_requests rb) w"
  unfolding rs_undo_def wp_bind [of "rollback_run E rb"]
proof (rule wp_mono [OF rollback_events [OF assms]], goal_cases)
  case (1 a t)
  then obtain es where es: "events t = es @ rollback_requests rb" by blast
  have "keeps (\<lambda>u. events u = events t) (set_status E cid Checkpointed)"
    unfolding set_status_def by (rule keeps_blind_update) (simp add: fs_blind_def)
  from keeps_wp [OF this, of t] show ?case
    by (simp add: es) (erule wp_mono; auto)
qed simp

definition undo_requests :: "string \<Rightarrow> int option \<Rightarrow> event list" where
  "undo_requests cg p =
     (case p of Some pid \<Rightarrow> [Kill pid ''SIGKILL'', Reap pid] | None \<Rightarrow> []) @ [CgRmdir (path_join CGROUP_ROOT cg)]"

definition engine_options :: "'b env_scheme \<Rightarrow> string \<Rightarrow> ContainerConfig \<Rightarrow> RsOptions \<Rightarrow> RestoreOptions" where
  "engine_options E cid cfg opts =
     \<lparr>ro_images_dir = path_join (staging_dir (for_id E cid)) ''images'', ro_layout = layout_for cfg (for_id E cid),
      ro_pidfile = path_join (staging_dir (for_id E cid)) ''restored.pid'', ro_tcp_established = rs_allow_tcp opts\<rparr>"

definition engine_pid :: "'b env_scheme \<Rightarrow> RestoreOptions \<Rightarrow> world \<Rightarrow> int option" where
  "engine_pid E ro w = (case fst (criu_restore E ro w) of Inr pid \<Rightarrow> Some pid | Inl _ \<Rightarrow> None)"

lemma rs_revive_wp:
  "wp (rs_revive E cid cfg opts c)
     (\<lambda>(pid, _) _. engine_pid E (engine_options E cid cfg opts) w = Some pid
        \<and> revived_in E c pid (snd (criu_restore E (engine_options E cid cfg opts) w)))
     (\<lambda>_ t. \<exists>es. events t = es @ undo_requests (cc_id cfg) (engine_pid E (engine_options E cid cfg opts) w)) w"
proof -
  define ro where "ro = engine_options E cid cfg opts"
  let ?u = "snd (criu_restore E ro w)"
  let ?Q = "\<lambda>(pid, _) _. engine_pid E ro w = Some pid \<and> revived_in E c pid ?u"
  let ?R = "\<lambda>_ t. \<exists>es. events t = es @ undo_requests (cc_id cfg) (engine_pid E ro w)"
  have undo: "wp (rs_undo E cid ((Rollback_new cid)\<lparr>rb_cgroup := Some (cc_id cfg), rb_pid := engine_pid E ro w\<rparr>) e) Q ?R u" for e Q u
    by (rule wp_mono [OF rs_undo_wp]) (auto simp: Rollback_new_def rollback_requests_def undo_requests_def)
  have built: "wp (bind_m (try_m (rs_built E cfg opts c pid rb)) (\<lambda>built.
          case built of Inl e \<Rightarrow> rs_undo E cid ((Rollback_new cid)\<lparr>rb_cgroup := Some (cc_id cfg), rb_pid := engine_pid E ro w\<rparr>) e
          | Inr (ip, _) \<Rightarrow> return_m (pid, ip))) ?Q ?R ?u" if "engine_pid E ro w = Some pid" for pid rb
    unfolding wp_bind [of "try_m m" for m] wp_try
    by (rule wp_mono [OF rs_built_wp]) (use that undo in \<open>auto split: prod.splits\<close>)
  have run: "wp (criu_restore E ro) (\<lambda>pid t. engine_pid E ro w = Some pid \<and> t = ?u) (\<lambda>_ t. engine_pid E ro w = None \<and> t = ?u) w"
    by (cases "criu_restore E ro w") (auto simp: wp_def engine_pid_def split: sum.splits)
  have undo0: "wp (rs_undo E cid ((Rollback_new cid)\<lparr>rb_cgroup := Some (cc_id cfg)\<rparr>) e) ?Q ?R u" if "engine_pid E ro w = None" for e u
    using undo [of e ?Q u] that by (simp add: Rollback_new_def)
  show ?thesis
    unfolding rs_revive_def Let_def engine_options_def [symmetric] ro_def [symmetric] wp_bind [of "try_m (criu_restore E r)" for r] wp_try
  proof (rule wp_mono [OF run], goal_cases)
    case (1 pid t)
    with built [of pid] show ?case by (simp del: wp_bind)
  next
    case (2 e t)
    then show ?case using undo0 by (simp del: wp_bind)
  qed
qed


section \<open>Verify everything, then build\<close>

text \<open>A snapshot file that opens, whose checksum is right and that was taken on this architecture.\<close>

definition good_snapshot :: "'b snenv_scheme \<Rightarrow> world \<Rightarrow> string \<Rightarrow> bool" where
  "good_snapshot E w p \<longleftrightarrow>
     (\<exists>b r. fget w (resolve E p) = Some (File b) \<and> parse_snapshot (j_manifest E) p b = Inr r
        \<and> verify_spec r = Inr () \<and> mf_source_arch (sr_manifest r) = e_arch E)"

lemma good_snapshot_cong: "fget t = fget w \<Longrightarrow> good_snapshot E t p = good_snapshot E w p"
  by (simp add: good_snapshot_def)

lemma rs_verify_wp:
  "wp (rs_verify E p) (\<lambda>_ _. good_snapshot E w p) (\<lambda>_ t. good_snapshot E w p \<or> only_tick w t) w"
proof -
  let ?R = "\<lambda>_ t. good_snapshot E w p \<or> only_tick w t"
  have compat: "wp (bind_m (check_compatible E (sr_manifest r)) (\<lambda>_. return_m r)) (\<lambda>_ _. good_snapshot E w p) ?R u"
    if "only_tick w u" "fget w (resolve E p) = Some (File b)" "parse_snapshot (j_manifest E) p b = Inr r" "verify_spec r = Inr ()" for u b r
  proof (cases "mf_source_arch (sr_manifest r) = e_arch E")
    case True
    with that have "good_snapshot E w p" by (auto simp: good_snapshot_def)
    then show ?thesis by (auto intro!: wp_TrueI)
  qed (use that in \<open>simp add: check_compatible_def\<close>)
  have check: "wp (bind_m (verify E r) (\<lambda>_. bind_m (check_compatible E (sr_manifest r)) (\<lambda>_. return_m r))) (\<lambda>_ _. good_snapshot E w p) ?R u"
    if "only_tick w u" "fget w (resolve E p) = Some (File b)" "parse_snapshot (j_manifest E) p b = Inr r" for u b r
    unfolding wp_bind [of "verify E r"]
    by (rule wp_mono [OF implements_wp [OF verify_implements]])
      (use compat that in \<open>auto simp del: wp_bind intro: only_tick_trans\<close>)
  have "wp (snapshot_open E p) (\<lambda>r u. only_tick w u \<and> (\<exists>b. fget w (resolve E p) = Some (File b) \<and> parse_snapshot (j_manifest E) p b = Inr r))
      (\<lambda>_ t. only_tick w t) w"
    unfolding snapshot_open_def wp_bind wp_snap_err
    by (rule wp_mono [OF fs_read_wp'], rule wp_mono [OF implements_wp [OF open_file_implements]]) (auto intro: only_tick_trans)
  then have opn: "wp (snapshot_open E p) (\<lambda>r u. only_tick w u \<and> (\<exists>b. fget w (resolve E p) = Some (File b) \<and> parse_snapshot (j_manifest E) p b = Inr r)) ?R w"
    by (rule wp_mono) simp_all
  show ?thesis
    unfolding rs_verify_def by (rule wp_seq [OF opn], elim conjE exE, rule check)
qed

lemma resolve_snapshot_wp:
  "wp (resolve_snapshot E d st opts)
     (\<lambda>p t. t = w \<and> (rs_from opts = Some p \<or> cs_snapshot st = Some p \<or> p = snapshot_file d ''latest'')) (\<lambda>_ t. t = w) w"
  by (auto simp: resolve_snapshot_def split: option.splits)

lemma rs_admit_wp:
  "wp (rs_admit E cid opts)
     (\<lambda>p t. only_tick w t \<and> (\<exists>st. content_of E cid w = Some st
        \<and> (rs_from opts = Some p \<or> cs_snapshot st = Some p \<or> p = snapshot_file (for_id E cid) ''latest'')))
     (\<lambda>_ t. only_tick w t) w" (is "wp _ ?Q ?R w")
proof -
  have "wp (bind_m (load_state E (for_id E cid)) (\<lambda>st. bind_m (get_m (f st)) (\<lambda>live.
        if live then throw_m (e st) else resolve_snapshot E (for_id E cid) st opts))) ?Q ?R w" for e f
    unfolding wp_bind [of "load_state E d" for d] wp_bind [of "get_m f" for f] wp_get
    by (rule wp_mono [OF load_state_tick])
      (auto intro!: wp_mono [OF resolve_snapshot_wp])
  then show ?thesis
    unfolding rs_admit_def Let_def dir_exists_def wp_bind [of "get_m f" for f] wp_get
    by (cases "path_exists w (resolve E (sd_root (for_id E cid)))", simp_all only: not_True_eq_False not_False_eq_True if_True if_False)
      simp
qed

definition records_running :: "'b senv_scheme \<Rightarrow> string \<Rightarrow> int \<Rightarrow> world \<Rightarrow> bool" where
  "records_running E cid pid t \<longleftrightarrow>
     (\<exists>r. content_of E cid t = Some r \<and> cs_status r = as_str Running \<and> cs_pid r = Some pid
        \<and> cs_supervisor_pid r = None \<and> cs_exit_code r = None)"

lemma records_running_cong:
  "fget t (resolve E (state_file (for_id E cid))) = fget u (resolve E (state_file (for_id E cid)))
     \<Longrightarrow> records_running E cid pid t = records_running E cid pid u"
  by (simp add: records_running_def content_of_def del: resolve_dir_files)

lemma rs_commit_wp:
  assumes J: "\<And>r. json_ok (j_state E) r"
  shows "wp (rs_commit E cid m pid) (\<lambda>_ t. records_running E cid pid t) (\<lambda>_ _. True) w"
proof -
  have "wp (set_restored E cid pid) (\<lambda>_ t. records_running E cid pid t) (\<lambda>_ _. True) w"
    unfolding set_restored_def
    by (rule wp_mono [OF update_at_spec]) (use J in \<open>auto simp: records_running_def restored_update_def\<close>)
  moreover have "wp (update_at E cid (origin_update h)) (\<lambda>_ t. records_running E cid pid t) (\<lambda>_ _. True) u"
    if "records_running E cid pid u" for h u
    by (rule wp_mono [OF update_at_spec]) (use J that in \<open>auto simp: records_running_def origin_update_def\<close>)
  ultimately show ?thesis
    unfolding rs_commit_def by (auto elim!: wp_mono)
qed

lemma wp_skip: "(\<And>a t. wp (f a) Q R t) \<Longrightarrow> (\<And>e t. R e t) \<Longrightarrow> wp (bind_m m f) Q R s"
  unfolding wp_bind by (rule wp_TrueI)

lemma wp_ifI: "(b \<Longrightarrow> wp m Q R s) \<Longrightarrow> (\<not> b \<Longrightarrow> wp n Q R s) \<Longrightarrow> wp (if b then m else n) Q R s"
  by simp

lemma rs_report_wp:
  assumes "records_running E cid pid w"
  shows "wp (bind_m (ignore_m (fs_remove_dir_all E (resolve E (staging_dir (for_id E cid))))) (\<lambda>_.
        bind_m (try_m (load_state E (for_id E cid))) (\<lambda>st.
        bind_m (image_len E p) (\<lambda>len. bind_m (since_m E t0) (\<lambda>ms. return_m (f st len ms))))))
     (\<lambda>a t. records_running E cid pid t \<and> (\<exists>st len ms. a = f st len ms)) (\<lambda>_ _. True) w"
proof -
  let ?S = "\<lambda>q. q = resolve E (state_file (for_id E cid))"
  have kept: "records_running E cid pid t" if "same_files ?S (fget w) t" for t
    using that assms records_running_cong [of t E cid w pid] by (simp add: same_files_def del: resolve_dir_files)
  have "keeps (same_files ?S (fget w)) (bind_m (ignore_m (fs_remove_dir_all E (resolve E (staging_dir (for_id E cid))))) (\<lambda>_.
        bind_m (try_m (load_state E (for_id E cid))) (\<lambda>st.
        bind_m (image_len E p) (\<lambda>len. bind_m (since_m E t0) (\<lambda>ms. return_m (f st len ms))))))"
    unfolding image_len_def since_m_def by (intro mc_keeps mc_same keeps_tick_only) auto
  from keeps_wp [OF this same_files_refl] have "wp (bind_m (ignore_m (fs_remove_dir_all E (resolve E (staging_dir (for_id E cid))))) (\<lambda>_.
        bind_m (try_m (load_state E (for_id E cid))) (\<lambda>st.
        bind_m (image_len E p) (\<lambda>len. bind_m (since_m E t0) (\<lambda>ms. return_m (f st len ms))))))
      (\<lambda>_ t. records_running E cid pid t) (\<lambda>_ _. True) w"
    by (rule wp_mono) (rule kept, simp_all)
  moreover have "wp (bind_m (ignore_m (fs_remove_dir_all E (resolve E (staging_dir (for_id E cid))))) (\<lambda>_.
        bind_m (try_m (load_state E (for_id E cid))) (\<lambda>st.
        bind_m (image_len E p) (\<lambda>len. bind_m (since_m E t0) (\<lambda>ms. return_m (f st len ms))))))
      (\<lambda>a _. \<exists>st len ms. a = f st len ms) (\<lambda>_ _. True) w"
    by (rule wp_skip, rule wp_skip, rule wp_skip, rule wp_skip, subst wp_return, intro exI, rule refl, simp_all)
  ultimately show ?thesis
    by (rule wp_mono [OF wp_conj]) auto
qed

text \<open>The snapshots a restore may use: the one given, the recorded one, the latest.\<close>

definition candidate :: "'b env_scheme \<Rightarrow> string \<Rightarrow> ContainerState \<Rightarrow> RsOptions \<Rightarrow> string \<Rightarrow> bool" where
  "candidate E cid st opts p \<longleftrightarrow>
     rs_from opts = Some p \<or> cs_snapshot st = Some p \<or> p = snapshot_file (for_id E cid) ''latest''"


section \<open>Concrete restores\<close>

text \<open>A coding of all records: an injection into the numbers, written in unary.\<close>

definition record_number :: "ContainerState \<Rightarrow> nat" where
  "record_number r = to_nat
     ((cs_id r, cs_pid r, cs_status r, cs_exit_code r, cs_created_at r, cs_started_at r, cs_stopped_at r),
      (cs_snapshot r, cs_checkpointed_at r, cs_restored_at r, cs_generation r, cs_origin_host r, cs_supervisor_pid r))"

lemma inj_record_number: "inj record_number"
  by (rule injI) (simp add: record_number_def)

definition unary_json :: "ContainerState json" where
  "unary_json = \<lparr>js_to = \<lambda>r. Inr (replicate (record_number r) (CHR ''1'')), js_from = \<lambda>s. Inr (inv record_number (length s))\<rparr>"

lemma unary_json_ok: "json_ok unary_json r"
proof -
  have "list_all (\<lambda>b. b < 0x80) (as_bytes (replicate n (CHR ''1'')))" for n
    by (simp add: as_bytes_def list_all_iff)
  then show ?thesis
    by (simp add: json_ok_def unary_json_def utf8_valid_ascii inv_f_f [OF inj_record_number])
qed

definition demo_live_world :: world where
  "demo_live_world = demo_world\<lparr>procs := [42 \<mapsto> demo_proc ''42 (sh) S 1'']\<rparr>"

lemma demo_snenv_senv:
  "j_state demo_snenv = j_state demo_senv" "e_home demo_snenv = Some ''/h''" "e_home demo_senv = Some ''/h''" "e_cwd demo_senv = []"
  by (simp_all add: demo_snenv_def senv.defs snenv.defs demo_senv_def)

lemma demo_snenv_content: "content_of demo_snenv cid w = content_of demo_senv cid w"
  by (simp only: content_of_def resolve_def for_id_def home_dir_def demo_snenv_senv demo_snenv_sel)

lemma demo_live: "runs demo_snenv ''c1'' demo_live_world"
proof -
  have "pid_alive demo_live_world 42" "content_of demo_senv ''c1'' demo_live_world = Some demo_state"
    by code_simp+
  then show ?thesis
    by (simp add: runs_def demo_snenv_content) (simp add: demo_state_def cs_is_def)
qed

theorem restore_refuses_live_container_witness:
  "isl (fst (restore demo_snenv ''c1'' \<lparr>rs_from = Some ''/h/x'', rs_index = 0, rs_allow_tcp = False\<rparr> demo_live_world))"
  using restore_refuses_live_container [OF demo_live, of "\<lparr>rs_from = Some ''/h/x'', rs_index = 0, rs_allow_tcp = False\<rparr>"]
  by (simp add: wp_def split: prod.splits sum.splits)

lemma demo_state_root: "resolve demo_snenv (sd_root (for_id demo_snenv ''c1'')) = demo_dir @ [''c1'']"
proof -
  have "foldl resolve_step [] (components (''/h'' @ ''/.mincontainer/containers'' @ ''/'' @ ''c1'')) = demo_dir @ [''c1'']"
    by code_simp
  then show ?thesis
    by (simp only: resolve_def for_id_def home_dir_def demo_snenv_senv demo_snenv_sel ContainerStateDir.simps option.case)
qed

theorem restore_never_consumes_snapshot_witness:
  "fget (snd (restore demo_snenv ''c1'' \<lparr>rs_from = None, rs_index = 0, rs_allow_tcp = False\<rparr> demo_world)) [''h''] = Some Dir"
proof -
  have h: "fget demo_world [''h''] = Some Dir"
    by code_simp
  have "leaves_alone demo_snenv (\<lambda>q. q = [''h''])"
    by (simp add: leaves_alone_def demo_snenv_def senv.defs snenv.defs demo_senv_def)
  moreover have "simple_name ''stdout''" "simple_name ''stderr''"
    by (simp_all add: simple_name_def)
  ultimately show ?thesis
    using restore_never_consumes_snapshot [of demo_snenv "[''h'']" demo_world "''c1''"] h
    by (simp add: demo_state_root demo_dir_def)
qed

definition unary_env :: snenv where
  "unary_env = demo_snenv\<lparr>j_state := unary_json\<rparr>"

text \<open>A container that was checkpointed, with nothing but a recorded snapshot that does not exist.\<close>

definition demo_checkpointed :: ContainerState where
  "demo_checkpointed = demo_state\<lparr>cs_status := as_str Checkpointed, cs_pid := None, cs_snapshot := Some ''/gone''\<rparr>"

definition demo_rs_options :: RsOptions where
  "demo_rs_options = \<lparr>rs_from = None, rs_index = 0, rs_allow_tcp = False\<rparr>"

definition demo_idle_world :: world where
  "demo_idle_world = demo_world\<lparr>fs := [(demo_dir @ [''c1''], Dir),
     (demo_dir @ [''c1'', ''state.json''], File (as_bytes (replicate (record_number demo_checkpointed) (CHR ''1''))))]\<rparr>"

lemma unary_env_sel: "j_state unary_env = unary_json" "e_cwd unary_env = []" "e_home unary_env = Some ''/h''"
  by (simp_all add: unary_env_def demo_snenv_senv)

lemma unary_env_root: "resolve unary_env (sd_root (for_id unary_env ''c1'')) = demo_dir @ [''c1'']"
  using demo_state_root
  by (simp add: resolve_def for_id_def home_dir_def unary_env_sel demo_snenv_senv)


end
