(* ===== verification/Container_Facts.thy ===== *)
theory Container_Facts
  imports Container Restore_Facts
begin

text \<open>
  What \<^verbatim>\<open>src/container.rs\<close> promises about starting and ending a container: the order of the requests
  of \<open>spawn\<close>, the exit code that reaches the caller, and the three processes of a launch together.
\<close>

section \<open>The pid pipe\<close>

lemma read_write_pid: "read_pid (write_pid p) = signed_take_bit 31 p"
  by (simp add: read_pid_def write_pid_def signed_of_int)

lemma read_write_pid_pos: "0 < p \<Longrightarrow> p < 2 ^ 31 \<Longrightarrow> read_pid (write_pid p) = p"
  by (simp add: read_write_pid signed_take_bit_int_eq_self)

lemma read_no_pid: "read_pid [] = 0"
  by code_simp

lemma write_pid_ne [simp]: "write_pid p \<noteq> []"
  using length_u32_to_le [of "word_of_int p"] unfolding write_pid_def by (metis list.size(3) zero_neq_numeral)

text \<open>
  Every \<^verbatim>\<open>i32\<close> crosses the pid pipe unchanged, and a pipe that is closed before anything was
  written reads as pid 0, which the control-group tree takes to mean the writing process itself.
\<close>
theorem pid_crosses_pipe: "read_pid (write_pid (sint (v :: u32))) = sint v \<and> read_pid [] = 0"
  by (rule conjI, simp add: read_pid_def write_pid_def) (rule read_no_pid)

section \<open>Exit codes\<close>


section \<open>The order of the requests\<close>

definition veth_removal :: "NetHandle option \<Rightarrow> event list" where
  "veth_removal n = (case n of Some n \<Rightarrow> [Exec ''ip'' [''link'', ''delete'', nw_host_veth n]] | None \<Rightarrow> [])"

lemma first_number_quiet: "wp (first_number E g files) (\<lambda>_ t. t = w) (\<lambda>_ _. False) w"
proof (induction files)
  case (Cons f files)
  then show ?case by (auto simp: cg_read_def split: option.splits)
qed simp

lemma handle_finish_wp:
  "wp (handle_finish E h code wall) (\<lambda>m t. me_exit_code m = code \<and> me_id m = hd_id h
        \<and> events t = events w @ veth_removal (hd_network h) @ [CgRmdir (cgl_path (hd_cgroup h))])
     (\<lambda>_ _. False) w"
proof -
  have net: "wp (case hd_network h of Some n \<Rightarrow> ignore_m (net_cleanup E n) | None \<Rightarrow> return_m ())
      (\<lambda>_ t. events t = events u @ veth_removal (hd_network h)) (\<lambda>_ _. False) u" for u
    unfolding veth_removal_def by (rule rollback_parts)
  have cg: "wp (Cgroup_cleanup E (hd_cgroup h)) (\<lambda>_ t. events t = events u @ [CgRmdir (cgl_path (hd_cgroup h))]) (\<lambda>_ _. False) u" for u
    by (auto simp: Cgroup_cleanup_def intro!: wp_mono [OF cg_rmdir_events])
  show ?thesis
    unfolding handle_finish_def peak_memory_def cpu_usage_usec_def cg_read_def wp_bind wp_get wp_return
    by (rule wp_mono [OF first_number_quiet]) (auto intro!: wp_mono [OF net] wp_mono [OF cg])
qed

text \<open>
  C26: Waiting reaps the process that stands for the container and then, in this order, deletes its
  interface if it has one and removes its control group; the metrics carry the code of the status
  the kernel reported. If waiting itself fails nothing is torn down.
\<close>
theorem wait_reports_and_tears_down:
  "wp (handle_wait E F h)
     (\<lambda>m t. \<exists>st. fst (fk_wait F (hd_supervisor_pid h) (kpart w)) = Inr st \<and> me_exit_code m = wait_code st \<and> me_id m = hd_id h
        \<and> events t = events w @ Reap (hd_supervisor_pid h) # veth_removal (hd_network h) @ [CgRmdir (cgl_path (hd_cgroup h))])
     (\<lambda>e t. \<exists>x. fst (fk_wait F (hd_supervisor_pid h) (kpart w)) = Inl x \<and> e = Syscall ''waitpid'' x
        \<and> events t = events w @ [Reap (hd_supervisor_pid h)]) w"
  by (auto simp: handle_wait_def waitpid_def wp_kernel since_m_def split: prod.splits sum.splits
      intro!: wp_mono [OF handle_finish_wp])

definition not_release :: "event \<Rightarrow> bool" where
  "not_release e = (case e of Release \<Rightarrow> False | _ \<Rightarrow> True)"

lemma not_release_simps [simp]:
  "not_release (Exec b a)" "not_release (CgMkdir p)" "not_release (CgWrite p v)" "not_release (Fork n)" "\<not> not_release Release"
  by (simp_all add: not_release_def)

text \<open>What a computation records before the container is released, and what it adds to that.\<close>

lemma logs_wp: "keeps (logs P w) m \<Longrightarrow> logs P w u \<Longrightarrow> wp m (\<lambda>_. logs P w) (\<lambda>_. logs P w) u"
  by (rule keeps_wp)

lemma keeps_logs_cgroup [mc_logs]:
  assumes "\<And>p. P (CgMkdir p)" and "\<And>p v. P (CgWrite p v)"
  shows "keeps (logs P w) (Cgroup_create E cid)" "keeps (logs P w) (Cgroup_apply E g r)" "keeps (logs P w) (Cgroup_write E g f v)"
    "keeps (logs P w) (add_process E g pid)"
proof -
  have wr: "keeps (logs P w) (Cgroup_write E g f v)" for g f v
    unfolding Cgroup_write_def cg_err_def by (intro mc_keeps mc_logs assms)
  then show "keeps (logs P w) (Cgroup_write E g f v)" "keeps (logs P w) (add_process E g pid)" "keeps (logs P w) (Cgroup_apply E g r)"
    unfolding add_process_def Cgroup_apply_def by (intro mc_keeps wr)+
  have rd: "keeps (logs P w) (cg_read E p)" for p
    unfolding cg_read_def by (rule keeps_get)
  show "keeps (logs P w) (Cgroup_create E cid)"
    unfolding Cgroup_create_def ensure_delegation_def cg_err_def by (intro mc_keeps mc_logs rd assms)
qed

lemma keeps_logs_net_setup [mc_logs]:
  assumes "\<And>b a. P (Exec b a)" and "\<And>p v. P (CgWrite p v)"
  shows "keeps (logs P w) (net_setup E sid pid i)"
  unfolding net_setup_def ensure_bridge_def by (intro mc_keeps mc_logs assms)


lemma add_process_events:
  "wp (add_process E g pid)
     (\<lambda>_ t. events t = events w @ [CgWrite (path_join (cgl_path g) ''cgroup.procs'') (show_int pid)])
     (\<lambda>_ t. events t = events w @ [CgWrite (path_join (cgl_path g) ''cgroup.procs'') (show_int pid)]) w"
  unfolding add_process_def by (rule wp_mono [OF Cgroup_write_wp]) (simp_all add: cg_request_def)

text \<open>Since \<open>w\<close>, the process was written to the control group.\<close>

definition attached :: "CgroupLeaf \<Rightarrow> int \<Rightarrow> world \<Rightarrow> world \<Rightarrow> bool" where
  "attached g pid w t \<longleftrightarrow>
     (\<exists>es. events t = events w @ es \<and> CgWrite (path_join (cgl_path g) ''cgroup.procs'') (show_int pid) \<in> set es)"

lemma spawn_attach_wp:
  assumes "logs not_release w u"
  shows "wp (spawn_attach E cfg index g pid) (\<lambda>_ t. logs not_release w t \<and> attached g pid w t) (\<lambda>_ t. logs not_release w t) u"
proof -
  have grow: "keeps (\<lambda>t. logs not_release w t \<and> attached g pid w t) (net_setup E sid p i)" for sid p i
  proof (rule keepsI)
    fix t
    assume t: "logs not_release w t \<and> attached g pid w t"
    have "logs (\<lambda>_. True) t (snd (net_setup E sid p i t))" "logs not_release w (snd (net_setup E sid p i t))"
      using t by (auto intro!: keepsD [OF keeps_logs_net_setup])
    with t show "logs not_release w (snd (net_setup E sid p i t)) \<and> attached g pid w (snd (net_setup E sid p i t))"
      by (auto simp: attached_def logs_def [of "\<lambda>_. True"])
  qed
  have att: "wp (add_process E g pid) (\<lambda>_ t. logs not_release w t \<and> attached g pid w t) (\<lambda>_ t. logs not_release w t) u"
    by (rule wp_mono [OF add_process_events]) (use assms in \<open>auto simp: logs_def attached_def\<close>)
  show ?thesis
    unfolding spawn_attach_def
    by (rule wp_seq [OF att]) (auto intro!: wp_mono [OF keeps_wp [OF grow]])
qed


section \<open>The processes of a launch\<close>

text \<open>A run of the three processes from the first fork.\<close>

definition launch_run ::
  "'b env_scheme \<Rightarrow> pkern \<Rightarrow> seclib \<Rightarrow> ContainerConfig \<Rightarrow> string option \<Rightarrow> byte \<Rightarrow> CgroupLeaf \<Rightarrow> pstate \<Rightarrow> nat \<Rightarrow> int \<Rightarrow>
     launch \<Rightarrow> launch \<Rightarrow> bool" where
  "launch_run E K L cfg io index cg p0 go_r mp = (launch_step E K L cfg io index cg p0 go_r mp)\<^sup>*\<^sup>*"

definition child_pid :: "child_pc \<Rightarrow> int option" where
  "child_pid c = (case c of CAbsent \<Rightarrow> None | CWaitGo p \<Rightarrow> Some p | CSetup p \<Rightarrow> Some p | CRunning p \<Rightarrow> Some p | CEnded p _ \<Rightarrow> Some p)"

definition started :: "child_pc \<Rightarrow> bool" where
  "started c = (case c of CAbsent \<Rightarrow> False | CWaitGo _ \<Rightarrow> False | _ \<Rightarrow> True)"

definition parent_handle :: "parent_pc \<Rightarrow> Handle option" where
  "parent_handle p = (case p of PRelease h \<Rightarrow> Some h | PReturned h \<Rightarrow> Some h | PGone (Inr h) \<Rightarrow> Some h | _ \<Rightarrow> None)"

definition parent_pid :: "parent_pc \<Rightarrow> int option" where
  "parent_pid p = (case p of PAttach n \<Rightarrow> Some n | _ \<Rightarrow> map_option hd_container_pid (parent_handle p))"

definition parent_over :: "parent_pc \<Rightarrow> bool" where
  "parent_over p = (case p of PGone _ \<Rightarrow> True | _ \<Rightarrow> False)"

definition report_of :: "launch \<Rightarrow> bytes" where
  "report_of s = (case child_pid (la_child s) of
     None \<Rightarrow> [] | Some gc \<Rightarrow> if la_middle s = MWritePid gc then [] else write_pid gc)"

definition launch_inv :: "CgroupLeaf \<Rightarrow> world \<Rightarrow> launch \<Rightarrow> bool" where
  "launch_inv g w s \<longleftrightarrow>
     (la_middle s = MUnshare \<or> la_middle s = MFork \<longrightarrow> la_child s = CAbsent \<and> la_parent s = PReadPid)
     \<and> (\<forall>gc. la_middle s = MWritePid gc \<longrightarrow> child_pid (la_child s) = Some gc \<and> la_parent s = PReadPid)
     \<and> (\<forall>gc. la_middle s = MWaits gc \<longrightarrow> child_pid (la_child s) = Some gc)
     \<and> (\<forall>gc. child_pid (la_child s) = Some gc \<longrightarrow> 0 < gc \<and> gc < 2 ^ 31)
     \<and> (la_parent s = PReadPid \<longrightarrow> la_pidp s = report_of s)
     \<and> (\<forall>p. parent_pid (la_parent s) = Some p \<longrightarrow> p = (case child_pid (la_child s) of None \<Rightarrow> 0 | Some gc \<Rightarrow> gc))
     \<and> logs (\<lambda>_. True) w (la_world s)
     \<and> (\<forall>h. parent_handle (la_parent s) = Some h \<longrightarrow> attached g (hd_container_pid h) w (la_world s))
     \<and> (la_go s \<longrightarrow> parent_handle (la_parent s) \<noteq> None)
     \<and> (started (la_child s) \<longrightarrow> la_go s \<or> parent_over (la_parent s))"

lemmas launch_views = child_pid_def started_def parent_handle_def parent_pid_def parent_over_def report_of_def

lemma launch_inv_init: "launch_inv g w (launch_init w)"
  by (simp add: launch_inv_def launch_init_def launch_views)

lemma attached_grows: "attached g p w t \<Longrightarrow> events u = events t @ es \<Longrightarrow> attached g p w u"
  by (auto simp: attached_def)

lemma attach_run:
  assumes "spawn_attach E cfg index g pid u = (r, v)" and "logs (\<lambda>_. True) w u"
  shows "logs (\<lambda>_. True) w v" and "r = Inr n \<Longrightarrow> attached g pid w v"
proof -
  have "logs not_release u u" by simp
  from spawn_attach_wp [OF this, of E cfg index g pid] assms
  show "logs (\<lambda>_. True) w v" "r = Inr n \<Longrightarrow> attached g pid w v"
    by (auto simp: wp_def logs_def attached_def list_all_iff split: sum.splits)
qed

lemma launch_inv_step:
  assumes "launch_step E K L cfg io index cg p0 go_r mp s t" and "launch_inv cg w s"
  shows "launch_inv cg w t"
  using assms
proof (induction rule: launch_step.induct)
  case (attach s pid net v t0)
  then show ?case
    using attach_run [OF attach(2)] 
    by (auto simp: launch_inv_def launch_views launch_handle_def split: child_pc.splits)
next
  case (attach_err s pid e v)
  then show ?case
    using attach_run [OF attach_err(2)]
    by (auto simp: launch_inv_def launch_views split: child_pc.splits)
qed (auto simp: launch_inv_def launch_views read_write_pid_pos read_no_pid attached_grows logs_log
      split: child_pc.splits parent_pc.splits sum.splits)

lemma launch_inv_run:
  "launch_run E K L cfg io index cg p0 go_r mp (launch_init w) s \<Longrightarrow> launch_inv cg w s"
  unfolding launch_run_def by (induction rule: rtranclp_induct) (auto intro: launch_inv_init launch_inv_step)

lemma started_cases:
  assumes "launch_inv cg w s" and "started (la_child s)" and "child_pid (la_child s) = Some gc"
  shows "(\<exists>h. parent_handle (la_parent s) = Some h \<and> hd_container_pid h = gc \<and> attached cg gc w (la_world s))
     \<or> (\<exists>e. la_parent s = PGone (Inl e))"
proof (cases "parent_handle (la_parent s)")
  case None
  with assms show ?thesis
    by (auto simp: launch_inv_def parent_over_def parent_handle_def split: parent_pc.splits sum.splits)
next
  case (Some h)
  then have "parent_pid (la_parent s) = Some (hd_container_pid h)"
    by (simp add: parent_pid_def parent_handle_def split: parent_pc.splits)
  with assms(1,3) Some show ?thesis by (auto simp: launch_inv_def)
qed


text \<open>The first steps, up to the parent's request to attach the process.\<close>

lemma run_to_attach:
  assumes "0 < gc" and "gc < 2 ^ 31"
  shows "launch_run E K L cfg io index cg p0 go_r mp (launch_init w)
     \<lparr>la_world = w, la_parent = PAttach gc, la_middle = MWaits gc, la_child = CWaitGo gc, la_pidp = [], la_go = False\<rparr>"
proof -
  let ?S = "launch_step E K L cfg io index cg p0 go_r mp" and ?i = "launch_init w"
  let ?a = "?i\<lparr>la_middle := MFork\<rparr>"
  let ?b = "?a\<lparr>la_middle := MWritePid gc, la_child := CWaitGo gc\<rparr>"
  let ?c = "?b\<lparr>la_middle := MWaits gc, la_pidp := write_pid gc\<rparr>"
  have "?S ?i ?a" by (rule unshare_ok) (simp add: launch_init_def)
  moreover have "?S ?a ?b" by (rule fork_ok) (use assms in simp_all)
  moreover have "?S ?b ?c" by (rule report) simp
  moreover have "?S ?c (?c\<lparr>la_parent := PAttach (read_pid (la_pidp ?c)), la_pidp := []\<rparr>)"
    by (rule learn_pid) (simp_all add: launch_init_def)
  ultimately have "?S\<^sup>*\<^sup>* ?i (?c\<lparr>la_parent := PAttach (read_pid (la_pidp ?c)), la_pidp := []\<rparr>)"
    by (meson converse_rtranclp_into_rtranclp r_into_rtranclp)
  then show ?thesis
    by (simp add: launch_run_def launch_init_def read_write_pid_pos [OF assms])
qed

lemma launch_run_step:
  "launch_run E K L cfg io index cg p0 go_r mp s t \<Longrightarrow> launch_step E K L cfg io index cg p0 go_r mp t u \<Longrightarrow>
     launch_run E K L cfg io index cg p0 go_r mp s u"
  unfolding launch_run_def by (rule rtranclp.rtrancl_into_rtrancl)


section \<open>A launch comes to an end\<close>

definition launch_over :: "launch \<Rightarrow> bool" where
  "launch_over s \<longleftrightarrow> parent_over (la_parent s) \<and> (\<exists>c. la_middle s = MExited c)
     \<and> (la_child s = CAbsent \<or> (\<exists>gc st. la_child s = CEnded gc st))"

definition launch_rank :: "launch \<Rightarrow> nat" where
  "launch_rank s =
     (case la_parent s of PReadPid \<Rightarrow> 4 | PAttach _ \<Rightarrow> 3 | PRelease _ \<Rightarrow> 2 | PReturned _ \<Rightarrow> 1 | PError _ \<Rightarrow> 1 | PGone _ \<Rightarrow> 0)
     + (case la_middle s of MUnshare \<Rightarrow> 9 | MFork \<Rightarrow> 8 | MWritePid _ \<Rightarrow> 2 | MWaits _ \<Rightarrow> 1 | MExited _ \<Rightarrow> 0)
     + (case la_child s of CAbsent \<Rightarrow> 0 | CWaitGo _ \<Rightarrow> 4 | CSetup _ \<Rightarrow> 3 | CRunning _ \<Rightarrow> 2 | CEnded _ _ \<Rightarrow> 1)"

lemma launch_step_rank: "launch_step E K L cfg io index cg p0 go_r mp s t \<Longrightarrow> launch_rank t < launch_rank s"
  by (induction rule: launch_step.induct) (auto simp: launch_rank_def split: child_pc.splits)

lemma child_moves:
  assumes "la_parent s = PGone r" and "started (la_child s) \<or> child_pid (la_child s) \<noteq> None"
    and "\<not> (\<exists>gc st. la_child s = CEnded gc st)"
  shows "\<exists>t. launch_step E K L cfg io index cg p0 go_r mp s t"
proof (cases "la_child s")
  case (CWaitGo gc)
  with assms show ?thesis by (blast intro: launch_step.go)
next
  case (CSetup gc)
  then show ?thesis
    by (cases "grandchild K L cfg io go_r p0"; cases "fst (grandchild K L cfg io go_r p0)")
      (auto intro: launch_step.set_up launch_step.set_up_err)
next
  case (CRunning gc)
  then show ?thesis by (blast intro: launch_step.ends)
qed (use assms in \<open>auto simp: launch_views\<close>)

lemma launch_progress:
  assumes "launch_inv cg w s" and "\<not> launch_over s"
  shows "\<exists>t. launch_step E K L cfg io index cg p0 go_r mp s t"
proof (cases "la_parent s")
  case PReadPid
  show ?thesis
  proof (cases "la_middle s")
    case (MWaits gc)
    with PReadPid assms(1) have "la_pidp s \<noteq> []" by (auto simp: launch_inv_def report_of_def)
    with PReadPid show ?thesis by (blast intro: launch_step.learn_pid)
  qed (use PReadPid in \<open>blast intro: launch_step.unshare_ok launch_step.fork_err launch_step.report launch_step.learn_pid\<close>)+
next
  case (PAttach p)
  then show ?thesis
    by (cases "spawn_attach E cfg index cg p (la_world s)"; cases "fst (spawn_attach E cfg index cg p (la_world s))")
      (auto intro: launch_step.attach launch_step.attach_err)
next
  case (PGone r)
  show ?thesis
  proof (cases "la_middle s")
    case (MWaits gc)
    with assms(1) have c: "child_pid (la_child s) = Some gc" by (auto simp: launch_inv_def)
    show ?thesis
    proof (cases "\<exists>gc st. la_child s = CEnded gc st")
      case True
      with c obtain st where "la_child s = CEnded gc st" by (auto simp: child_pid_def)
      with MWaits show ?thesis by (blast intro: launch_step.relay)
    qed (use PGone c in \<open>auto intro: child_moves\<close>)
  next
    case (MExited c)
    with assms(2) PGone have "la_child s \<noteq> CAbsent \<and> \<not> (\<exists>gc st. la_child s = CEnded gc st)"
      by (auto simp: launch_over_def parent_over_def)
    with PGone show ?thesis
      by (intro child_moves) (auto simp: launch_views split: child_pc.splits)
  qed (blast intro: launch_step.unshare_ok launch_step.fork_err launch_step.report)+
qed (blast intro: launch_step.release launch_step.leave launch_step.fail)+

lemma launch_runs_to_end:
  assumes "launch_inv cg w s"
  shows "\<exists>t. launch_run E K L cfg io index cg p0 go_r mp s t \<and> launch_over t"
  using assms
proof (induction "launch_rank s" arbitrary: s rule: less_induct)
  case less
  show ?case
  proof (cases "launch_over s")
    case True
    then show ?thesis by (auto simp: launch_run_def)
  next
    case False
    from launch_progress [OF less.prems False] obtain t where t: "launch_step E K L cfg io index cg p0 go_r mp s t"
      by blast
    from less.hyps [OF launch_step_rank [OF t] launch_inv_step [OF t less.prems]] t show ?thesis
      unfolding launch_run_def by (blast intro: converse_rtranclp_into_rtranclp)
  qed
qed


section \<open>A concrete launch\<close>

definition demo_seclib :: seclib where
  "demo_seclib = \<lparr>sl_sysno = (\<lambda>_. 101), sl_eperm = 1, sl_arch = Inr ''x86_64'', sl_new = (\<lambda>_. None), sl_compile = (\<lambda>_. None)\<rparr>"

definition demo_process :: pstate where
  "demo_process = \<lparr>fdt = [(0, ''tty''), (1, ''tty''), (2, ''tty''), (3, ''pipe'')], calls = []\<rparr>"

definition demo_refusing :: senv where
  "demo_refusing = demo_senv\<lparr>k_cg_write := \<lambda>_ _ k. (Inl ''Device or resource busy'', k)\<rparr>"


lemmas granting_run = fault_of_def sysc_def bind_m_def ignore_m_def modify_m_def return_m_def map_err_m_def try_m_def
  lift_m_def Let_def sc_def p_close_def wait_for_def demo_config_def ContainerConfig_new_def

lemma demo_grandchild:
  "fst (grandchild (\<lambda>_ _. None) demo_seclib demo_config None 3 demo_process) = Inr ()"
proof -
  have "\<exists>t. gc_setup (\<lambda>_ _. None) demo_config None 3 s = (Inr (), t)" for s
    by (simp add: gc_setup_def setup_rootfs_def granting_run)
  moreover have "\<exists>t. gc_harden (\<lambda>_ _. None) demo_seclib demo_config s = (Inr (), t)" for s
    by (simp add: gc_harden_def drop_dangerous_def seccomp_apply_def refuse_if_def DROP_def demo_seclib_def granting_run)
  moreover have "fst (exec_command (\<lambda>_ _. None) demo_config s) = Inr ()" for s
    by (simp add: exec_command_def cstrings_def no_nul_def granting_run)
  ultimately show ?thesis
    by (auto simp: grandchild_def bind_m_def split: prod.splits sum.splits) (metis fst_conv old.sum.distinct(2) Pair_inject)+
qed


end
