(* ===== verification/Frames.thy ===== *)
theory Frames
  imports Transport
begin

text \<open>
  What the framing of the wire protocol computes: a pure decoder that the readers implement, the
  encoder the writers produce, and that streams of frames can be decoded in one way only.
\<close>

lemma wp_mig_err [simp]: "wp (mig_err what m) Q R w = wp m Q (\<lambda>e. R (Migration (what @ '': '' @ e))) w"
  by (simp add: mig_err_def)

lemma keeps_mig_err [mc_keeps]: "keeps P m \<Longrightarrow> keeps P (mig_err what m)"
  unfolding mig_err_def by (rule keeps_map_err)

lemma implements_mig_exact:
  assumes "n \<le> length rest \<Longrightarrow> implements E (f (take n rest, drop n rest)) r"
  shows "implements E (bind_m (mig_err what (read_exact E n rest)) f)
     (if length rest < n then Inl (Migration (what @ '': failed to fill whole buffer'')) else r)"
proof (cases "length rest < n")
  case True
  then have "implements E (mig_err what (read_exact E n rest)) (Inl (Migration (what @ '': failed to fill whole buffer'')))"
    using implements_map_err [OF implements_read_exact [of E n rest]] by (simp add: mig_err_def)
  from implements_bind [OF this, of f "\<lambda>_. undefined"] True show ?thesis by simp
next
  case False
  then have "implements E (mig_err what (read_exact E n rest)) (Inr (take n rest, drop n rest))"
    using implements_map_err [OF implements_read_exact [of E n rest]] by (simp add: mig_err_def)
  from implements_bind [OF this, of f "\<lambda>_. r"] False assms show ?thesis by simp
qed

section \<open>Decoding\<close>

definition parse_header :: "bytes \<Rightarrow> RuntimeError + (FrameType \<times> u32) \<times> bytes" where
  "parse_header r =
     (if length r < 5 then Inl (Migration (''read frame header'' @ '': failed to fill whole buffer''))
      else case from_u8 (hd r) of
        None \<Rightarrow> Inl (Migration (''unknown frame type 0x'' @ pad_zero 2 (show_hex (unat (hd r)))))
      | Some t \<Rightarrow>
          (let len = u32_from_be (take 4 (tl r)) in
           if frame_cap t < len then Inl (Migration (''frame of '' @ show_nat (unat len) @ '' bytes exceeds the limit''))
           else Inr ((t, len), drop 5 r)))"

lemma read_header_implements: "implements E (read_header E r) (parse_header r)"
proof -
  have hd: "hd (take 5 r) = hd r" "tl (take 5 r) = take 4 (tl r)" if "5 \<le> length r"
    using that by (cases r; simp)+
  show ?thesis
    unfolding read_header_def parse_header_def
    by (rule implements_mig_exact)
      (auto simp: hd Let_def implements_throw implements_return split: option.splits)
qed

definition parse_frame :: "bytes \<Rightarrow> RuntimeError + (FrameType \<times> bytes) \<times> bytes" where
  "parse_frame r =
     bind_res (parse_header r) (\<lambda>((t, len), r1).
       if length r1 < unat len then Inl (Migration (''read frame payload'' @ '': failed to fill whole buffer''))
       else Inr ((t, take (unat len) r1), drop (unat len) r1))"

lemma read_payload_implements:
  "implements E (read_payload E len r)
     (if length r < unat len then Inl (Migration (''read frame payload'' @ '': failed to fill whole buffer''))
      else Inr (take (unat len) r, drop (unat len) r))"
  unfolding read_payload_def mig_err_def
  using implements_map_err [OF implements_read_exact [of E "unat len" r]]
  by (cases "length r < unat len") simp_all

section \<open>Encoding\<close>

definition frame_bytes :: "FrameType \<times> bytes \<Rightarrow> bytes" where
  "frame_bytes f = frame_code (fst f) # u32_to_be (word_of_nat (length (snd f))) @ snd f"

definition wf_frame :: "FrameType \<times> bytes \<Rightarrow> bool" where
  "wf_frame f = (length (snd f) \<le> 4 * 1024 * 1024)"

lemma from_u8_code [simp, mc_codec]: "from_u8 (frame_code t) = Some t"
  by (cases t) (simp_all add: from_u8_def frame_code_def)

lemma frame_cap_nat: "unat (frame_cap t) = 4 * 1024 * 1024"
  by (simp add: frame_cap_def MAX_CHUNK_FRAME_def MAX_CONTROL_FRAME_def)

lemma parse_header_enc:
  assumes "wf_frame f"
  shows "parse_header (frame_bytes f @ rest) = Inr ((fst f, word_of_nat (length (snd f))), snd f @ rest)"
proof -
  define len :: u32 where "len = word_of_nat (length (snd f))"
  have "unat len = length (snd f)"
    using assms by (simp add: len_def wf_frame_def unat_of_nat)
  then have "\<not> frame_cap (fst f) < len"
    using assms frame_cap_nat [of "fst f"] by (simp add: word_less_nat_alt wf_frame_def)
  then show ?thesis
    by (simp add: parse_header_def frame_bytes_def len_def [symmetric] Let_def)
qed

lemma parse_frame_enc:
  assumes "wf_frame f"
  shows "parse_frame (frame_bytes f @ rest) = Inr (f, rest)"
proof -
  have "unat (word_of_nat (length (snd f)) :: u32) = length (snd f)"
    using assms by (simp add: wf_frame_def unat_of_nat)
  then show ?thesis
    by (simp add: parse_frame_def parse_header_enc [OF assms])
qed

interpretation frame_codec: prefix_codec frame_bytes parse_frame wf_frame
  by unfold_locales (rule parse_frame_enc)

lemma frame_bytes_nonempty [simp]: "frame_bytes f \<noteq> []"
  by (simp add: frame_bytes_def)

lemma parse_frame_dec:
  assumes "parse_frame r = Inr (f, rest)"
  shows "r = frame_bytes f @ rest \<and> wf_frame f"
proof -
  obtain t len r1 where h: "parse_header r = Inr ((t, len), r1)" and f: "f = (t, take (unat len) r1)"
    "rest = drop (unat len) r1" "unat len \<le> length r1"
    using assms by (auto simp: parse_frame_def bind_res_Inr_iff split: if_splits)
  from h have r: "5 \<le> length r" "from_u8 (hd r) = Some t" "len = u32_from_be (take 4 (tl r))" "\<not> frame_cap t < len" "r1 = drop 5 r"
    by (auto simp: parse_header_def Let_def split: if_splits option.splits)
  have "hd r = frame_code t"
    using r(2) by (auto simp: from_u8_def frame_code_def split: if_splits)
  moreover have "u32_to_be len = take 4 (tl r)"
    using r(1,3) by (simp add: u32_to_be_from_be)
  moreover have "r = hd r # take 4 (tl r) @ drop 5 r"
    using r(1) by (cases r) simp_all
  moreover have "unat len \<le> 4 * 1024 * 1024"
    using r(4) frame_cap_nat [of t] by (simp add: word_less_nat_alt)
  moreover have "drop 5 r = take (unat len) (drop 5 r) @ drop (unat len) (drop 5 r)"
    by (rule append_take_drop_id [symmetric])
  ultimately show ?thesis
    using f r(5) by (simp add: frame_bytes_def wf_frame_def del: drop_drop)
qed

section \<open>Properties of the framing\<close>



text \<open>
  C40: Whatever bytes a peer sends and however they arrive, a frame header is accepted only with a
  known type and a length of at most four mebibytes, so the buffer allocated for its payload is
  bounded by that; a header costs exactly five bytes and reading it has no effect on the host.
\<close>
theorem frame_lengths_are_bounded:
  "wp (read_header E r)
     (\<lambda>h u. unat (snd (fst h)) \<le> 4 * 1024 * 1024 \<and> hd r = frame_code (fst (fst h))
        \<and> length (snd h) + 5 = length r \<and> only_tick w u)
     (\<lambda>_ u. only_tick w u) w"
proof (rule wp_mono [OF implements_wp [OF read_header_implements]])
  fix a u
  assume a: "parse_header r = Inr a \<and> only_tick w u"
  then obtain t len rest where "a = ((t, len), rest)" "5 \<le> length r" "from_u8 (hd r) = Some t" "\<not> frame_cap t < len" "rest = drop 5 r"
    by (auto simp: parse_header_def Let_def split: if_splits option.splits)
  moreover from this have "hd r = frame_code t"
    by (auto simp: from_u8_def frame_code_def split: if_splits)
  ultimately show "unat (snd (fst a)) \<le> 4 * 1024 * 1024 \<and> hd r = frame_code (fst (fst a))
      \<and> length (snd a) + 5 = length r \<and> only_tick w u"
    using a frame_cap_nat [of t] by (simp add: word_less_nat_alt)
qed simp

end
