(* ===== verification/Transport_Facts.thy ===== *)
theory Transport_Facts
  imports Frames Snapshot_Read
begin

text \<open>
  What a transfer does on either side: the receiver stores exactly the bytes of the chunk frames
  that arrive before the end-of-file frame, or nothing under the name it commits to; the sender
  puts the file on the wire as chunk frames; and what one sends the other accepts.
\<close>

section \<open>A stream of chunks\<close>

text \<open>
  \<open>delivers J r b eof rest\<close>: the stream \<open>r\<close> starts with chunk frames whose payloads are together
  \<open>b\<close>, followed by an end-of-file frame that says \<open>eof\<close>, followed by \<open>rest\<close>.
\<close>

inductive delivers :: "Eof json \<Rightarrow> bytes \<Rightarrow> bytes \<Rightarrow> Eof \<Rightarrow> bytes \<Rightarrow> bool" for J where
  delivers_eof: "parse_frame r = Inr ((FEof, body), rest) \<Longrightarrow> from_slice J body = Inr eof \<Longrightarrow> delivers J r [] eof rest"
| delivers_chunk: "parse_frame r = Inr ((FChunk, c), r') \<Longrightarrow> delivers J r' b eof rest \<Longrightarrow> delivers J r (c @ b) eof rest"

lemma delivers_chunk_iff:
  "parse_frame r = Inr ((FChunk, c), r') \<Longrightarrow> delivers J r b eof rest \<longleftrightarrow> (\<exists>b'. b = c @ b' \<and> delivers J r' b' eof rest)"
  by (subst delivers.simps) auto

lemma delivers_eof_iff:
  "parse_frame r = Inr ((FEof, body), r') \<Longrightarrow> delivers J r b eof rest \<longleftrightarrow> b = [] \<and> rest = r' \<and> from_slice J body = Inr eof"
  by (subst delivers.simps) auto

lemma delivers_none:
  assumes "\<And>c r'. parse_frame r \<noteq> Inr ((FChunk, c), r')" and "\<And>c r'. parse_frame r \<noteq> Inr ((FEof, c), r')"
  shows "\<not> delivers J r b eof rest"
  using assms by (subst delivers.simps) auto

lemma delivers_unique:
  "delivers J r b eof rest \<Longrightarrow> delivers J r b' eof' rest' \<Longrightarrow> b' = b \<and> eof' = eof \<and> rest' = rest"
proof (induction arbitrary: b' rule: delivers.induct)
  case (delivers_eof r body rest eof)
  then show ?case by (simp add: delivers_eof_iff)
next
  case (delivers_chunk r c r' b eof rest)
  then show ?case by (auto simp: delivers_chunk_iff)
qed

definition good_stream :: "Hello \<Rightarrow> Eof json \<Rightarrow> Crc32 \<Rightarrow> u64 \<Rightarrow> bytes \<Rightarrow> bytes \<Rightarrow> bytes \<Rightarrow> bool" where
  "good_stream hello J crc received r b rest \<longleftrightarrow>
     (\<exists>eof. delivers J r b eof rest \<and> ef_bytes eof = received + word_of_nat (length b)
        \<and> ef_crc32 eof = he_snapshot_crc32 hello \<and> crc32_finish (crc32_update crc b) = he_snapshot_crc32 hello)"

lemma good_stream_chunk:
  assumes "parse_frame r = Inr ((FChunk, c), r')"
  shows "good_stream hello J crc received r b rest \<longleftrightarrow>
     (\<exists>b'. b = c @ b' \<and> good_stream hello J (crc32_update crc c) (received + word_of_nat (length c)) r' b' rest)"
  unfolding good_stream_def delivers_chunk_iff [OF assms]
  by (auto simp: crc32_update_append add.assoc)

lemma good_stream_eof:
  assumes "parse_frame r = Inr ((FEof, body), r')"
  shows "good_stream hello J crc received r b rest \<longleftrightarrow>
     (\<exists>eof. b = [] \<and> rest = r' \<and> from_slice J body = Inr eof \<and> ef_bytes eof = received
        \<and> ef_crc32 eof = he_snapshot_crc32 hello \<and> crc32_finish crc = he_snapshot_crc32 hello)"
  unfolding good_stream_def delivers_eof_iff [OF assms] by auto

lemma good_stream_none:
  assumes "\<And>c r'. parse_frame r \<noteq> Inr ((FChunk, c), r')" and "\<And>c r'. parse_frame r \<noteq> Inr ((FEof, c), r')"
  shows "\<not> good_stream hello J crc received r b rest"
  unfolding good_stream_def using delivers_none [OF assms] by blast

lemma good_stream_Inl: "parse_frame r = Inl e \<Longrightarrow> \<not> good_stream hello J crc received r b rest"
  by (rule good_stream_none) simp_all

lemma good_stream_unique:
  "good_stream hello J crc received r b rest \<Longrightarrow> good_stream hello J crc received r b' rest' \<Longrightarrow> b' = b"
  unfolding good_stream_def using delivers_unique by fastforce

section \<open>Receiving\<close>

lemma recv_loop_unfold:
  "recv_loop E hello part r crc received =
     bind_m (read_header E r) (\<lambda>h.
       if fst (fst h) = FChunk then
         bind_m (read_payload E (snd (fst h)) (snd h)) (\<lambda>p.
         bind_m (mig_err ''write'' (fs_append E part (fst p))) (\<lambda>_.
           if he_snapshot_bytes hello < received + word_of_nat (length (fst p))
           then bind_m (ignore_m (fs_remove_file E part)) (\<lambda>_.
                throw_m (Migration ''sender exceeded the bytes it announced''))
           else recv_loop E hello part (snd p) (crc32_update crc (fst p)) (received + word_of_nat (length (fst p)))))
       else if fst (fst h) = FEof then recv_eof E hello part (snd (fst h)) (snd h) crc received
       else bind_m (ignore_m (fs_remove_file E part)) (\<lambda>_.
            throw_m (Migration ''protocol error: expected CHUNK or EOF'')))"
proof (intro ext, subst recv_loop.simps, intro bind_m_cong refl, unfold Let_def)
  fix h u
  show "(if fst (fst h) = FChunk
      then bind_m (read_payload E (snd (fst h)) (snd h)) (\<lambda>p. bind_m (mig_err ''write'' (fs_append E part (fst p)))
              (\<lambda>_ x. if he_snapshot_bytes hello < received + word_of_nat (length (fst p))
                     then bind_m (ignore_m (fs_remove_file E part)) (\<lambda>_. throw_m (Migration ''sender exceeded the bytes it announced'')) x
                     else recv_loop E hello part (snd p) (crc32_update crc (fst p)) (received + word_of_nat (length (fst p))) x)) u
      else if fst (fst h) = FEof then recv_eof E hello part (snd (fst h)) (snd h) crc received u
      else bind_m (ignore_m (fs_remove_file E part)) (\<lambda>_. throw_m (Migration ''protocol error: expected CHUNK or EOF'')) u) =
    (if fst (fst h) = FChunk
      then bind_m (read_payload E (snd (fst h)) (snd h)) (\<lambda>p. bind_m (mig_err ''write'' (fs_append E part (fst p)))
              (\<lambda>_. if he_snapshot_bytes hello < received + word_of_nat (length (fst p))
                   then bind_m (ignore_m (fs_remove_file E part)) (\<lambda>_. throw_m (Migration ''sender exceeded the bytes it announced''))
                   else recv_loop E hello part (snd p) (crc32_update crc (fst p)) (received + word_of_nat (length (fst p)))))
      else if fst (fst h) = FEof then recv_eof E hello part (snd (fst h)) (snd h) crc received
      else bind_m (ignore_m (fs_remove_file E part)) (\<lambda>_. throw_m (Migration ''protocol error: expected CHUNK or EOF''))) u"
    by (simp, intro conjI impI bind_m_cong refl, simp)
qed

lemma same_files_log [simp]: "same_files S g (log_event e w) = same_files S g w"
  by (simp add: same_files_def)

lemma keeps_same_files_net [mc_same]: "keeps (same_files S g) (net_send E b)"
  unfolding net_send_def by (rule keeps_same_files_io_op) simp_all

lemma keeps_same_files_touch [mc_same]: "keeps (same_files S g) (io_touch E)"
  unfolding io_touch_def by (rule keeps_same_files_io_op) (simp_all add: no_work_def)

lemma keeps_same_files_frame [mc_same]:
  "keeps (same_files S g) (write_frame E t b)" "keeps (same_files S g) (write_json E t J v)"
  unfolding write_frame_def write_json_def by (intro mc_keeps mc_same)+

lemma same_files_but: "same_files (\<lambda>q. q \<noteq> p) (fget w) t \<longleftrightarrow> (\<forall>q. q \<noteq> p \<longrightarrow> fget t q = fget w q)"
  by (simp add: same_files_def)

lemma only_tick_same_files: "only_tick w t \<Longrightarrow> same_files S (fget w) t"
  by (simp add: same_files_def only_tick_fget)

lemma corrupted_wp:
  "wp (corrupted E part received got eof) (\<lambda>_ _. False) (\<lambda>_. same_files (\<lambda>q. q \<noteq> part) (fget w)) w"
proof -
  have "keeps (same_files (\<lambda>q. q \<noteq> part) (fget w)) (corrupted E part received got eof)"
    unfolding corrupted_def by (intro mc_keeps mc_same) simp
  from keeps_wp [OF this, of w] have "wp (corrupted E part received got eof) (\<lambda>_. same_files (\<lambda>q. q \<noteq> part) (fget w))
      (\<lambda>_. same_files (\<lambda>q. q \<noteq> part) (fget w)) w"
    by simp
  moreover have "wp (corrupted E part received got eof) (\<lambda>_ _. False) (\<lambda>_ _. True) w"
    by (simp add: corrupted_def Let_def wp_def bind_m_def ignore_m_def throw_m_def split: prod.splits sum.splits)
  ultimately show ?thesis
    by (rule wp_conj [THEN wp_mono]) auto
qed

lemma parse_frame_header:
  "parse_header r = Inr ((t, len), r1) \<Longrightarrow> parse_frame r =
     (if length r1 < unat len then Inl (Migration (''read frame payload'' @ '': failed to fill whole buffer''))
      else Inr ((t, take (unat len) r1), drop (unat len) r1))"
  by (simp add: parse_frame_def)

lemma recv_eof_wp:
  assumes h: "parse_header r = Inr ((FEof, len), r1)"
  shows "wp (recv_eof E hello part len r1 crc received)
     (\<lambda>rest t. good_stream hello (j_eof E) crc received r [] rest \<and> fget t = fget w)
     (\<lambda>_ t. same_files (\<lambda>q. q \<noteq> part) (fget w) t
        \<and> (no_faults E \<longrightarrow> (\<forall>b rest. \<not> good_stream hello (j_eof E) crc received r b rest))) w"
    (is "wp _ ?Q ?R w")
proof -
  note pf = parse_frame_header [OF h]
  have fin: "wp (bind_m (mig_err ''flush'' (io_touch E)) (\<lambda>_.
      if ef_bytes eof \<noteq> received \<or> ef_crc32 eof \<noteq> crc32_finish crc \<or> crc32_finish crc \<noteq> he_snapshot_crc32 hello
      then corrupted E part received (crc32_finish crc) eof else return_m rest)) ?Q ?R u"
    if u: "only_tick w u" and f: "parse_frame r = Inr ((FEof, body), rest)" "from_slice (j_eof E) body = Inr eof" for u eof body rest
  proof (unfold wp_bind wp_mig_err, rule wp_mono [OF implements_wp [OF implements_touch]])
    fix v :: world and a :: unit
    assume "Inr () = Inr a \<and> only_tick u v"
    with u have v: "fget v = fget w" by (simp add: only_tick_fget)
    note gs = good_stream_eof [OF f(1), of hello "j_eof E" crc received]
    show "wp (if ef_bytes eof \<noteq> received \<or> ef_crc32 eof \<noteq> crc32_finish crc \<or> crc32_finish crc \<noteq> he_snapshot_crc32 hello
      then corrupted E part received (crc32_finish crc) eof else return_m rest) ?Q ?R v"
      unfolding gs v [symmetric] f(2)
      by (cases "ef_bytes eof = received \<and> ef_crc32 eof = crc32_finish crc \<and> crc32_finish crc = he_snapshot_crc32 hello")
        (auto intro!: wp_mono [OF corrupted_wp])
  qed (use u in \<open>auto simp: same_files_def dest!: only_tick_fget\<close>)
  show ?thesis
    unfolding recv_eof_def wp_bind
  proof (rule wp_mono [OF implements_wp [OF read_payload_implements]], goal_cases)
    case (1 a u)
    then obtain body rest where "a = (body, rest)" "parse_frame r = Inr ((FEof, body), rest)" and u: "only_tick w u"
      by (auto simp: pf split: if_splits)
    note a = this
    show ?case
    proof (cases "from_slice (j_eof E) body")
      case (Inl e)
      with a(1) only_tick_same_files [OF u] show ?thesis
        by (simp add: good_stream_eof [OF a(2)])
    next
      case (Inr eof)
      have "wp (bind_m (lift_m (from_slice (j_eof E) body)) (\<lambda>eof. bind_m (mig_err ''flush'' (io_touch E)) (\<lambda>_.
        let got = crc32_finish crc in
        if ef_bytes eof \<noteq> received \<or> ef_crc32 eof \<noteq> got \<or> got \<noteq> he_snapshot_crc32 hello
        then corrupted E part received got eof else return_m rest))) ?Q ?R u"
        unfolding wp_bind [of "lift_m r" for r] wp_lift Inr sum.case Let_def by (rule fin [OF u a(2) Inr])
      then show ?thesis by (simp only: a(1) split_conv)
    qed
  next
    case (2 e u)
    then have "no_faults E \<longrightarrow> \<not> good_stream hello (j_eof E) crc received r b rest" for b rest
      using good_stream_Inl [of r] pf by (auto split: if_splits)
    with 2 show ?case by (simp add: only_tick_same_files)
  qed
qed

lemma unat_plus_of_nat_le: "unat (a + word_of_nat n :: 'a::len word) \<le> unat a + n"
  by (metis (no_types, opaque_lifting) add_left_mono le_trans mod_less_eq_dividend unat_of_nat unat_word_ariths(1))

lemma recv_loop_wp:
  assumes "fget w part = Some (File old)"
  shows "wp (recv_loop E hello part r crc received)
     (\<lambda>rest t. \<exists>b. good_stream hello (j_eof E) crc received r b rest \<and> fget t = (fget w)(part \<mapsto> File (old @ b)))
     (\<lambda>_ t. same_files (\<lambda>q. q \<noteq> part) (fget w) t
        \<and> (no_faults E \<longrightarrow> (\<forall>b rest. good_stream hello (j_eof E) crc received r b rest
              \<longrightarrow> unat (he_snapshot_bytes hello) < unat received + length b))) w"
  using assms
proof (induction r arbitrary: crc received old w rule: length_induct)
  case (1 r)
  let ?Q = "\<lambda>rest t. \<exists>b. good_stream hello (j_eof E) crc received r b rest \<and> fget t = (fget w)(part \<mapsto> File (old @ b))"
  let ?R = "\<lambda>_ t. same_files (\<lambda>q. q \<noteq> part) (fget w) t \<and> (no_faults E \<longrightarrow> (\<forall>b rest. good_stream hello (j_eof E) crc received r b rest
              \<longrightarrow> unat (he_snapshot_bytes hello) < unat received + length b))"
  have chunk: "wp (bind_m (mig_err ''write'' (fs_append E part c)) (\<lambda>_.
           if he_snapshot_bytes hello < received + word_of_nat (length c)
           then bind_m (ignore_m (fs_remove_file E part)) (\<lambda>_. throw_m (Migration ''sender exceeded the bytes it announced''))
           else recv_loop E hello part r' (crc32_update crc c) (received + word_of_nat (length c)))) ?Q ?R v"
    if v: "only_tick w v" and f: "parse_frame r = Inr ((FChunk, c), r')" for v c r'
  proof -
    have shorter: "length r' < length r"
      using parse_frame_dec [OF f] by (auto simp: frame_bytes_def)
    note gs = good_stream_chunk [OF f, of hello "j_eof E" crc received]
    note le = unat_plus_of_nat_le [of received "length c"]
    have old: "fget v part = Some (File old)" "fget v = fget w"
      using 1(2) v by (simp_all add: only_tick_fget)
    have step: "wp (if he_snapshot_bytes hello < received + word_of_nat (length c)
           then bind_m (ignore_m (fs_remove_file E part)) (\<lambda>_. throw_m (Migration ''sender exceeded the bytes it announced''))
           else recv_loop E hello part r' (crc32_update crc c) (received + word_of_nat (length c))) ?Q ?R x"
      if x: "fget x = (fget w)(part \<mapsto> File (old @ c))" for x
    proof (cases "he_snapshot_bytes hello < received + word_of_nat (length c)")
      case True
      then have "unat (he_snapshot_bytes hello) < unat received + length c"
        using le by (simp add: word_less_nat_alt)
      with True x show ?thesis
        by (auto simp: gs same_files_def intro!: wp_mono [OF fs_remove_file_wp])
    next
      case False
      have ih: "wp (recv_loop E hello part r' (crc32_update crc c) (received + word_of_nat (length c)))
         (\<lambda>rest t. \<exists>b. good_stream hello (j_eof E) (crc32_update crc c) (received + word_of_nat (length c)) r' b rest
             \<and> fget t = (fget x)(part \<mapsto> File ((old @ c) @ b)))
         (\<lambda>_ t. same_files (\<lambda>q. q \<noteq> part) (fget x) t
            \<and> (no_faults E \<longrightarrow> (\<forall>b rest. good_stream hello (j_eof E) (crc32_update crc c) (received + word_of_nat (length c)) r' b rest
                  \<longrightarrow> unat (he_snapshot_bytes hello) < unat (received + word_of_nat (length c)) + length b))) x"
        using x by (intro 1(1) [rule_format, OF shorter]) simp
      have "wp (recv_loop E hello part r' (crc32_update crc c) (received + word_of_nat (length c))) ?Q ?R x"
      proof (rule wp_mono [OF ih], goal_cases)
        case (1 rest t)
        then show ?case by (auto simp: gs x)
      next
        case (2 e t)
        then show ?case
          using le by (auto simp: gs same_files_def x)
      qed
      with False show ?thesis by simp
    qed
    show ?thesis
      unfolding wp_bind wp_mig_err
      by (rule wp_mono [OF fs_append_wp [OF old(1)]]) (use step old(2) in \<open>auto simp: same_files_def\<close>)
  qed
  have payload: "wp (bind_m (read_payload E len r1) (\<lambda>p. bind_m (mig_err ''write'' (fs_append E part (fst p))) (\<lambda>_.
           if he_snapshot_bytes hello < received + word_of_nat (length (fst p))
           then bind_m (ignore_m (fs_remove_file E part)) (\<lambda>_. throw_m (Migration ''sender exceeded the bytes it announced''))
           else recv_loop E hello part (snd p) (crc32_update crc (fst p)) (received + word_of_nat (length (fst p)))))) ?Q ?R u"
    if u: "only_tick w u" and h: "parse_header r = Inr ((FChunk, len), r1)" for u len r1
  proof (unfold wp_bind [of "read_payload E len r1"], rule wp_mono [OF implements_wp [OF read_payload_implements]], goal_cases)
    case (1 a v)
    then obtain c rest where a: "a = (c, rest)" "parse_frame r = Inr ((FChunk, c), rest)" and v: "only_tick w v"
      using u by (auto simp: parse_frame_header [OF h] intro: only_tick_trans split: if_splits)
    show ?case
      unfolding a(1) fst_conv snd_conv by (rule chunk [OF v a(2)])
  next
    case (2 e v)
    then have "no_faults E \<longrightarrow> \<not> good_stream hello (j_eof E) crc received r b rest" for b rest
      using good_stream_Inl [of r] parse_frame_header [OF h] by (auto split: if_splits)
    with 2 u only_tick_same_files [OF only_tick_trans [of w u v]] show ?case by simp
  qed
  show ?case
    unfolding recv_loop_unfold [of E hello part r] wp_bind [of "read_header E r"]
  proof (rule wp_mono [OF implements_wp [OF read_header_implements]], goal_cases)
    case (1 a u)
    then obtain t len r1 where a: "a = ((t, len), r1)" "parse_header r = Inr ((t, len), r1)" and u: "only_tick w u"
      by (cases a) auto
    consider "t = FChunk" | "t = FEof" | "t \<noteq> FChunk" "t \<noteq> FEof" by blast
    then show ?case
    proof cases
      case 1
      with payload [OF u] a show ?thesis by simp
    next
      case 2
      have eq: "fget u = fget w" using u by (rule only_tick_fget)
      from 2 a have "wp (recv_eof E hello part len r1 crc received) ?Q ?R u"
        using \<open>fget w part = Some (File old)\<close> fun_upd_idem [of "fget w" part "Some (File old)"]
        by (auto simp: eq intro!: wp_mono [OF recv_eof_wp [where w = u]] exI [of _ "[]"])
      with 2 a show ?thesis by simp
    next
      case 3
      then have "\<not> good_stream hello (j_eof E) crc received r b rest" for b rest
        using a by (intro good_stream_none) (auto simp: parse_frame_header split: if_splits)
      with 3 a u show ?thesis
        by (auto simp: same_files_def only_tick_fget intro!: wp_mono [OF fs_remove_file_wp])
    qed
  next
    case (2 e u)
    then have "no_faults E \<longrightarrow> \<not> good_stream hello (j_eof E) crc received r b rest" for b rest
      using good_stream_Inl [of r] by (auto simp: parse_frame_def)
    with 2 show ?case by (simp add: only_tick_same_files)
  qed
qed

section \<open>The committed snapshot\<close>

definition part_path :: "'b tenv_scheme \<Rightarrow> string \<Rightarrow> fspath" where
  "part_path E cid = resolve E (part_name E cid)"

definition final_path :: "'b tenv_scheme \<Rightarrow> string \<Rightarrow> fspath" where
  "final_path E cid = resolve E (final_name E cid)"

lemma simple_name_suffix: "CHR ''/'' \<notin> set cid \<Longrightarrow> simple_name (cid @ ''.mcsnap'') \<and> simple_name (cid @ ''.mcsnap.part'')"
  by (auto simp: simple_name_def append_eq_Cons_conv)

lemma inbox_paths:
  assumes "CHR ''/'' \<notin> set cid"
  shows "part_path E cid = resolve E (inbox E) @ [cid @ ''.mcsnap.part'']"
    "final_path E cid = resolve E (inbox E) @ [cid @ ''.mcsnap'']"
  using simple_name_suffix [OF assms] by (simp_all add: part_path_def final_path_def part_name_def final_name_def)

lemma fs_rename_wp:
  "wp (fs_rename E p q)
     (\<lambda>_ t. \<exists>b. fget w p = Some (File b) \<and> fget t = (fget w)(p := None, q \<mapsto> File b))
     (\<lambda>_ t. fget t = fget w \<and> (no_faults E \<longrightarrow> \<not> (is_file w p \<and> can_create w q))) w"
  by (auto simp: fs_rename_def io_op_def Let_def no_faults_def no_work_def wp_def is_file_def can_create_def is_dir_def
      fget_drop_nodes fget_set_node fun_eq_iff split: option.splits node.splits)

text \<open>
  Relative to \<open>w\<close>, only the partial file and directories leading to the inbox can differ.
\<close>

definition undisturbed :: "'b tenv_scheme \<Rightarrow> string \<Rightarrow> world \<Rightarrow> world \<Rightarrow> bool" where
  "undisturbed E cid w t \<longleftrightarrow>
     (\<forall>q. q \<noteq> part_path E cid \<and> (fget w q \<noteq> None \<or> \<not> under q (resolve E (inbox E))) \<longrightarrow> fget t q = fget w q)"

definition inbox_usable :: "'b tenv_scheme \<Rightarrow> string \<Rightarrow> world \<Rightarrow> bool" where
  "inbox_usable E cid w \<longleftrightarrow>
     (\<forall>q. under q (resolve E (inbox E)) \<longrightarrow> \<not> is_file w q) \<and> \<not> is_dir w (part_path E cid) \<and> \<not> is_dir w (final_path E cid)"

lemma receive_snapshot_wp:
  assumes cid: "CHR ''/'' \<notin> set (he_container_id hello)"
  shows "wp (receive_snapshot E hello inp)
     (\<lambda>p t. p = final_name E (he_container_id hello)
        \<and> (\<exists>b rest. good_stream hello (j_eof E) crc32_new 0 inp b rest
            \<and> fget t (final_path E (he_container_id hello)) = Some (File b)
            \<and> fget t (part_path E (he_container_id hello)) = None
            \<and> undisturbed E (he_container_id hello) (w\<lparr>fs := AList.update (final_path E (he_container_id hello)) (File b) (fs w)\<rparr>) t))
     (\<lambda>_ t. undisturbed E (he_container_id hello) w t
        \<and> (no_faults E \<and> inbox_usable E (he_container_id hello) w \<longrightarrow>
            (\<forall>b rest. good_stream hello (j_eof E) crc32_new 0 inp b rest \<longrightarrow> unat (he_snapshot_bytes hello) < length b))) w"
    (is "wp _ ?Q ?R w")
proof -
  define d cid' where "d = resolve E (inbox E)" and "cid' = he_container_id hello"
  define part fin where "part = part_path E cid'" and "fin = final_path E cid'"
  have cid': "CHR ''/'' \<notin> set cid'" using cid by (simp add: cid'_def)
  note paths = inbox_paths [OF cid', of E, folded d_def part_def fin_def]
  have ne: "part \<noteq> fin" "\<not> under part d" "\<not> under fin d" "butlast part = d" "butlast fin = d" "part \<noteq> []" "fin \<noteq> []"
    by (simp_all add: paths)
  let ?mk = "\<lambda>q. if under q d \<and> fget w q = None then Some Dir else fget w q"
  have dist: "undisturbed E cid' w t" if "\<forall>q. q \<noteq> part \<longrightarrow> fget t q = ?mk q" for t
    using that by (simp add: undisturbed_def d_def [symmetric] part_def)
  have made: "?mk d = Some Dir" if "\<forall>q. under q d \<longrightarrow> \<not> is_file w q"
    using that [rule_format, of d] by (auto simp: is_file_def split: option.splits node.splits)
  have step3: "wp (bind_m (mig_err ''commit snapshot'' (fs_rename E part fin))
        (\<lambda>_. return_m (final_name E cid'))) ?Q ?R t"
    if t: "fget t = ?mk(part \<mapsto> File b)" and g: "good_stream hello (j_eof E) crc32_new 0 inp b rest"
      and ok: "\<forall>q. under q d \<longrightarrow> \<not> is_file w q" for t b rest
    unfolding wp_bind wp_mig_err wp_return
  proof (rule wp_mono [OF fs_rename_wp [of E part fin t]], goal_cases)
    case (1 a v)
    then have "fget v = ?mk(part := None, fin \<mapsto> File b)"
      using t by (simp add: fun_eq_iff)
    with g ne show ?case
      by (auto simp: cid'_def [symmetric] d_def [symmetric] part_def [symmetric] fin_def [symmetric] undisturbed_def
          fget_def update_conv' intro!: exI [of _ b] exI [of _ rest])
  next
    case (2 e v)
    have "fget t d = Some Dir"
      using made [OF ok] t ne(2) by auto
    then have "inbox_usable E cid' w \<Longrightarrow> is_file t part \<and> can_create t fin"
      using t ne by (auto simp: is_file_def can_create_def is_dir_def inbox_usable_def fin_def [symmetric])
    with 2 t dist [of v] show ?case
      by (auto simp: cid'_def [symmetric])
  qed
  have step2: "wp (bind_m (recv_loop E hello part inp crc32_new 0) (\<lambda>_.
      bind_m (mig_err ''commit snapshot'' (fs_rename E part fin))
        (\<lambda>_. return_m (final_name E cid')))) ?Q ?R t"
    if t: "fget t = ?mk(part \<mapsto> File [])" and ok: "\<forall>q. under q d \<longrightarrow> \<not> is_file w q" for t
    unfolding wp_bind [of "recv_loop E hello part inp crc32_new 0"]
  proof (rule wp_mono [OF recv_loop_wp [where w = t and old = "[]"]], goal_cases)
    case (2 rest u)
    then obtain b where g: "good_stream hello (j_eof E) crc32_new 0 inp b rest" and u: "fget u = ?mk(part \<mapsto> File b)"
      using t by auto
    show ?case by (rule step3 [OF u g ok])
  next
    case (3 e u)
    with t dist [of u] show ?case
      by (auto simp: cid'_def [symmetric] same_files_def)
  qed (simp add: t)
  show ?thesis
    unfolding receive_snapshot_def Let_def cid'_def [symmetric] part_path_def [symmetric] final_path_def [symmetric]
      d_def [symmetric] part_def [symmetric] fin_def [symmetric]
  proof (unfold wp_bind [of "mig_err ''mkdir inbox'' m" for m] wp_mig_err, rule wp_mono [OF fs_mkdir_wp [of E d w]], goal_cases)
    case (1 a t)
    then have t: "fget t = ?mk" and ok: "\<forall>q. under q d \<longrightarrow> \<not> is_file w q" by simp_all
    show ?case
    proof (unfold wp_bind [of "mig_err (''create '' @ p) m" for p m] wp_mig_err, rule wp_mono [OF fs_create_wp [of E part _ t]], goal_cases)
      case (1 a u)
      then have u: "fget u = ?mk(part \<mapsto> File [])" by (simp add: t)
      show ?case
        using step2 [OF u ok] by (simp only: cid'_def [symmetric] part_def [symmetric] fin_def [symmetric])
    next
      case (2 e u)
      have "inbox_usable E cid' w \<Longrightarrow> can_create t part"
        using t made [OF ok] ne by (auto simp: can_create_def is_dir_def inbox_usable_def part_def [symmetric])
      with 2 t dist [of u] show ?case
        by (auto simp: cid'_def [symmetric])
    qed
  next
    case (2 e t)
    then have "undisturbed E cid' w t"
      unfolding undisturbed_def d_def [symmetric] by blast
    with 2 show ?case
      by (auto simp: cid'_def [symmetric] inbox_usable_def d_def [symmetric])
  qed
qed

section \<open>Sending\<close>

lemma net_sent_log [simp]: "net_sent (log_event e w) = net_sent w @ sent_by e" "net_sent (w\<lparr>tick := k\<rparr>) = net_sent w"
  by (simp_all add: net_sent_def log_event_def)

lemma sent_by_simps [simp]: "sent_by (NetSend b) = b"
  by (simp add: sent_by_def)

lemma net_send_wp:
  "wp (net_send E b) (\<lambda>_ t. net_sent t = net_sent w @ b \<and> fget t = fget w) (\<lambda>_ t. \<not> no_faults E \<and> fget t = fget w) w"
  by (auto simp: net_send_def io_op_def Let_def wp_def no_faults_def split: option.splits)

lemma net_sent_only_tick: "only_tick w t \<Longrightarrow> net_sent t = net_sent w"
  by (simp add: net_sent_def only_tick_same)

lemma write_frame_wp:
  assumes "length payload < 2 ^ 32"
  shows "wp (write_frame E ty payload)
     (\<lambda>_ t. net_sent t = net_sent w @ frame_bytes (ty, payload) \<and> fget t = fget w) (\<lambda>_ t. \<not> no_faults E \<and> fget t = fget w) w"
proof -
  have "wp (bind_m (net_send E [frame_code ty]) (\<lambda>_. bind_m (net_send E (u32_to_be (word_of_nat (length payload)))) (\<lambda>_. net_send E payload)))
      (\<lambda>_ t. net_sent t = net_sent w @ frame_bytes (ty, payload) \<and> fget t = fget w) (\<lambda>_ t. \<not> no_faults E \<and> fget t = fget w) w"
    unfolding wp_bind
    by (rule wp_mono [OF net_send_wp], rule wp_mono [OF net_send_wp], rule wp_mono [OF net_send_wp])
      (auto simp: frame_bytes_def)
  with assms show ?thesis
    by (simp add: write_frame_def del: wp_bind)
qed

definition chunk_frames :: "bytes list \<Rightarrow> bytes" where
  "chunk_frames cs = concat (map (\<lambda>c. frame_bytes (FChunk, c)) cs)"

lemma send_loop_unfold:
  "send_loop E f sent =
     bind_m (mig_err ''read snapshot'' (fd_read E CHUNK_SIZE f)) (\<lambda>buf.
       if buf = [] then return_m sent
       else bind_m (write_frame E FChunk buf) (\<lambda>_. send_loop E (drop (length buf) f) (sent + word_of_nat (length buf))))"
  by (intro ext, subst send_loop.simps, intro bind_m_cong refl) simp

lemma send_loop_wp:
  "wp (send_loop E f sent)
     (\<lambda>n t. n = sent + word_of_nat (length f) \<and> fget t = fget w
        \<and> (\<exists>cs. concat cs = f \<and> list_all (\<lambda>c. c \<noteq> [] \<and> length c \<le> CHUNK_SIZE) cs \<and> net_sent t = net_sent w @ chunk_frames cs))
     (\<lambda>_ t. \<not> no_faults E \<and> fget t = fget w) w"
proof (induction f arbitrary: sent w rule: length_induct)
  case (1 f)
  show ?case
    unfolding send_loop_unfold [of E f] wp_bind wp_mig_err
  proof (rule wp_mono [OF fd_read_wp], goal_cases)
    case (1 c u)
    then obtain n where c: "c = take n f" "n \<le> CHUNK_SIZE" "0 < n" and u: "only_tick w u"
      by (auto simp: CHUNK_SIZE_def)
    show ?case
    proof (cases "c = []")
      case True
      with c u show ?thesis
        by (auto simp: only_tick_fget net_sent_only_tick chunk_frames_def intro: exI [of _ "[]"])
    next
      case False
      then have less: "length (drop (length c) f) < length f" "length c \<le> CHUNK_SIZE" "length c < 2 ^ 32"
        using c by (auto simp: CHUNK_SIZE_def)
      have whole: "c @ drop (length c) f = f"
        using c(1) by (metis append_eq_conv_conj append_take_drop_id)
      note ih = \<open>\<forall>y. length y < length f \<longrightarrow> _\<close> [rule_format, OF less(1), of "sent + word_of_nat (length c)"]
      have len: "word_of_nat (length c) + word_of_nat (length f - length c) = (word_of_nat (length f) :: u64)"
        using whole by (metis length_append length_drop of_nat_add)
      have "wp (bind_m (write_frame E FChunk c) (\<lambda>_. send_loop E (drop (length c) f) (sent + word_of_nat (length c))))
         (\<lambda>n t. n = sent + word_of_nat (length f) \<and> fget t = fget w
            \<and> (\<exists>cs. concat cs = f \<and> list_all (\<lambda>c. c \<noteq> [] \<and> length c \<le> CHUNK_SIZE) cs \<and> net_sent t = net_sent w @ chunk_frames cs))
         (\<lambda>_ t. \<not> no_faults E \<and> fget t = fget w) u"
        unfolding wp_bind
      proof (rule wp_mono [OF write_frame_wp [OF less(3)]], goal_cases)
        case (1 a v)
        show ?case
        proof (rule wp_mono [OF ih], goal_cases)
          case (1 n t)
          then obtain cs where cs: "concat cs = drop (length c) f" "list_all (\<lambda>c. c \<noteq> [] \<and> length c \<le> CHUNK_SIZE) cs"
            "net_sent t = net_sent v @ chunk_frames cs" by blast
          have "concat (c # cs) = f" "list_all (\<lambda>c. c \<noteq> [] \<and> length c \<le> CHUNK_SIZE) (c # cs)"
            "net_sent t = net_sent w @ chunk_frames (c # cs)"
            using cs less(2) whole False u \<open>net_sent v = _ \<and> _\<close> by (simp_all add: chunk_frames_def net_sent_only_tick)
          moreover have "n = sent + word_of_nat (length f)" "fget t = fget w"
            using 1 u \<open>net_sent v = _ \<and> _\<close> len by (simp_all add: add.assoc only_tick_fget)
          ultimately show ?case by blast
        qed (use 1 u in \<open>simp add: only_tick_fget\<close>)
      qed (use u in \<open>simp add: only_tick_fget\<close>)
      with False show ?thesis by (simp del: wp_bind)
    qed
  qed (simp add: only_tick_fget)
qed

lemma wp_mig_err_fun: "wp (mig_err what m) Q R = wp m Q (\<lambda>e. R (Migration (what @ '': '' @ e)))"
  by (rule ext) simp

lemma send_body_wp:
  assumes f: "fget w (resolve E path) = Some (File f)" and small: "length body < 2 ^ 32"
    and json: "js_to (j_eof E) \<lparr>ef_bytes = word_of_nat (length f), ef_crc32 = crc\<rparr> = Inr body"
  shows "wp (send_body E path file_bytes crc)
     (\<lambda>_ t. file_bytes = word_of_nat (length f)
        \<and> (\<exists>cs. concat cs = f \<and> list_all (\<lambda>c. c \<noteq> [] \<and> length c \<le> CHUNK_SIZE) cs
             \<and> net_sent t = net_sent w @ chunk_frames cs @ frame_bytes (FEof, as_bytes body)))
     (\<lambda>_ _. no_faults E \<longrightarrow> file_bytes \<noteq> word_of_nat (length f)) w" (is "wp _ ?Q ?R w")
proof -
  have eof: "wp (bind_m (write_json E FEof (j_eof E) \<lparr>ef_bytes = word_of_nat (length f), ef_crc32 = crc\<rparr>) (\<lambda>_. mig_err ''flush'' (io_touch E)))
      ?Q ?R t"
    if "file_bytes = word_of_nat (length f)" "concat cs = f" "list_all (\<lambda>c. c \<noteq> [] \<and> length c \<le> CHUNK_SIZE) cs"
      "net_sent t = net_sent w @ chunk_frames cs" for t cs
  proof -
    have "wp (write_frame E FEof (as_bytes body)) (\<lambda>_. wp (io_touch E) ?Q (\<lambda>e. ?R (Migration (''flush'' @ '': '' @ e)))) ?R t"
    proof (rule wp_mono [OF write_frame_wp], goal_cases)
      case (2 a u)
      show ?case
      proof (rule wp_mono [OF implements_wp [OF implements_touch]], goal_cases)
        case (1 b v)
        then have "net_sent v = net_sent w @ chunk_frames cs @ frame_bytes (FEof, as_bytes body)"
          using 2 that(4) by (simp add: net_sent_only_tick)
        with that(1-3) show ?case by blast
      qed auto
    qed (use small in auto)
    then show ?thesis
      by (simp add: write_json_def to_json_def json wp_mig_err_fun)
  qed
  show ?thesis
    unfolding send_body_def wp_bind [of "mig_err (''open '' @ path) m" for m] wp_mig_err
  proof (rule wp_mono [OF fs_read_wp'], goal_cases)
    case (1 b t)
    then have t: "b = f" "only_tick w t" using f by simp_all
    show ?case
      unfolding t(1) wp_bind [of "send_loop E f 0"]
    proof (rule wp_mono [OF send_loop_wp [where w = t]], goal_cases)
      case (1 n u)
      then obtain cs where "n = word_of_nat (length f)" "concat cs = f" "list_all (\<lambda>c. c \<noteq> [] \<and> length c \<le> CHUNK_SIZE) cs"
        "net_sent u = net_sent w @ chunk_frames cs"
        using t(2) by (auto simp: net_sent_only_tick)
      with eof [of cs u] show ?case by (auto simp del: wp_bind)
    qed simp
  qed (use f in \<open>simp add: is_file_def\<close>)
qed

lemma chunks_deliver:
  assumes "list_all (\<lambda>c. c \<noteq> [] \<and> length c \<le> CHUNK_SIZE) cs"
    and "wf_frame (FEof, body)" and "from_slice J body = Inr eof"
  shows "delivers J (chunk_frames cs @ frame_bytes (FEof, body) @ rest) (concat cs) eof rest"
  using assms(1)
proof (induction cs)
  case Nil
  show ?case
    using delivers_eof [OF parse_frame_enc [OF assms(2)] assms(3)] by (simp add: chunk_frames_def)
next
  case (Cons c cs)
  have "wf_frame (FChunk, c)"
    using Cons.prems by (simp add: wf_frame_def CHUNK_SIZE_def)
  from delivers_chunk [OF parse_frame_enc [OF this]] Cons show ?case
    by (simp add: chunk_frames_def)
qed

section \<open>Properties of the transfer\<close>

text \<open>
  C9: For a container id without a slash, and whatever the peer sends and whichever I/O calls fail,
  the receiver either commits, under the id's name in its inbox, exactly the payloads of the chunk
  frames up to an end-of-file frame whose byte count and CRC-32 match them and the CRC-32 announced
  in the handshake, with no partial file left; or it reports an error and nothing but the partial
  file (and directories leading to the inbox) has changed, in particular not an earlier snapshot of
  that name. Without I/O faults it commits every such stream that is no longer than announced.
\<close>
theorem received_snapshot_is_exact_or_absent:
  assumes "CHR ''/'' \<notin> set (he_container_id hello)"
  shows "wp (receive_snapshot E hello inp)
     (\<lambda>p t. p = final_name E (he_container_id hello)
        \<and> (\<exists>b rest. good_stream hello (j_eof E) crc32_new 0 inp b rest
            \<and> fget t (final_path E (he_container_id hello)) = Some (File b)
            \<and> fget t (part_path E (he_container_id hello)) = None
            \<and> undisturbed E (he_container_id hello) (w\<lparr>fs := AList.update (final_path E (he_container_id hello)) (File b) (fs w)\<rparr>) t))
     (\<lambda>_ t. undisturbed E (he_container_id hello) w t
        \<and> (no_faults E \<and> inbox_usable E (he_container_id hello) w \<longrightarrow>
            (\<forall>b rest. good_stream hello (j_eof E) crc32_new 0 inp b rest \<longrightarrow> unat (he_snapshot_bytes hello) < length b))) w"
  by (rule receive_snapshot_wp [OF assms])

text \<open>
  C13: A transfer is faithful end to end: when the sender's transmission of a file succeeds, a
  receiver that reads those very bytes off the wire, whose handshake announced the file's size and
  CRC-32, and that has a usable inbox and no I/O faults, commits a file with exactly the sender's
  contents.
\<close>
theorem transfer_end_to_end:
  assumes src: "fget w (resolve E path) = Some (File f)" and len: "length f < 2 ^ 64"
    and json: "js_to (j_eof E) \<lparr>ef_bytes = word_of_nat (length f), ef_crc32 = crc32 f\<rparr> = Inr body"
      "js_from (j_eof E') body = Inr \<lparr>ef_bytes = word_of_nat (length f), ef_crc32 = crc32 f\<rparr>" "length body \<le> 4 * 1024 * 1024"
    and sent: "send_body E path file_bytes (crc32 f) w = (Inr (), t)" "net_sent t = net_sent w @ wire"
    and hello: "he_snapshot_bytes hello = file_bytes" "he_snapshot_crc32 hello = crc32 f" "CHR ''/'' \<notin> set (he_container_id hello)"
    and receiver: "no_faults E'" "inbox_usable E' (he_container_id hello) w'"
  shows "wp (receive_snapshot E' hello wire)
     (\<lambda>_ u. fget u (final_path E' (he_container_id hello)) = Some (File f)) (\<lambda>_ _. False) w'"
proof -
  have "length body < 2 ^ 32" using json(3) by simp
  from wp_InrD [OF send_body_wp [OF src this json(1)] sent(1)]
  obtain cs where fb: "file_bytes = word_of_nat (length f)" and cs: "concat cs = f"
    "list_all (\<lambda>c. c \<noteq> [] \<and> length c \<le> CHUNK_SIZE) cs" and wire: "wire = chunk_frames cs @ frame_bytes (FEof, as_bytes body)"
    using sent(2) by auto
  have "delivers (j_eof E') wire f \<lparr>ef_bytes = word_of_nat (length f), ef_crc32 = crc32 f\<rparr> []"
    using chunks_deliver [OF cs(2), of "as_bytes body" "j_eof E'" _ "[]"] json(2,3)
    by (simp add: wire cs(1) wf_frame_def from_slice_def from_json_def)
  then have good: "good_stream hello (j_eof E') crc32_new 0 wire f []"
    using hello(2) by (auto simp: good_stream_def crc32_def)
  have unique: "b = f" if "good_stream hello (j_eof E') crc32_new 0 wire b rest" for b rest
    by (rule good_stream_unique [OF good that])
  have "length f \<le> unat (he_snapshot_bytes hello)"
    using hello(1) fb len by (simp add: unat_of_nat)
  then show ?thesis
    using good receiver
    by (intro wp_mono [OF receive_snapshot_wp [OF hello(3)]]) (auto dest: unique)
qed

section \<open>The handshake\<close>

definition parse_json_frame :: "'b tenv_scheme \<Rightarrow> FrameType \<Rightarrow> 'a json \<Rightarrow> bytes \<Rightarrow> ('a \<times> bytes) result" where
  "parse_json_frame E expect J r =
     bind_res (parse_frame r) (\<lambda>((t, body), rest).
       if t = FError then
         Inl (Migration (''peer refused: '' @
           (case from_slice (j_error E) body of Inr e \<Rightarrow> er_message e | Inl _ \<Rightarrow> ''peer sent an unreadable error'')))
       else if t \<noteq> expect then Inl (Migration ''protocol error: unexpected frame'')
       else bind_res (from_slice J body) (\<lambda>v. Inr (v, rest)))"

lemma implements_bind_res:
  assumes "implements E m r" and "\<And>a. r = Inr a \<Longrightarrow> implements E (f a) (g a)"
  shows "implements E (bind_m m f) (bind_res r g)"
  using implements_bind [OF assms] by (simp add: bind_res_def)

lemma read_json_implements: "implements E (read_json E expect J r) (parse_json_frame E expect J r)"
proof -
  have eq: "parse_json_frame E expect J r =
     bind_res (parse_header r) (\<lambda>((t, len), r1).
     bind_res (if length r1 < unat len then Inl (Migration (''read frame payload'' @ '': failed to fill whole buffer''))
      else Inr (take (unat len) r1, drop (unat len) r1)) (\<lambda>(body, r2).
       if t = FError then
         Inl (Migration (''peer refused: '' @
           (case from_slice (j_error E) body of Inr e \<Rightarrow> er_message e | Inl _ \<Rightarrow> ''peer sent an unreadable error'')))
       else if t \<noteq> expect then Inl (Migration ''protocol error: unexpected frame'')
       else bind_res (from_slice J body) (\<lambda>v. Inr (v, r2))))"
    by (auto simp: parse_json_frame_def parse_frame_def bind_res_def split: sum.splits prod.splits)
  show ?thesis
    unfolding read_json_def eq
  proof (rule implements_bind_res [OF read_header_implements], goal_cases)
    case (1 a)
    obtain t len r1 where a: "a = ((t, len), r1)" by (metis surj_pair)
    show ?case
      unfolding a prod.case
    proof (rule implements_bind_res [OF read_payload_implements], goal_cases)
      case (1 p)
      show ?case
        by (cases p) (simp add: implements_throw implements_bind_res implements_lift implements_return)
    qed
  qed
qed

text \<open>The host is as it was, except that bytes have been sent to the peer.\<close>

definition only_sent :: "world \<Rightarrow> world \<Rightarrow> bool" where
  "only_sent w t \<longleftrightarrow> fs t = fs w \<and> procs t = procs w \<and> cgs t = cgs w \<and> (\<exists>bs. events t = events w @ map NetSend bs)"

lemma only_sent_refl [simp]: "only_sent w w"
  by (auto simp: only_sent_def intro: exI [of _ "[]"])

lemma only_sent_tick [simp]: "only_sent w (t\<lparr>tick := k\<rparr>) = only_sent w t"
  by (simp add: only_sent_def)

lemma only_sent_log: "only_sent w t \<Longrightarrow> only_sent w (log_event (NetSend b) t)"
  by (auto simp: only_sent_def log_event_def intro: exI [of _ "_ @ [b]"])

lemma keeps_only_sent_net [mc_same]: "keeps (only_sent w) (net_send E b)"
  by (intro keepsI) (simp add: net_send_def io_op_def Let_def only_sent_log split: option.splits)

lemma keeps_only_sent_implements: "implements E m r \<Longrightarrow> keeps (only_sent w) m"
proof (rule keepsI)
  fix s :: world
  assume "implements E m r" and s: "only_sent w s"
  then have "only_tick s (snd (m s))"
    using implements_wp [of E m r s] by (auto simp: wp_def split: prod.splits sum.splits)
  with s show "only_sent w (snd (m s))"
    by (simp add: only_sent_def only_tick_same)
qed

lemmas keeps_only_sent_touch [mc_same] = keeps_only_sent_implements [OF implements_touch]
lemmas keeps_only_sent_json [mc_same] = keeps_only_sent_implements [OF read_json_implements]

lemma keeps_only_sent_frame [mc_same]:
  "keeps (only_sent w) (write_frame E t b)" "keeps (only_sent w) (write_json E t J v)"
  unfolding write_frame_def write_json_def by (intro mc_keeps mc_same)+

lemma keeps_only_sent_handshake: "keeps (only_sent w) (handshake E token inp)"
  unfolding handshake_def refuse_def send_ack_def by (intro mc_keeps mc_same)

lemma refuse_never_returns: "wp (refuse E reason) (\<lambda>_ _. False) (\<lambda>_ _. True) w"
  by (simp add: refuse_def wp_def bind_m_def ignore_m_def throw_m_def split: prod.splits sum.splits)

lemma handshake_wp:
  "wp (handshake E token inp)
     (\<lambda>a _. (\<exists>body. parse_frame inp = Inr ((FHello, body), snd a) \<and> from_slice (j_hello E) body = Inr (fst a))
        \<and> he_proto_version (fst a) = PROTO_VERSION \<and> he_token (fst a) = token \<and> he_source_arch (fst a) = e_arch E)
     (\<lambda>_ _. True) w"
proof -
  have refuse: "wp (refuse E reason) Q (\<lambda>_ _. True) v" for reason Q v
    by (rule wp_mono [OF refuse_never_returns]) simp_all
  have triv: "wp m (\<lambda>_ _. True) (\<lambda>_ _. True) v" for m :: "unit io" and v
    by (simp add: wp_def split: prod.splits sum.splits)
  show ?thesis
    unfolding handshake_def wp_bind wp_mig_err
  proof (rule wp_mono [OF implements_wp [OF implements_touch]], goal_cases)
    case (1 a t)
    show ?case
    proof (rule wp_mono [OF implements_wp [OF read_json_implements]], goal_cases)
      case (1 a u)
      then obtain body where "parse_frame inp = Inr ((FHello, body), snd a)" "from_slice (j_hello E) body = Inr (fst a)"
        by (auto simp: parse_json_frame_def bind_res_Inr_iff split: if_splits)
      then show ?case
        by (auto simp: split_beta intro!: refuse wp_mono [OF triv] wp_mono [OF implements_wp [OF implements_touch]])
    qed simp
  qed simp
qed

text \<open>
  C15: The receiver goes past the handshake only for a peer whose first frame is a HELLO that it can
  read, with its own protocol version, its own token and its own architecture; and whatever the peer
  sends, the handshake has no effect on the host but the bytes it answers with: no file, process or
  control group is touched and no program is run.
\<close>
theorem handshake_admits_only_matching_peers:
  "wp (handshake E token inp)
     (\<lambda>(hello, rest) t. (\<exists>body. parse_frame inp = Inr ((FHello, body), rest) \<and> from_slice (j_hello E) body = Inr hello)
        \<and> he_proto_version hello = PROTO_VERSION \<and> he_token hello = token \<and> he_source_arch hello = e_arch E
        \<and> only_sent w t)
     (\<lambda>_ t. only_sent w t) w"
  using wp_conj [OF handshake_wp keeps_wp [OF keeps_only_sent_handshake only_sent_refl]]
  by (rule wp_mono) (auto simp: split_beta)

text \<open>
  The inbox does not confine a hostile peer: the names of the partial and of the committed file
  are built from the container id the peer announces, and an id that is an absolute path replaces
  the inbox altogether, so that the received bytes land at a path of the peer's choosing.
\<close>
theorem inbox_name_escapes:
  "resolve E (final_name E ''/etc/cron.d/job'') = [''etc'', ''cron.d'', ''job.mcsnap'']
   \<and> resolve E (part_name E ''/etc/cron.d/job'') = [''etc'', ''cron.d'', ''job.mcsnap.part'']"
proof -
  have join: "path_join d ''/etc/cron.d/job.mcsnap'' = ''/etc/cron.d/job.mcsnap''"
    "path_join d ''/etc/cron.d/job.mcsnap.part'' = ''/etc/cron.d/job.mcsnap.part''" for d
    by (simp_all add: path_join_def is_absolute_def)
  have "components ''/etc/cron.d/job.mcsnap'' = [RootDir, Normal ''etc'', Normal ''cron.d'', Normal ''job.mcsnap'']"
    "components ''/etc/cron.d/job.mcsnap.part'' = [RootDir, Normal ''etc'', Normal ''cron.d'', Normal ''job.mcsnap.part'']"
    by code_simp+
  with join show ?thesis
    by (simp add: final_name_def part_name_def resolve_def)
qed

section \<open>A concrete transfer\<close>

definition demo_eof :: Eof where
  "demo_eof = \<lparr>ef_bytes = 3, ef_crc32 = crc32 [1, 2, 3]\<rparr>"

definition demo_hello :: Hello where
  "demo_hello = \<lparr>he_proto_version = 1, he_producer = ''mincontainer/0.1.0'', he_container_id = ''c1'', he_source_host = ''a'',
     he_source_arch = ''x86_64'', he_snapshot_bytes = 3, he_snapshot_crc32 = crc32 [1, 2, 3], he_token = []\<rparr>"

definition demo_tenv :: tenv where
  "demo_tenv = snenv.extend demo_snenv (tenv.fields
     \<lparr>js_to = \<lambda>_. Inr ''{}'', js_from = \<lambda>_. Inr demo_hello\<rparr>
     \<lparr>js_to = \<lambda>_. Inr ''{}'', js_from = \<lambda>_. Inl ''unreadable''\<rparr>
     \<lparr>js_to = \<lambda>_. Inr ''{}'', js_from = \<lambda>_. Inr demo_eof\<rparr>
     \<lparr>js_to = \<lambda>_. Inr ''{}'', js_from = \<lambda>_. Inl ''unreadable''\<rparr>
     \<lparr>js_to = \<lambda>_. Inr ''{}'', js_from = \<lambda>_. Inl ''unreadable''\<rparr>
     (\<lambda>_. Inr [''10.0.0.2:7373'']) (\<lambda>_ _. None) (\<lambda>_. None) (\<lambda>_ _. 0))"

lemma demo_tenv_sel [simp]:
  "faulty demo_tenv = (\<lambda>_. None)" "e_cwd demo_tenv = []" "e_home demo_tenv = Some ''/h''"
  "j_eof demo_tenv = \<lparr>js_to = \<lambda>_. Inr ''{}'', js_from = \<lambda>_. Inr demo_eof\<rparr>"
  by (simp_all add: demo_tenv_def demo_snenv_def demo_senv_def senv.defs snenv.defs tenv.defs)

lemma demo_tenv_no_faults [simp]: "no_faults demo_tenv"
  by (simp add: no_faults_def)

definition demo_inbox :: fspath where
  "demo_inbox = [''h'', ''.mincontainer'', ''inbox'']"

lemma demo_inbox_resolve: "resolve demo_tenv (inbox demo_tenv) = demo_inbox"
proof -
  have "foldl resolve_step [] (components (path_join ''/h'' ''.mincontainer/inbox'')) = demo_inbox"
    by code_simp
  then show ?thesis by (simp add: resolve_def inbox_def home_dir_def)
qed

lemma demo_id: "CHR ''/'' \<notin> set (he_container_id demo_hello)"
  by (simp add: demo_hello_def)

lemma demo_inbox_usable: "inbox_usable demo_tenv (he_container_id demo_hello) demo_world"
proof -
  have "list_all (\<lambda>q. \<not> is_file demo_world q) (prefixes_of demo_inbox)"
    "\<not> is_dir demo_world (demo_inbox @ [''c1.mcsnap.part''])" "\<not> is_dir demo_world (demo_inbox @ [''c1.mcsnap''])"
    by code_simp+
  then show ?thesis
    by (simp add: inbox_usable_def inbox_paths demo_inbox_resolve demo_hello_def list_all_iff set_prefixes_of under_def)
qed

theorem received_snapshot_is_exact_or_absent_witness:
  "wp (receive_snapshot demo_tenv demo_hello (chunk_frames [[1, 2], [3]] @ frame_bytes (FEof, as_bytes ''{}'')))
     (\<lambda>_ t. fget t (final_path demo_tenv (he_container_id demo_hello)) = Some (File [1, 2, 3])) (\<lambda>_ _. False) demo_world"
proof -
  let ?r = "chunk_frames [[1, 2], [3]] @ frame_bytes (FEof, as_bytes ''{}'')"
  have "delivers (j_eof demo_tenv) ?r [1, 2, 3] demo_eof []"
    using chunks_deliver [of "[[1, 2], [3]]" "as_bytes ''{}''" "j_eof demo_tenv" demo_eof "[]"]
    by (simp add: CHUNK_SIZE_def wf_frame_def from_slice_def from_json_def)
  moreover have "ef_bytes demo_eof = 0 + word_of_nat (length [1, 2, 3 :: byte])"
    by (simp add: demo_eof_def)
  moreover have "ef_crc32 demo_eof = he_snapshot_crc32 demo_hello"
    "crc32_finish (crc32_update crc32_new [1, 2, 3]) = he_snapshot_crc32 demo_hello"
    by (simp_all only: demo_eof_def demo_hello_def Eof.simps Hello.simps crc32_def)
  ultimately have good: "good_stream demo_hello (j_eof demo_tenv) crc32_new 0 ?r [1, 2, 3] []"
    unfolding good_stream_def by (intro exI [of _ demo_eof] conjI)
  have unique: "b = [1, 2, 3]" if "good_stream demo_hello (j_eof demo_tenv) crc32_new 0 ?r b rest" for b rest
    by (rule good_stream_unique [OF good that])
  have "length [1, 2, 3 :: byte] \<le> unat (he_snapshot_bytes demo_hello)"
    by (simp add: demo_hello_def)
  with good demo_inbox_usable show ?thesis
    by (intro wp_mono [OF received_snapshot_is_exact_or_absent [OF demo_id]]) (auto dest: unique simp del: demo_tenv_sel)
qed

theorem transfer_end_to_end_witness:
  "\<exists>wire. wp (receive_snapshot demo_tenv demo_hello wire)
     (\<lambda>_ t. fget t (final_path demo_tenv (he_container_id demo_hello)) = Some (File [1, 2, 3])) (\<lambda>_ _. False) demo_world"
proof -
  let ?w = "demo_world\<lparr>fs := [([''h'', ''f''], File [1, 2, 3])]\<rparr>"
  have "foldl resolve_step [] (components ''/h/f'') = [''h'', ''f'']"
    by code_simp
  then have src: "fget ?w (resolve demo_tenv ''/h/f'') = Some (File [1, 2, 3])"
    by (simp add: resolve_def fget_def)
  have eof: "\<lparr>ef_bytes = word_of_nat (length [1, 2, 3 :: byte]), ef_crc32 = crc32 [1, 2, 3]\<rparr> = demo_eof"
    by (simp add: demo_eof_def)
  have "wp (send_body demo_tenv ''/h/f'' 3 (crc32 [1, 2, 3])) (\<lambda>_ t. \<exists>wire. net_sent t = net_sent ?w @ wire) (\<lambda>_ _. False) ?w"
    by (rule wp_mono [OF send_body_wp [OF src, where body = "''{}''"]]) auto
  then obtain t wire where sent: "send_body demo_tenv ''/h/f'' 3 (crc32 [1, 2, 3]) ?w = (Inr (), t)" "net_sent t = net_sent ?w @ wire"
    by (auto simp: wp_def split: prod.splits sum.splits)
  have "wp (receive_snapshot demo_tenv demo_hello wire)
     (\<lambda>_ t. fget t (final_path demo_tenv (he_container_id demo_hello)) = Some (File [1, 2, 3])) (\<lambda>_ _. False) demo_world"
    by (rule transfer_end_to_end [OF src _ _ _ _ sent _ _ demo_id _ demo_inbox_usable, where body = "''{}''"])
      (use eof in \<open>simp_all add: demo_hello_def\<close>)
  then show ?thesis ..
qed

end
