(* ===== verification/Migrate_Facts.thy ===== *)
theory Migrate_Facts
  imports Migrate Transport_Facts Restore_Facts
begin

text \<open>
  What a migration promises on either side: the receiver acts only on an authenticated, intact
  transfer, and the sender gives up its claim only when the receiver has confirmed.
\<close>

section \<open>The sender touches nothing\<close>

lemma only_sent_trans: "only_sent u v \<Longrightarrow> only_sent v w \<Longrightarrow> only_sent u w"
  by (auto simp: only_sent_def simp flip: map_append)

lemma only_sent_only_tick: "only_tick w t \<Longrightarrow> only_sent w t"
  by (auto simp: only_sent_def only_tick_same intro: exI [of _ "[]"])

lemma keeps_only_sent_io:
  assumes "\<And>s. snd (f s) = s"
  shows "keeps (only_sent w) (io_op E no_work f)"
  by (rule keepsI) (simp add: io_op_def Let_def no_work_def assms split: option.splits)

lemma keeps_only_sent_reads [mc_same]:
  "keeps (only_sent w) (fs_read E p)" "keeps (only_sent w) (fd_read E n f)" "keeps (only_sent w) (file_bytes_m E path)"
  unfolding fs_read_def fd_read_def file_bytes_m_def by (intro mc_keeps keeps_only_sent_io; simp)+

lemma keeps_stepD: "keeps P m \<Longrightarrow> P s \<Longrightarrow> m s = (r, t) \<Longrightarrow> P t"
  by (drule (1) keepsD) simp

lemma keeps_list [mc_keeps]: "keeps P m \<Longrightarrow> (\<And>x xs. keeps P (f x xs)) \<Longrightarrow> keeps P (case l of [] \<Rightarrow> m | x # xs \<Rightarrow> f x xs)"
  by (cases l) simp_all

lemma crc_loop_only_sent: "only_sent v w \<Longrightarrow> only_sent v (snd (crc_loop E what f crc w))"
proof (induction E what f crc w rule: crc_loop.induct)
  case (1 E what f crc w)
  obtain r u where run: "mig_err what (fd_read E CHUNK_SIZE f) w = (r, u)" by fastforce
  have "keeps (only_sent v) (mig_err what (fd_read E CHUNK_SIZE f))"
    by (intro mc_keeps mc_same)
  then have u: "only_sent v u"
    using 1(2) run by (rule keeps_stepD)
  show ?case
  proof (cases r)
    case (Inl e)
    with run u show ?thesis by (subst crc_loop.simps) (simp add: bind_m_def)
  next
    case (Inr c)
    then show ?thesis
      using run u 1(1) [of c u] by (subst crc_loop.simps) (cases "c = []", simp_all add: bind_m_def return_m_def)
  qed
qed

lemma send_loop_only_sent: "only_sent v w \<Longrightarrow> only_sent v (snd (send_loop E f n w))"
proof (induction E f n w rule: send_loop.induct)
  case (1 E f n w)
  obtain r u where run: "mig_err ''read snapshot'' (fd_read E CHUNK_SIZE f) w = (r, u)" by fastforce
  have "keeps (only_sent v) (mig_err ''read snapshot'' (fd_read E CHUNK_SIZE f))"
    by (intro mc_keeps mc_same)
  then have u: "only_sent v u"
    using 1(2) run by (rule keeps_stepD)
  show ?case
  proof (cases r)
    case (Inl e)
    with run u show ?thesis by (subst send_loop.simps) (simp add: bind_m_def)
  next
    case (Inr c)
    obtain r' x where run': "write_frame E FChunk c u = (r', x)" by fastforce
    have x: "only_sent v x"
      using keeps_only_sent_frame(1) u run' by (rule keeps_stepD)
    from Inr show ?thesis
      using run u run' x 1(1) [of c u _ x]
      by (subst send_loop.simps) (cases "c = []"; cases r'; simp add: bind_m_def return_m_def)
  qed
qed

lemma keeps_only_sent_loops [mc_same]:
  "keeps (only_sent v) (crc_loop E what f crc)" "keeps (only_sent v) (send_loop E f n)"
  by (simp_all add: keeps_def crc_loop_only_sent send_loop_only_sent)

lemma keeps_only_sent_send [mc_same]: "keeps (only_sent w) (send_snapshot E cid snap target token inp)"
  unfolding send_snapshot_def net_resolve_m_def crc_of_file_def connect_m_def send_hello_def send_body_def since_m_def Let_def
  by (intro mc_keeps mc_same)

section \<open>Confirmation\<close>

text \<open>The peer accepted the migration and reported that the container runs there.\<close>

definition confirmed :: "'b tenv_scheme \<Rightarrow> bytes \<Rightarrow> bool" where
  "confirmed E inp \<longleftrightarrow>
     (\<exists>ack rest res rest'. parse_json_frame E FHelloAck (j_hello_ack E) inp = Inr (ack, rest) \<and> ha_accept ack
        \<and> ha_receiver_arch ack = e_arch E
        \<and> parse_json_frame E FResult (j_result E) rest = Inr (res, rest') \<and> mr_ok res)"

lemma send_hello_wp:
  "wp (send_hello E cid target n crc token inp)
     (\<lambda>rest _. \<exists>ack. parse_json_frame E FHelloAck (j_hello_ack E) inp = Inr (ack, rest) \<and> ha_accept ack \<and> ha_receiver_arch ack = e_arch E)
     (\<lambda>_ _. True) w"
  unfolding send_hello_def
  by (rule wp_skip, rule wp_skip, unfold wp_bind [of "read_json E t J r" for t J r],
      rule wp_mono [OF implements_wp [OF read_json_implements]]) auto

lemma send_result_wp:
  "wp (bind_m (read_json E FResult (j_result E) rest) (\<lambda>(res, _).
       if \<not> mr_ok res then throw_m (e res) else return_m (f res)))
     (\<lambda>_ _. \<exists>res rest'. parse_json_frame E FResult (j_result E) rest = Inr (res, rest') \<and> mr_ok res) (\<lambda>_ _. True) w"
  unfolding wp_bind by (rule wp_mono [OF implements_wp [OF read_json_implements]]) auto

lemma send_snapshot_confirmed:
  "wp (send_snapshot E cid snap target token inp) (\<lambda>_ _. confirmed E inp) (\<lambda>_ _. True) w"
proof -
  have result: "wp (bind_m (read_json E FResult (j_result E) rest) (\<lambda>(res, _).
       if \<not> mr_ok res then throw_m (e res) else return_m (f res))) (\<lambda>_ _. confirmed E inp) (\<lambda>_ _. True) u"
    if "\<exists>ack. parse_json_frame E FHelloAck (j_hello_ack E) inp = Inr (ack, rest) \<and> ha_accept ack \<and> ha_receiver_arch ack = e_arch E"
    for rest u e and f :: "MigrateResult \<Rightarrow> Transfer"
    by (rule wp_mono [OF send_result_wp]) (use that in \<open>auto simp: confirmed_def\<close>)
  show ?thesis
    unfolding send_snapshot_def
    by (rule wp_skip, rule wp_skip, rule wp_skip, rule wp_skip, rule wp_skip, rule wp_skip, rule wp_skip,
        rule wp_seq [OF send_hello_wp], rule wp_skip, rule wp_skip, rule result, simp_all)
qed

text \<open>
  C1: A node gives up a container only when the other one has confirmed it. If a migration
  succeeds, the peer accepted the handshake, has this host's architecture and answered with a
  RESULT that says it restored the container, and unless the local copy is kept the record written
  here says migrated, without a process. If it fails without that confirmation, then apart from
  bytes sent the host is exactly as freezing left it: the record, the snapshot and everything else
  are still there, so the container can be restored here. Sending itself never changes a file,
  touches a process or runs a program.
\<close>
theorem migrate_releases_only_when_confirmed:
  "wp (migrate E cid target opts inp)
     (\<lambda>_ t. confirmed E inp
        \<and> (mg_keep_local opts \<or> stores E cid (\<lambda>r. cs_status r = as_str Migrated \<and> cs_pid r = None) t))
     (\<lambda>_ t. confirmed E inp \<or> only_sent (snd (mg_freeze E cid opts w)) t) w" (is "wp _ ?Q ?R w")
proof -
  let ?u = "snd (mg_freeze E cid opts w)"
  have freeze: "wp (mg_freeze E cid opts) (\<lambda>_ t. t = ?u) ?R w"
    by (rule wp_mono [OF wp_same_end]) simp_all
  have send: "wp (map_err_m (not_handed_over cid target) (send_snapshot E cid snap target (mg_token opts) inp))
      (\<lambda>_ _. confirmed E inp) ?R ?u" for snap
    unfolding wp_map_err
    by (rule wp_mono [OF wp_conj [OF send_snapshot_confirmed keeps_wp [OF keeps_only_sent_send only_sent_refl]]]) auto
  have release: "wp (if mg_keep_local opts then return_m () else update_at E cid migrated_update)
      (\<lambda>_ t. mg_keep_local opts \<or> stores E cid (\<lambda>r. cs_status r = as_str Migrated \<and> cs_pid r = None) t) ?R t"
    if "confirmed E inp" for t
    using that by (auto intro!: wp_mono [OF update_at_stores] elim!: stores_mono simp: migrated_update_def)
  have report: "wp (bind_m (since_m E t0) (\<lambda>ms. return_m (f ms))) ?Q ?R t"
    if "confirmed E inp" "mg_keep_local opts \<or> stores E cid (\<lambda>r. cs_status r = as_str Migrated \<and> cs_pid r = None) t"
    for t t0 and f :: "u64 \<Rightarrow> MigrationReport"
    using that by (simp add: since_m_def)
  show ?thesis
    unfolding migrate_def Let_def wp_bind [of "get_m f" for f] wp_get
    by (rule wp_seq [OF freeze], hypsubst, unfold split_beta, rule wp_seq [OF send], rule wp_seq [OF release], assumption, rule report)
qed

section \<open>The receiver acts on authentic transfers only\<close>

definition is_send :: "event \<Rightarrow> bool" where
  "is_send e = (case e of NetSend _ \<Rightarrow> True | _ \<Rightarrow> False)"

definition authentic :: "'b tenv_scheme \<Rightarrow> string \<Rightarrow> bytes \<Rightarrow> bool" where
  "authentic E token inp \<longleftrightarrow>
     (\<exists>hello body rest b rest'. parse_frame inp = Inr ((FHello, body), rest) \<and> from_slice (j_hello E) body = Inr hello
        \<and> he_proto_version hello = PROTO_VERSION \<and> he_token hello = token \<and> he_source_arch hello = e_arch E
        \<and> good_stream hello (j_eof E) crc32_new 0 rest b rest')"

lemma only_sent_logs: "only_sent w t \<Longrightarrow> logs is_send w t"
  by (auto simp: only_sent_def logs_def is_send_def list_all_iff)

lemma keeps_logs_send [mc_logs]: "keeps (logs is_send w) (net_send E b)"
  by (intro keepsI) (simp add: net_send_def io_op_def Let_def logs_log is_send_def split: option.splits)

lemma keeps_logs_implements: "implements E m r \<Longrightarrow> keeps (logs P w) m"
proof (rule keepsI)
  fix s :: world
  assume "implements E m r" and s: "logs P w s"
  then have "only_tick s (snd (m s))"
    using implements_wp [of E m r s] by (auto simp: wp_def split: prod.splits sum.splits)
  with s show "logs P w (snd (m s))"
    using logs_cong [of "snd (m s)" s P w] by (simp add: only_tick_same)
qed

lemmas keeps_logs_framing [mc_logs] = keeps_logs_implements [OF implements_touch]
  keeps_logs_implements [OF read_header_implements] keeps_logs_implements [OF read_payload_implements]

lemma keeps_logs_write [mc_logs]:
  "keeps (logs is_send w) (write_frame E t b)" "keeps (logs is_send w) (write_json E t J v)"
  unfolding write_frame_def write_json_def by (intro mc_keeps mc_logs)+

lemma keeps_logs_recv_eof: "keeps (logs is_send w) (recv_eof E hello part len r crc n)"
  unfolding recv_eof_def corrupted_def by (intro mc_keeps mc_logs)

lemma keeps_logs_recv_loop: "keeps (logs is_send w) (recv_loop E hello part r crc n)"
proof (induction r arbitrary: crc n rule: length_induct)
  case (1 r)
  have rec: "keeps (logs is_send w) (recv_loop E hello part r' crc' n')" if "length r' < length r" for r' crc' n'
    using 1 that by blast
  show ?case
    unfolding recv_loop_unfold [of E hello part r]
  proof (rule bind_known [OF _ read_header_implements keeps_logs_implements [OF read_header_implements]])
    fix h
    assume h: "parse_header r = Inr h"
    then have short: "length (snd h) < length r"
      by (auto simp: parse_header_def Let_def split: if_splits option.splits)
    have payload: "keeps (logs is_send w) (bind_m (read_payload E (snd (fst h)) (snd h)) (\<lambda>p.
         bind_m (mig_err ''write'' (fs_append E part (fst p))) (\<lambda>_.
           if he_snapshot_bytes hello < n + word_of_nat (length (fst p))
           then bind_m (ignore_m (fs_remove_file E part)) (\<lambda>_. throw_m (Migration ''sender exceeded the bytes it announced''))
           else recv_loop E hello part (snd p) (crc32_update crc (fst p)) (n + word_of_nat (length (fst p))))))"
    proof (rule bind_known [OF _ read_payload_implements keeps_logs_implements [OF read_payload_implements]])
      fix p
      assume "(if length (snd h) < unat (snd (fst h)) then Inl (Migration (''read frame payload'' @ '': failed to fill whole buffer''))
          else Inr (take (unat (snd (fst h))) (snd h), drop (unat (snd (fst h))) (snd h))) = Inr p"
      then have "length (snd p) < length r"
        using short by (auto split: if_splits)
      then show "keeps (logs is_send w) (bind_m (mig_err ''write'' (fs_append E part (fst p))) (\<lambda>_.
           if he_snapshot_bytes hello < n + word_of_nat (length (fst p))
           then bind_m (ignore_m (fs_remove_file E part)) (\<lambda>_. throw_m (Migration ''sender exceeded the bytes it announced''))
           else recv_loop E hello part (snd p) (crc32_update crc (fst p)) (n + word_of_nat (length (fst p)))))"
        by (intro mc_keeps mc_logs rec)
    qed
    show "keeps (logs is_send w) (if fst (fst h) = FChunk then
         bind_m (read_payload E (snd (fst h)) (snd h)) (\<lambda>p.
         bind_m (mig_err ''write'' (fs_append E part (fst p))) (\<lambda>_.
           if he_snapshot_bytes hello < n + word_of_nat (length (fst p))
           then bind_m (ignore_m (fs_remove_file E part)) (\<lambda>_. throw_m (Migration ''sender exceeded the bytes it announced''))
           else recv_loop E hello part (snd p) (crc32_update crc (fst p)) (n + word_of_nat (length (fst p)))))
       else if fst (fst h) = FEof then recv_eof E hello part (snd (fst h)) (snd h) crc n
       else bind_m (ignore_m (fs_remove_file E part)) (\<lambda>_. throw_m (Migration ''protocol error: expected CHUNK or EOF'')))"
      by (rule keeps_if, rule payload) (intro mc_keeps mc_logs keeps_logs_recv_eof)
  qed
qed

lemma keeps_logs_receive: "keeps (logs is_send w) (receive_snapshot E hello inp)"
  unfolding receive_snapshot_def Let_def by (intro mc_keeps mc_logs keeps_logs_recv_loop)

lemma receive_snapshot_good:
  "wp (receive_snapshot E hello inp) (\<lambda>_ _. \<exists>b rest. good_stream hello (j_eof E) crc32_new 0 inp b rest) (\<lambda>_ _. True) w"
proof -
  have create: "wp (mig_err what (fs_write E p [])) (\<lambda>_ t. fget t p = Some (File [])) (\<lambda>_ _. True) u" for what p u
    unfolding wp_mig_err by (rule wp_mono [OF fs_write_wp]) simp_all
  have loop: "wp (recv_loop E hello p inp crc32_new 0) (\<lambda>_ _. \<exists>b rest. good_stream hello (j_eof E) crc32_new 0 inp b rest) (\<lambda>_ _. True) u"
    if "fget u p = Some (File [])" for p u
    by (rule wp_mono [OF recv_loop_wp [OF that]]) auto
  show ?thesis
    unfolding receive_snapshot_def Let_def
    by (rule wp_skip, rule wp_seq [OF create], rule wp_seq [OF loop], assumption, rule wp_skip) auto
qed

text \<open>
  C23: The receiver acts on authentic transfers only. For any bytes a peer sends, as long as they are
  not a readable HELLO with the right protocol version, token and architecture followed by chunks
  and an end-of-file frame that match their count and the announced CRC-32, the receiver makes no
  request to the kernel at all: it runs no program, signals no process and touches no control
  group; it only answers on the connection.
\<close>
theorem receiver_acts_on_authentic_transfers_only:
  "wp (handle_one E token index inp) (\<lambda>_ _. authentic E token inp) (\<lambda>_ t. authentic E token inp \<or> logs is_send w t) w"
    (is "wp _ ?Q ?R w")
proof -
  let ?ok = "\<lambda>a. (\<exists>body. parse_frame inp = Inr ((FHello, body), snd a) \<and> from_slice (j_hello E) body = Inr (fst a))
        \<and> he_proto_version (fst a) = PROTO_VERSION \<and> he_token (fst a) = token \<and> he_source_arch (fst a) = e_arch E"
  have hand: "wp (handshake E token inp) (\<lambda>a t. ?ok a \<and> logs is_send w t) ?R w"
    by (rule wp_mono [OF wp_conj [OF handshake_wp keeps_wp [OF keeps_only_sent_handshake only_sent_refl]]])
      (auto dest: only_sent_logs)
  have auth: "authentic E token inp" if "?ok a" "\<exists>b rest. good_stream (fst a) (j_eof E) crc32_new 0 (snd a) b rest" for a
    unfolding authentic_def using that by blast
  have recv: "wp (receive_snapshot E (fst a) (snd a)) (\<lambda>_ _. authentic E token inp) ?R u" if "?ok a" "logs is_send w u" for a u
    by (rule wp_mono [OF wp_conj [OF receive_snapshot_good keeps_wp [OF keeps_logs_receive that(2)]]])
      (use auth [OF that(1)] in auto)
  show ?thesis
    unfolding handle_one_def
    by (rule wp_seq [OF hand], elim conjE, unfold split_beta, rule wp_seq [OF recv], simp, assumption) (rule wp_TrueI; simp)
qed

end
