(* ===== verification/Cli_Facts.thy ===== *)
theory Cli_Facts
  imports Cli_Report Container_Facts Migrate_Facts
begin

text \<open>
  What the commands of \<^verbatim>\<open>src/main.rs\<close> promise to an operator: which processes they signal, which
  records they leave behind, and which exit code they report.
\<close>

section \<open>Running a command\<close>

lemma wp_or_fail [simp]: "wp (or_fail m k) Q R w = wp m (\<lambda>a. wp (k a) Q R) (\<lambda>_. Q (1, [])) w"
  by (simp add: or_fail_def code_def wp_def bind_m_def try_m_def return_m_def split: prod.splits sum.splits)

lemma wp_code [simp]: "wp (code n) Q R w = Q (n, []) w"
  by (simp add: code_def)

text \<open>No file appears, changes or goes away; directories may appear.\<close>

definition files_kept :: "world \<Rightarrow> world \<Rightarrow> bool" where
  "files_kept w t \<longleftrightarrow> (\<forall>p. fget w p \<noteq> None \<longrightarrow> fget t p = fget w p) \<and> (\<forall>p b. fget t p = Some (File b) \<longrightarrow> fget w p = Some (File b))"

lemma files_kept_refl [simp]: "files_kept w w"
  by (simp add: files_kept_def)

lemma files_kept_fget: "fget t = fget u \<Longrightarrow> files_kept w t = files_kept w u"
  by (simp add: files_kept_def)

lemma files_kept_tick [simp]: "files_kept w (t\<lparr>tick := n\<rparr>) = files_kept w t"
  by (rule files_kept_fget) simp

lemma files_kept_mkdirs: "files_kept w t \<Longrightarrow> files_kept w (mkdirs qs t)"
  unfolding files_kept_def fget_mkdirs by (metis (no_types, lifting) node.distinct(1) option.inject)

lemma keeps_files_mkdir: "keeps (files_kept w) (fs_create_dir_all E p)"
  by (rule keepsI) (auto simp: fs_create_dir_all_def io_op_def Let_def files_kept_mkdirs split: option.splits)

lemma content_of_kept:
  assumes "files_kept w t"
  shows "content_of E cid t = content_of E cid w"
proof -
  have "fget t p = Some (File b) \<longleftrightarrow> fget w p = Some (File b)" for p b
    using assms unfolding files_kept_def by (metis option.distinct(1))
  then have "content_of E cid t = Some st \<longleftrightarrow> content_of E cid w = Some st" for st
    unfolding content_of_Some by simp
  then show ?thesis by (metis option.exhaust)
qed

definition untouched :: "world \<Rightarrow> world \<Rightarrow> bool" where
  "untouched w t \<longleftrightarrow> files_kept w t \<and> events t = events w \<and> procs t = procs w \<and> cgs t = cgs w"

lemma untouched_refl [simp]: "untouched w w"
  by (simp add: untouched_def)

lemma untouched_tick: "untouched w t \<Longrightarrow> only_tick t u \<Longrightarrow> untouched w u"
  by (simp add: untouched_def files_kept_fget [OF only_tick_fget] only_tick_same)

lemma keeps_untouched_mkdir: "keeps (untouched w) (fs_create_dir_all E p)"
proof (rule keepsI)
  fix s
  assume s: "untouched w s"
  have "keeps (\<lambda>t. events t = events w \<and> procs t = procs w \<and> cgs t = cgs w) (fs_create_dir_all E p)"
    by (intro keeps_fs_blind fs_blind_events)
  with s keeps_files_mkdir [of w E p] show "untouched w (snd (fs_create_dir_all E p s))"
    by (auto simp: untouched_def keeps_def)
qed

lemma keeps_untouched_dirs: "keeps (untouched w) (state_dir_init E)" "keeps (untouched w) (create E d)"
  unfolding state_dir_init_def create_def by (intro mc_keeps keeps_untouched_mkdir)+

lemma init_wp:
  assumes "untouched w u"
  shows "wp (state_dir_init E) (\<lambda>_. untouched w) (\<lambda>_. untouched w) u"
  by (rule keeps_wp [OF keeps_untouched_dirs(1) assms])

lemma get_container_tick:
  "wp (get_container E cid) (\<lambda>st t. content_of E cid w = Some st \<and> only_tick w t) (\<lambda>_ t. only_tick w t) w"
  unfolding get_container_def dir_exists_def by (simp add: load_state_tick)

section \<open>Stopping\<close>

lemma kill_sig_wp [simp]:
  "wp (kill_sig E pid sig) Q R w = Q () (log_event (Kill pid sig) (put_kpart (k_kill E pid sig (kpart w)) w))"
  by (simp add: wp_def kill_sig_def)


section \<open>The supervisor\<close>

lemma stores_content:
  assumes "stores E cid P t" and ok: "\<And>r. P r \<Longrightarrow> json_ok (j_state E) r"
  shows "\<exists>r. content_of E cid t = Some r \<and> P r"
proof -
  obtain r json where r: "P r" "to_json (j_state E) r = Inr json"
    "fget t (resolve E (state_file (for_id E cid))) = Some (File (as_bytes json))"
    using assms(1) unfolding stores_def by blast
  with ok [OF r(1)] have "content_of E cid t = Some r"
    unfolding content_of_Some by (auto simp: json_ok_iff from_json_Inr simp del: resolve_dir_files)
  with r(1) show ?thesis by blast
qed

lemma stopped_live:
  assumes "no_faults E" and "is_dir w (resolve E (sd_root (for_id E cid)))" and "content_of E cid w = Some st"
    and "\<And>n. json_ok (j_state E) (stopped_update x n st)"
  shows "wp (ignore_m (set_stopped E cid x)) (\<lambda>_ t. \<exists>n. content_of E cid t = Some (stopped_update x n st)) (\<lambda>_ _. False) w"
  unfolding wp_ignore set_stopped_def
proof (rule wp_mono [OF wp_conj [OF update_at_live [OF assms(1,3,2), of "stopped_update x"] update_at_stores]])
  fix a t
  assume t: "True \<and> stores E cid (\<lambda>r. \<exists>st n. content_of E cid w = Some st \<and> r = stopped_update x n st) t
    \<and> (\<forall>q. q \<noteq> resolve E (state_file (for_id E cid)) \<longrightarrow> fget t q = fget w q)"
  have "\<exists>r. content_of E cid t = Some r \<and> (\<exists>st n. content_of E cid w = Some st \<and> r = stopped_update x n st)"
    by (rule stores_content) (use t assms(3,4) in auto)
  with assms(3) show "\<exists>n. content_of E cid t = Some (stopped_update x n st)" by auto
qed (use assms(4) in auto)


section \<open>Starting again\<close>

text \<open>The record of a container and the directory it is in.\<close>

definition recorded :: "'b senv_scheme \<Rightarrow> string \<Rightarrow> ContainerState \<Rightarrow> world \<Rightarrow> bool" where
  "recorded E cid st t \<longleftrightarrow> content_of E cid t = Some st \<and> is_dir t (resolve E (sd_root (for_id E cid)))"

lemma recorded_kept: "recorded E cid st w \<Longrightarrow> files_kept w t \<Longrightarrow> recorded E cid st t"
  unfolding recorded_def is_dir_def by (metis content_of_kept files_kept_def option.distinct(1))

lemma recorded_fget: "fget t = fget u \<Longrightarrow> recorded E cid st t = recorded E cid st u"
  using content_of_cong [of t u E cid] by (simp add: recorded_def is_dir_def)

lemma keeps_recorded_mkdir: "keeps (recorded E cid st) (fs_create_dir_all E p)"
  using keeps_files_mkdir [of _ E p] unfolding keeps_def by (blast intro: recorded_kept files_kept_refl)

lemma keeps_recorded_dirs: "keeps (recorded E cid st) (state_dir_init E)" "keeps (recorded E cid st) (create E d)"
  unfolding state_dir_init_def create_def by (intro mc_keeps keeps_recorded_mkdir)+

lemma keeps_recorded_load: "keeps (recorded E cid st) (load_config E d)"
proof (rule keepsI)
  fix s
  assume s: "recorded E cid st s"
  have "only_tick s (snd (load_config E d s))"
    by (rule keepsD [OF keeps_only_tick_loads(2)]) simp
  then show "recorded E cid st (snd (load_config E d s))"
    using s recorded_fget [OF only_tick_fget] by blast
qed

lemma recorded_write:
  assumes "recorded E cid st w" and "p \<noteq> resolve E (sd_root (for_id E cid))" and "p \<noteq> resolve E (state_file (for_id E cid))"
  shows "wp (ignore_m (fs_write E p b)) (\<lambda>_ t. recorded E cid st t) (\<lambda>_ _. False) w"
  unfolding wp_ignore
  by (rule wp_mono [OF fs_write_wp])
    (use assms in \<open>auto simp: recorded_def is_dir_def content_of_def simp del: resolve_dir_files\<close>)

definition settled_down :: "ContainerState \<Rightarrow> bool" where
  "settled_down st \<longleftrightarrow> cs_is st Stopped \<or> cs_is st Failed"

lemma settled_down_not_running: "settled_down st \<Longrightarrow> \<not> cs_is st Running"
  by (auto simp: settled_down_def cs_is_def as_str_def)

lemma await_running_gives_up:
  assumes "no_faults E" and "recorded E cid st w" and "settled_down st"
  shows "wp (await_running E cid (Suc k)) (\<lambda>r t. r = None) (\<lambda>_ _. False) w"
proof -
  have d: "is_dir w (resolve E (sd_root (for_id E cid)))" and c: "content_of E cid w = Some st"
    using assms(2) by (simp_all add: recorded_def)
  have "wp (await_running_loop E cid (mono_ms E (tick w) + Suc k) (Suc n)) (\<lambda>r t. r = None) (\<lambda>_ _. False) w" for n
    unfolding await_running_loop.simps wp_bind [of "get_m f" for f] wp_get
    by (simp, rule wp_mono [OF get_container_spec [OF assms(1) d]])
      (use c settled_down_not_running [OF assms(3)] assms(3) in \<open>auto simp: settled_down_def\<close>)
  then show ?thesis
    by (simp add: await_running_def polls_for_def)
qed


section \<open>Creating and removing\<close>

lemma create_volumes_iff: "create_volumes bs = Some vs \<longleftrightarrow> map bind_volume bs = map Some vs"
proof (induction bs arbitrary: vs)
  case (Cons b bs)
  then show ?case by (cases vs) (auto split: option.splits simp: Cons.IH [symmetric])
qed auto

lemma save_state_stores:
  "wp (save_state E (for_id E cid) st) (\<lambda>_ t. stores E cid (\<lambda>r. r = st) t) (\<lambda>_ _. True) w"
proof (cases "to_json (j_state E) st")
  case (Inr json)
  have "wp (fs_write E (resolve E (state_file (for_id E cid))) (as_bytes json)) (\<lambda>_ t. stores E cid (\<lambda>r. r = st) t) (\<lambda>_ _. True) w"
    by (rule wp_mono [OF fs_write_wp]) (use Inr in \<open>auto simp: stores_def\<close>)
  with Inr show ?thesis by (simp add: save_state_def del: resolve_dir_files)
qed (simp add: save_state_def)

lemma init_container_stores:
  "wp (init_container E cid) (\<lambda>_ t. \<exists>now. stores E cid (\<lambda>r. r = ContainerState_new now cid) t) (\<lambda>_ _. True) w"
proof -
  have save: "wp (bind_m (save_state E (for_id E cid) (ContainerState_new now cid)) (\<lambda>_. return_m (ContainerState_new now cid)))
      (\<lambda>_ t. \<exists>now. stores E cid (\<lambda>r. r = ContainerState_new now cid) t) (\<lambda>_ _. True) u" for now u
    by (simp, rule wp_mono [OF save_state_stores]) auto
  have any: "wp m (\<lambda>_ _. True) (\<lambda>_ _. True) u" for m :: "unit io" and u
    by (simp add: wp_def split: prod.splits sum.splits)
  show ?thesis
    unfolding init_container_def now_m_def Let_def wp_bind [of "get_m f" for f] wp_get
    by (rule wp_seq [OF any], rule wp_seq [OF any], unfold wp_bind [of "get_m f" for f] wp_get, rule save)
qed

text \<open>
  C28: A container that \<^verbatim>\<open>create\<close> reports (by printing its identifier and exiting with 0) has a fresh
  record and a configuration file with exactly the volumes that were asked for: a single bind that
  is not of the form host:container makes the command fail.
\<close>
theorem create_records_what_was_asked:
  "wp (cmd_create E a)
     (\<lambda>(n, out) t. n = 1 \<and> out = []
        \<or> n = 0 \<and> (\<exists>cid uuid now vs. out = println cid \<and> map bind_volume (ca_bind a) = map Some vs
             \<and> fget t (resolve E (config_file (for_id E cid)))
                 = Some (File (as_bytes (pp_config E ((create_config a cid uuid)\<lparr>volumes := vs\<rparr>))))
             \<and> stores E cid (\<lambda>r. r = ContainerState_new now cid) t))
     (\<lambda>_ _. False) w"
proof -
  let ?Q = "\<lambda>(n :: int, out) t. n = 1 \<and> out = []
        \<or> n = 0 \<and> (\<exists>cid uuid now vs. out = println cid \<and> map bind_volume (ca_bind a) = map Some vs
             \<and> fget t (resolve E (config_file (for_id E cid)))
                 = Some (File (as_bytes (pp_config E ((create_config a cid uuid)\<lparr>volumes := vs\<rparr>))))
             \<and> stores E cid (\<lambda>r. r = ContainerState_new now cid) t)"
  have save: "wp (or_fail (save_config E (for_id E cid) (pp_config E ((create_config a cid uuid)\<lparr>volumes := vs\<rparr>))) (\<lambda>_.
      return_m (0, println cid))) ?Q (\<lambda>_ _. False) u"
    if "create_volumes (ca_bind a) = Some vs" "stores E cid (\<lambda>r. r = ContainerState_new now cid) u" for u cid uuid vs now
    unfolding wp_or_fail save_config_def wp_map_err
    by (rule wp_mono [OF fs_write_wp]) (use that in \<open>auto simp: stores_def create_volumes_iff\<close>)
  have store: "wp (case create_volumes (ca_bind a) of None \<Rightarrow> code 1 | Some vs \<Rightarrow>
      or_fail (save_config E (for_id E cid) (pp_config E ((create_config a cid uuid)\<lparr>volumes := vs\<rparr>))) (\<lambda>_. return_m (0, println cid)))
      ?Q (\<lambda>_ _. False) u" if "\<exists>now. stores E cid (\<lambda>r. r = ContainerState_new now cid) u" for u cid uuid
  proof (cases "create_volumes (ca_bind a)")
    case (Some vs)
    from that obtain now where "stores E cid (\<lambda>r. r = ContainerState_new now cid) u" ..
    from save [OF Some this] show ?thesis unfolding Some option.case .
  qed simp
  have fresh: "wp (init_container E cid) (\<lambda>_. wp (bind_m (get_m (\<lambda>w. create_config a cid (uuid_v4 E 1 (tick w)))) (\<lambda>cfg.
      case create_volumes (ca_bind a) of None \<Rightarrow> code 1 | Some vs \<Rightarrow>
        or_fail (save_config E (for_id E cid) (pp_config E (cfg\<lparr>volumes := vs\<rparr>))) (\<lambda>_. return_m (0, println cid))))
      ?Q (\<lambda>_ _. False)) (\<lambda>_. ?Q (1, [])) u" for u cid
    by (rule wp_mono [OF init_container_stores], unfold wp_bind [of "get_m f" for f] wp_get, rule store) simp_all
  show ?thesis
    unfolding cmd_create_def wp_bind [of "get_m f" for f] wp_get wp_or_fail
    by (rule wp_mono [OF init_wp [OF untouched_refl]], rule fresh [unfolded wp_bind [of "get_m f" for f] wp_get]) simp
qed


section \<open>Exit codes\<close>

definition answers :: "int set \<Rightarrow> cmd \<Rightarrow> bool" where
  "answers S m \<longleftrightarrow> (\<forall>w. wp m (\<lambda>(n, _) _. n \<in> S) (\<lambda>_ _. True) w)"

named_theorems mc_answers \<open>exit codes of commands\<close>

lemma answers_return [mc_answers]: "n \<in> S \<Longrightarrow> answers S (return_m (n, out))" "n \<in> S \<Longrightarrow> answers S (code n)" "answers S (throw_m e)"
  by (simp_all add: answers_def)

lemma answers_bind: "(\<And>a. answers S (f a)) \<Longrightarrow> answers S (bind_m m f)"
  unfolding answers_def wp_bind by (auto simp: wp_def [of m] split: prod.splits sum.splits)

lemma answers_or_fail: "1 \<in> S \<Longrightarrow> (\<And>a. answers S (k a)) \<Longrightarrow> answers S (or_fail m k)"
  unfolding or_fail_def by (rule answers_bind) (auto intro: answers_return split: sum.splits)

lemma answers_cases [mc_answers]:
  "answers S m \<Longrightarrow> answers S n \<Longrightarrow> answers S (if b then m else n)"
  "answers S m \<Longrightarrow> (\<And>x. answers S (f x)) \<Longrightarrow> answers S (case opt of None \<Rightarrow> m | Some x \<Rightarrow> f x)"
  "(\<And>x. answers S (g x)) \<Longrightarrow> (\<And>x. answers S (f x)) \<Longrightarrow> answers S (case r of Inl x \<Rightarrow> g x | Inr x \<Rightarrow> f x)"
  "(\<And>x y. answers S (h x y)) \<Longrightarrow> answers S (case p of (x, y) \<Rightarrow> h x y)"
  by (simp_all split: option.splits sum.splits prod.splits)

lemma answers_run:
  assumes "\<And>m. me_exit_code m \<in> range wait_code \<Longrightarrow> answers (insert 1 (range wait_code)) (k m)" and "\<And>e. answers (insert 1 (range wait_code)) (h e)"
  shows "answers (insert 1 (range wait_code)) (bind_m (try_m (run E F cfg i)) (\<lambda>r. case r of Inl e \<Rightarrow> h e | Inr m \<Rightarrow> k m))"
  unfolding answers_def wp_bind wp_try
proof
  fix w
  have fin: "wp (handle_wait E F hd) (\<lambda>m _. me_exit_code m \<in> range wait_code) (\<lambda>_ _. True) u" for hd u
    unfolding handle_wait_def wp_bind since_m_def wp_get
    by (simp add: waitpid_def wp_kernel split: prod.splits sum.splits)
      (auto intro!: wp_mono [OF handle_finish_wp])
  have "wp (run E F cfg i) (\<lambda>m _. me_exit_code m \<in> range wait_code) (\<lambda>_ _. True) w"
    unfolding run_def wp_bind using fin by (auto simp: wp_def [of "spawn E F cfg i"] split: prod.splits sum.splits)
  then show "wp (run E F cfg i) (\<lambda>m. wp (case Inr m of Inl e \<Rightarrow> h e | Inr m \<Rightarrow> k m) (\<lambda>(n, _) _. n \<in> insert 1 (range wait_code)) (\<lambda>_ _. True))
     (\<lambda>e. wp (case Inl e of Inl e \<Rightarrow> h e | Inr m \<Rightarrow> k m) (\<lambda>(n, _) _. n \<in> insert 1 (range wait_code)) (\<lambda>_ _. True)) w"
    using assms by (elim wp_mono) (auto simp: answers_def)
qed

definition runs_to_end :: "Commands \<Rightarrow> bool" where
  "runs_to_end c = (case c of CmdRun _ \<Rightarrow> True | CmdStart _ detach \<Rightarrow> \<not> detach | _ \<Rightarrow> False)"


section \<open>Concrete commands\<close>

definition demo_fork :: forkenv where
  "demo_fork = \<lparr>fk_fork = \<lambda>_. Inr 7, fk_report = \<lambda>_. write_pid 42, fk_wait = \<lambda>p k. (Inr (Exited p 3), k)\<rparr>"

text \<open>Every printed report is its own name.\<close>

definition demo_cli :: clienv where
  "demo_cli = (tenv.extend demo_tenv (clienv.fields (\<lambda>k _. show_nat k) demo_fork 9 [] [] cc_id me_id cr_id rr_id mp_id
     mf_container_id (\<lambda>runs touch a b c d. show_nat runs) show_u64 show_u64 concat (\<lambda>label xs. label)))\<lparr>j_state := unary_json\<rparr>"

lemma demo_cli_sel:
  "faulty demo_cli = (\<lambda>_. None)" "j_state demo_cli = unary_json" "e_cwd demo_cli = []" "e_home demo_cli = Some ''/h''"
  by (simp_all add: demo_cli_def clienv.defs tenv.defs demo_tenv_def snenv.defs demo_snenv_def senv.defs demo_senv_def)

lemma demo_cli_no_faults: "no_faults demo_cli"
  by (simp add: no_faults_def demo_cli_sel)

lemma demo_cli_root: "resolve demo_cli (sd_root (for_id demo_cli ''c1'')) = demo_dir @ [''c1'']"
  using demo_state_root
  by (simp add: resolve_def for_id_def home_dir_def demo_cli_sel demo_snenv_senv)

text \<open>A host with one container and the given record.\<close>

definition demo_host :: "ContainerState \<Rightarrow> world" where
  "demo_host st = demo_world\<lparr>fs := [(demo_dir @ [''c1''], Dir),
     (demo_dir @ [''c1'', ''state.json''], File (as_bytes (replicate (record_number st) (CHR ''1''))))]\<rparr>"

lemma demo_host_recorded: "recorded demo_cli ''c1'' st (demo_host st)"
proof -
  have "utf8_valid (as_bytes (replicate n (CHR ''1'')))" for n
    by (rule utf8_valid_ascii) (simp add: as_bytes_def list_all_iff)
  then show ?thesis
    by (simp add: recorded_def content_of_def is_dir_def demo_cli_root demo_host_def fget_def from_utf8_def demo_cli_sel
        unary_json_def inv_f_f [OF inj_record_number])
qed



end
