(* ===== verification/Spec2Isabelle.thy ===== *)
theory Spec2Isabelle
  imports Checkpoint_Pack Cli_Facts
begin

text \<open>
  A verification of \<^verbatim>\<open>mincontainer\<close>, a container runtime for Linux written in Rust that can freeze a
  container into a snapshot file, rebuild it from one, and move it to another host.

  \<^bold>\<open>The program.\<close> A command (\<^verbatim>\<open>src/main.rs\<close>) works on the containers recorded below
  \<^verbatim>\<open>$HOME/.mincontainer\<close> (\<^verbatim>\<open>src/state.rs\<close>, \<^verbatim>\<open>src/config.rs\<close>). Starting one forks a middle process
  that makes the namespaces and forks the container, which sets up its root, hardens itself and
  executes the command (\<^verbatim>\<open>src/container.rs\<close>, \<^verbatim>\<open>src/capabilities.rs\<close>, \<^verbatim>\<open>src/seccomp.rs\<close>), while the parent
  puts it into a control group and wires its network (\<^verbatim>\<open>src/cgroups.rs\<close>, \<^verbatim>\<open>src/network.rs\<close>). A
  checkpoint has an external engine dump the process (\<^verbatim>\<open>src/criu.rs\<close>) and packs the dump, the
  metadata and the output files into one snapshot (\<^verbatim>\<open>src/checkpoint.rs\<close>, \<^verbatim>\<open>src/snapshot.rs\<close>); a restore
  verifies a snapshot, unpacks it and rebuilds the container, undoing what it made if it fails
  (\<^verbatim>\<open>src/restore.rs\<close>); a migration ships a snapshot over a framed protocol and releases the container
  here when the other side has confirmed (\<^verbatim>\<open>src/transport.rs\<close>, \<^verbatim>\<open>src/migrate.rs\<close>).

  \<^bold>\<open>How it is modelled.\<close> \<open>MC_Prelude\<close> has the error type (\<^verbatim>\<open>src/error.rs\<close>), byte encodings, and
  computations that take a state to an error or a value and the state left behind (\<open>bind_m\<close> is the
  question mark, \<open>ignore_m\<close> and \<open>try_m\<close> are the ways the sources drop or inspect an error), with
  weakest preconditions \<open>wp\<close>: as computations are total functions, these are statements of total
  correctness about every outcome. \<open>Rust_Std\<close> has what the sources use of the standard library:
  strings as their UTF-8 bytes, numbers, paths. \<open>Host\<close> is the machine: a concrete file tree with the
  file operations, a process table, control groups, and the sequence of requests made to the kernel;
  the reactions of the kernel and of external programs, the clock, the lengths of reads and which I/O
  calls fail after how much of their work are fields of a parameter, so every theorem holds for all
  of them unless it names the hypothesis \<open>no_faults\<close>. Integers have the width they have in the
  sources; durations and other floating-point values are bit patterns that are only passed on.

  \<^bold>\<open>The components.\<close>
  \<^item> \<open>Crc32\<close>, \<open>Snapshot\<close>, \<open>Snapshot_Read\<close>, \<open>Snapshot_Write\<close>: the checksum, the file format, its
    reader and its writer. The table-driven checksum is the bit-serial one; what was written is
    opened, verified and extracted exactly; damage is rejected; extraction stays below its
    directory; opening refines a pure parser of the bytes.
  \<^item> \<open>MC_Config\<close>, \<open>Civil_Date\<close>, \<open>State\<close>: configurations, time stamps, the record store. The contract
    of a store is the locale \<open>state_store\<close>, interpreted on the record files.
  \<^item> \<open>Cgroups\<close>, \<open>Net_Setup\<close>, \<open>Criu\<close>: which requests are made of the kernel, of the network tools and of
    the engine, in which order, and what their answers mean.
  \<^item> \<open>Checkpoint\<close>, \<open>Checkpoint_Facts\<close>, \<open>Checkpoint_Pack\<close>: inspecting \<^verbatim>\<open>/proc\<close>, refusing, dumping, packing,
    committing. A refusal leaves no trace, a failed dump gives the status back, a successful
    checkpoint is a snapshot of this container.
  \<^item> \<open>Restore\<close>, \<open>Restore_Facts\<close>: admission, verification, unpacking, rebuilding, the undo list and
    reconciliation. Nothing is built from a snapshot that is not intact, a live container is never
    restored again, the snapshot survives, and a failed revival is undone.
  \<^item> \<open>Transport\<close>, \<open>Frames\<close>, \<open>Transport_Facts\<close>, \<open>Migrate\<close>, \<open>Migrate_Facts\<close>: frames (an interpretation of the
    locale \<open>prefix_codec\<close>, like the entry headers of a snapshot), both ends of the protocol, the
    migration. What arrives is what was sent or nothing; the sender releases only what was
    confirmed; the receiver acts only on an authenticated, intact transfer.
  \<^item> \<open>Hardening\<close>, \<open>Container_Init\<close>: the process that becomes the container, with its descriptor table
    and its system calls, granted or refused by an arbitrary kernel. The command is executed only
    after exactly the required requests, hardening last.
  \<^item> \<open>Container\<close>, \<open>Container_Facts\<close>: starting and waiting on the host side, and the relation
    \<open>launch_step\<close> of the three processes of a launch with the pipes between them: its invariant, its
    termination, and the run in which a failed launch executes the command all the same.
  \<^item> \<open>Cli\<close>, \<open>Cli_Report\<close>, \<open>Cli_Facts\<close>: the commands, with exit code and standard output.

  \<^bold>\<open>Bounds.\<close> The polling loops of the sources end by a deadline. In the model each is a recursion on a
  number of turns, one more than the timeout divided by the sleep of a turn: since a turn sleeps at
  least that long, the deadline passes within these turns (\<open>await_supervisor_terminates\<close> is this
  argument). Reading loops recurse on the bytes left. No other fuel is used. The server's loop runs
  over the list of connections that arrive. The launch relation has a rank that every step lowers.

  \<^bold>\<open>Conventions.\<close> A panic propagates like an error, or, in the process that becomes the container, is
  an outcome of its own. Error texts keep the leading words of the sources. JSON is a pair of
  functions per type; a theorem that needs a value to be read back as it was written says so
  (\<open>json_ok\<close>).

  \<^bold>\<open>Not modelled.\<close> The standard error stream; parsing of the command line (\<^verbatim>\<open>clap\<close>); \<^verbatim>\<open>print_stats\<close>,
  which is floating-point arithmetic; symbolic links; socket timeouts; other processes changing files
  between two calls of one command, except while it sleeps, reaps, signals or runs a program; what
  the kernel does with a granted request. \<^verbatim>\<open>src/lib.rs\<close> only declares modules.
\<close>

end
